(* ===== verification/Prelude.thy ===== *)
theory Prelude
  imports Main "HOL-Library.Word" "HOL-Library.Char_ord" "HOL-Library.List_Lexorder"
    "HOL-Library.Sublist"
begin

text \<open>
  Types, exceptions and generic lemmas shared by every component.

  A Python \<open>str\<close> is an Isabelle \<open>string\<close> whose characters are code points below 256: that
  is exactly the range of an HTTP header value (the framework decodes headers as latin-1). Text
  that has to range over all of Unicode (the duration syntax) is a list of code points, \<open>int
  list\<close>. A Python \<open>bytes\<close> is a list of 8-bit words. A Python \<open>int\<close> is an \<open>int\<close>.
  A raised exception is a value of \<open>pyexn\<close>, returned on the left of a sum.
\<close>

section \<open>Types\<close>

type_synonym pystr = string
type_synonym byte = "8 word"
type_synonym bytes = "8 word list"
type_synonym codepoints = "int list"

text \<open>Times are integers: microseconds since the Unix epoch (the resolution of
  \<open>datetime\<close>); a \<open>timedelta\<close> is a number of microseconds.\<close>

type_synonym usec = int

text \<open>
  The exceptions the modelled code raises or lets through. \<open>ValueErr\<close> and its subclasses
  \<open>GoDurationErr\<close>, \<open>ConfigValidationErr\<close>, \<open>PasswordPolicyErr\<close> and
  \<open>UnicodeEncodeErr\<close> are told apart because the code catches them selectively.
\<close>

datatype pyexn =
    ValueErr pystr
  | GoDurationErr pystr
  | ConfigValidationErr pystr
  | PasswordPolicyErr pystr
  | UnicodeEncodeErr
  | OverflowErr
  | TypeErr
  | VerificationErr pystr
  | GatewaySignatureErr pystr
  | IngestErr pystr
  | NotFoundErr pystr
  | IntegrityErr pystr
  | SystemExitErr pystr
  | OtherErr pystr

type_synonym 'a py = "pyexn + 'a"

text \<open>\<open>except ValueError\<close> catches the class and its subclasses.\<close>

fun is_value_error :: "pyexn \<Rightarrow> bool" where
  "is_value_error (ValueErr _) = True"
| "is_value_error (GoDurationErr _) = True"
| "is_value_error (ConfigValidationErr _) = True"
| "is_value_error (PasswordPolicyErr _) = True"
| "is_value_error UnicodeEncodeErr = True"
| "is_value_error _ = False"

definition py_bind :: "'a py \<Rightarrow> ('a \<Rightarrow> 'b py) \<Rightarrow> 'b py" where
  "py_bind m f = (case m of Inl e \<Rightarrow> Inl e | Inr x \<Rightarrow> f x)"

definition returns :: "'a py \<Rightarrow> bool" where
  "returns r \<longleftrightarrow> (case r of Inl _ \<Rightarrow> False | Inr _ \<Rightarrow> True)"

named_theorems codec_simps \<open>encode/decode round trips\<close>
named_theorems text_simps \<open>facts about the Python string operations\<close>
named_theorems store_simps \<open>what the store's reads return after its writes\<close>
named_theorems inv_intros \<open>operations that keep an invariant\<close>

lemma py_bind_simps [simp]:
  "py_bind (Inl e) f = Inl e"
  "py_bind (Inr x) f = f x"
  by (simp_all add: py_bind_def)

lemma py_bind_eq_Inr: "py_bind m f = Inr y \<longleftrightarrow> (\<exists>x. m = Inr x \<and> f x = Inr y)"
  by (cases m) auto

lemma returns_simps [simp]: "returns (Inr x)" "\<not> returns (Inl e)"
  by (simp_all add: returns_def)

lemma returns_iff: "returns r \<longleftrightarrow> (\<exists>x. r = Inr x)"
  by (cases r) auto

lemma sum_unit_cases: "(r = Inr ()) \<longleftrightarrow> returns (r :: unit py)"
  by (cases r) auto

section \<open>Lists\<close>

lemma list_all_nth_eq: "list_all P xs \<longleftrightarrow> (\<forall>x \<in> set xs. P x)"
  by (simp add: list_all_iff)

lemma take_length_append [simp]: "take (length xs) (xs @ ys) = xs"
  by simp

lemma takeWhile_dropWhile_split: "takeWhile P xs @ dropWhile P xs = xs"
  by simp

lemma filter_length_partition:
  "length xs = length (filter P xs) + length (filter (\<lambda>x. \<not> P x) xs)"
  by (induction xs) auto

lemma sum_list_map_filter_eq:
  "sum_list (map f xs) = sum_list (map f (filter P xs)) + sum_list (map f (filter (\<lambda>x. \<not> P x) xs))"
  for f :: "'a \<Rightarrow> int"
  by (induction xs) auto

text \<open>The last \<open>n\<close> elements: what a drop-oldest queue of capacity \<open>n\<close> keeps.\<close>

definition last_n :: "nat \<Rightarrow> 'a list \<Rightarrow> 'a list" where
  "last_n n xs = drop (length xs - n) xs"

lemma last_n_all [simp]: "length xs \<le> n \<Longrightarrow> last_n n xs = xs"
  by (simp add: last_n_def)

lemma length_last_n [simp]: "length (last_n n xs) = min n (length xs)"
  by (simp add: last_n_def)

lemma last_n_snoc_full:
  "length xs = n \<Longrightarrow> 0 < n \<Longrightarrow> last_n n (xs @ [x]) = tl xs @ [x]"
  by (cases xs) (auto simp: last_n_def)

lemma suffix_last_n: "suffix (last_n n xs) xs"
  by (simp add: last_n_def suffix_drop)

lemma last_n_last_n_append: "last_n n (last_n n xs @ ys) = last_n n (xs @ ys)"
proof (cases "length xs \<le> n")
  case True
  then show ?thesis by simp
next
  case False
  have "last_n n (xs @ ys) = drop (length ys) (drop (length xs - n) (xs @ ys))"
    if "length ys \<le> n"
    using that False by (simp add: last_n_def add.commute)
  with False show ?thesis
    by (cases "length ys \<le> n") (auto simp: last_n_def)
qed

section \<open>Codecs\<close>

text \<open>
  An encoder with a decoder that recovers every encoded value. Every encoding the program puts
  on the wire (hex, base64) is one, and what the clients rely on is proved here once: encoding
  is injective, and a decoder accepts an encoded value as the value it encodes.
\<close>

locale codec =
  fixes enc :: "'a \<Rightarrow> 'b" and dec :: "'b \<Rightarrow> 'a option"
  assumes dec_enc: "dec (enc x) = Some x"
begin

lemma enc_inj: "enc x = enc y \<longleftrightarrow> x = y"
  using dec_enc by (metis option.inject)

lemma enc_decodes_to: "dec (enc x) = Some y \<longleftrightarrow> x = y"
  by (simp add: dec_enc)

lemma dec_total_on_range: "dec (enc x) \<noteq> None"
  by (simp add: dec_enc)

end

text \<open>
  A check of a tag that travels with a message: the tag is recomputed from the message and
  compared with the decoded one. Every symmetric signature of the program has this shape. What a
  client may conclude is the same for all of them: a message is accepted with its own tag, an
  accepted tag is the encoding of the recomputed one, and a tag accepted for two messages is a
  collision of the tag function.
\<close>

locale tag_scheme = codec enc dec
  for enc :: "bytes \<Rightarrow> 's" and dec :: "'s \<Rightarrow> bytes option" +
  fixes tag :: "'m \<Rightarrow> bytes" and check :: "'m \<Rightarrow> 's \<Rightarrow> bool"
  assumes check_iff: "check m s \<longleftrightarrow> dec s = Some (tag m)"
begin

lemma own_tag_accepted: "check m (enc (tag m))"
  by (simp add: check_iff dec_enc)

lemma undecodable_rejected: "dec s = None \<Longrightarrow> \<not> check m s"
  by (simp add: check_iff)

lemma accepted_for_both: "check m s \<Longrightarrow> check m' s \<longleftrightarrow> tag m = tag m'"
  by (auto simp: check_iff)

lemma other_tag_accepted: "check m (enc (tag m')) \<longleftrightarrow> tag m = tag m'"
  by (auto simp: check_iff dec_enc)

lemma wrong_length_rejected: "dec s = Some b \<Longrightarrow> length b \<noteq> length (tag m) \<Longrightarrow> \<not> check m s"
  by (auto simp: check_iff)

end

end
