(* ===== verification/PyText.thy ===== *)
theory PyText
  imports Prelude
begin

text \<open>
  The string operations of Python the modelled code calls, on \<open>string\<close> with code points below
  256: prefix and substring tests, \<open>strip\<close>, \<open>lower\<close>, \<open>split\<close>, \<open>partition\<close>,
  \<open>repr\<close>, the two encodings, and \<open>int\<close>/\<open>str\<close> on decimal numerals. Each follows the
  CPython 3.12 behaviour on that range (which characters count as white space differs between
  \<open>str.strip\<close> and \<open>int\<close>, for instance).
\<close>

section \<open>Prefixes and substrings\<close>

definition startswith :: "pystr \<Rightarrow> pystr \<Rightarrow> bool" where
  "startswith s p \<longleftrightarrow> take (length p) s = p"

definition endswith :: "pystr \<Rightarrow> pystr \<Rightarrow> bool" where
  "endswith s p \<longleftrightarrow> length p \<le> length s \<and> drop (length s - length p) s = p"

text \<open>\<open>sub in s\<close>.\<close>

fun contains :: "pystr \<Rightarrow> pystr \<Rightarrow> bool" where
  "contains sub [] \<longleftrightarrow> sub = []"
| "contains sub (c # s) \<longleftrightarrow> startswith (c # s) sub \<or> contains sub s"

lemma startswith_iff: "startswith s p \<longleftrightarrow> (\<exists>r. s = p @ r)"
  unfolding startswith_def by (metis append_eq_conv_conj append_take_drop_id)

lemma startswith_append [simp]: "startswith (p @ r) p"
  by (simp add: startswith_def)

lemma startswith_Nil [simp]: "startswith s []"
  by (simp add: startswith_def)

lemma startswith_Nil_left [simp]: "startswith [] p \<longleftrightarrow> p = []"
  by (auto simp: startswith_def)

lemma startswith_Cons [simp]: "startswith (c # s) (d # p) \<longleftrightarrow> c = d \<and> startswith s p"
  by (auto simp: startswith_def)

lemma endswith_iff: "endswith s p \<longleftrightarrow> (\<exists>r. s = r @ p)"
proof
  assume "endswith s p"
  then have "s = take (length s - length p) s @ p"
    unfolding endswith_def by (metis append_take_drop_id)
  then show "\<exists>r. s = r @ p" ..
qed (auto simp: endswith_def)

lemma contains_iff: "contains sub s \<longleftrightarrow> (\<exists>a b. s = a @ sub @ b)"
proof (induction s)
  case Nil
  then show ?case by simp
next
  case (Cons c s)
  have "(\<exists>a b. c # s = a @ sub @ b) \<longleftrightarrow>
      (\<exists>b. c # s = sub @ b) \<or> (\<exists>a b. s = a @ sub @ b)"
    by (metis Cons_eq_append_conv append_Cons append_Nil)
  with Cons.IH show ?case by (simp add: startswith_iff)
qed

lemma contains_Nil [simp]: "contains [] s"
  by (cases s) simp_all

lemma contains_middle [text_simps]: "contains sub (a @ sub @ b)"
  by (auto simp: contains_iff)

lemma contains_append1 [text_simps]: "contains sub s \<Longrightarrow> contains sub (s @ t)"
  unfolding contains_iff by (metis append_assoc)

lemma contains_append2 [text_simps]: "contains sub t \<Longrightarrow> contains sub (s @ t)"
  unfolding contains_iff by (metis append_assoc)

section \<open>White space and case\<close>

definition in_range :: "nat \<Rightarrow> nat \<Rightarrow> char \<Rightarrow> bool" where
  "in_range lo hi c \<longleftrightarrow> lo \<le> of_char c \<and> of_char c \<le> hi"

text \<open>\<open>str.isspace\<close> below 256: what \<open>strip\<close> removes.\<close>

definition is_space :: "char \<Rightarrow> bool" where
  "is_space c \<longleftrightarrow> in_range 9 13 c \<or> in_range 28 32 c \<or> of_char c = (133::nat) \<or> of_char c = (160::nat)"

text \<open>The smaller set \<open>int\<close> skips around a numeral: without U+001C to U+001F.\<close>

definition is_int_space :: "char \<Rightarrow> bool" where
  "is_int_space c \<longleftrightarrow> in_range 9 13 c \<or> of_char c = (32::nat) \<or> of_char c = (133::nat) \<or> of_char c = (160::nat)"

definition strip_by :: "(char \<Rightarrow> bool) \<Rightarrow> pystr \<Rightarrow> pystr" where
  "strip_by P s = rev (dropWhile P (rev (dropWhile P s)))"

definition py_strip :: "pystr \<Rightarrow> pystr" where
  "py_strip = strip_by is_space"

definition lower_char :: "char \<Rightarrow> char" where
  "lower_char c =
     (if in_range 65 90 c \<or> (in_range 192 222 c \<and> of_char c \<noteq> (215::nat))
      then char_of (of_char c + (32::nat)) else c)"

definition py_lower :: "pystr \<Rightarrow> pystr" where
  "py_lower = map lower_char"

text \<open>The ASCII-only case folding of SQLite's \<open>NOCASE\<close> and \<open>LIKE\<close>.\<close>

definition ascii_fold_char :: "char \<Rightarrow> char" where
  "ascii_fold_char c = (if in_range 65 90 c then char_of (of_char c + (32::nat)) else c)"

definition ascii_fold :: "pystr \<Rightarrow> pystr" where
  "ascii_fold = map ascii_fold_char"

lemma lower_char_idem [simp]: "lower_char (lower_char c) = lower_char c"
proof (cases "in_range 65 90 c \<or> (in_range 192 222 c \<and> of_char c \<noteq> (215::nat))")
  case True
  then have "(of_char c :: nat) \<le> 222" by (auto simp: in_range_def)
  then have "of_char (char_of (of_char c + (32::nat)) :: char) = of_char c + (32::nat)"
    by (simp add: of_char_mod_256)
  with True show ?thesis by (auto simp: lower_char_def in_range_def)
next
  case False
  then have "lower_char c = c" unfolding lower_char_def by (rule if_not_P)
  then show ?thesis by simp
qed

lemma py_lower_idem [simp]: "py_lower (py_lower s) = py_lower s"
  by (simp add: py_lower_def)

lemma length_py_lower [simp]: "length (py_lower s) = length s"
  by (simp add: py_lower_def)

lemma dropWhile_subset_idem: "dropWhile P (dropWhile P s) = dropWhile P s"
  by simp

lemma hd_dropWhile_not: "dropWhile P s \<noteq> [] \<Longrightarrow> \<not> P (hd (dropWhile P s))"
  by (rule hd_dropWhile)

lemma strip_by_ends:
  assumes "strip_by P s \<noteq> []"
  shows "\<not> P (hd (strip_by P s)) \<and> \<not> P (last (strip_by P s))"
proof -
  let ?t = "dropWhile P s"
  let ?u = "dropWhile P (rev ?t)"
  have u: "?u \<noteq> []" using assms by (simp add: strip_by_def)
  then have last: "\<not> P (last (strip_by P s))"
    unfolding strip_by_def using hd_dropWhile [OF u] by (simp add: last_rev)
  have "suffix ?u (rev ?t)" by (rule suffix_dropWhile)
  then obtain zs where "rev ?t = zs @ ?u" by (auto simp: suffix_def)
  then have t: "?t = rev ?u @ rev zs" by (metis rev_append rev_rev_ident)
  then have "hd ?t = hd (rev ?u)" using u by (metis hd_append2 rev_is_Nil_conv)
  moreover have "?t \<noteq> []" using u by (metis dropWhile.simps(1) rev.simps(1))
  ultimately have "\<not> P (hd (rev ?u))" using hd_dropWhile [of P s] by simp
  with last show ?thesis unfolding strip_by_def by blast
qed

lemma strip_by_no_ends:
  assumes "s = [] \<or> (\<not> P (hd s) \<and> \<not> P (last s))"
  shows "strip_by P s = s"
proof (cases s)
  case Nil
  then show ?thesis by (simp add: strip_by_def)
next
  case (Cons c cs)
  with assms have "dropWhile P s = s" by simp
  moreover have "dropWhile P (rev s) = rev s"
    using Cons assms by (cases "rev s") (auto simp: hd_rev [symmetric])
  ultimately show ?thesis by (simp add: strip_by_def)
qed

lemma strip_by_idem [simp]: "strip_by P (strip_by P s) = strip_by P s"
  using strip_by_ends strip_by_no_ends by metis

lemma py_strip_idem [simp]: "py_strip (py_strip s) = py_strip s"
  by (simp add: py_strip_def)

section \<open>Splitting\<close>

text \<open>\<open>s.split(c)\<close> for a one-character separator: always at least one part.\<close>

fun split_ch :: "char \<Rightarrow> pystr \<Rightarrow> pystr list" where
  "split_ch d [] = [[]]"
| "split_ch d (c # s) =
     (if c = d then [] # split_ch d s
      else case split_ch d s of [] \<Rightarrow> [[c]] | p # ps \<Rightarrow> (c # p) # ps)"

text \<open>\<open>s.partition(c)\<close>: what stands before the first separator, whether there is one, and what
  stands after it.\<close>

fun partition_ch :: "char \<Rightarrow> pystr \<Rightarrow> pystr \<times> bool \<times> pystr" where
  "partition_ch d [] = ([], False, [])"
| "partition_ch d (c # s) =
     (if c = d then ([], True, s)
      else case partition_ch d s of (a, f, b) \<Rightarrow> (c # a, f, b))"

fun join_with :: "pystr \<Rightarrow> pystr list \<Rightarrow> pystr" where
  "join_with sep [] = []"
| "join_with sep [p] = p"
| "join_with sep (p # q # ps) = p @ sep @ join_with sep (q # ps)"

lemma split_ch_not_Nil [simp]: "split_ch d s \<noteq> []"
  by (induction s) (auto split: list.splits)

lemma split_ch_no_sep [simp]: "d \<notin> set s \<Longrightarrow> split_ch d s = [s]"
  by (induction s) auto

lemma split_ch_append: "d \<notin> set a \<Longrightarrow> split_ch d (a @ d # b) = a # split_ch d b"
  by (induction a) auto

lemma split_ch_parts: "p \<in> set (split_ch d s) \<Longrightarrow> d \<notin> set p"
  by (induction s arbitrary: p) (auto split: if_splits list.splits)

lemma join_split_ch: "join_with [d] (split_ch d s) = s"
proof (induction s)
  case Nil
  then show ?case by simp
next
  case (Cons c s)
  obtain p ps where s: "split_ch d s = p # ps"
    by (cases "split_ch d s") auto
  with Cons.IH show ?case by (cases ps) auto
qed

lemma split_join_ch:
  "ps \<noteq> [] \<Longrightarrow> (\<forall>p \<in> set ps. d \<notin> set p) \<Longrightarrow> split_ch d (join_with [d] ps) = ps"
proof (induction "[d]" ps rule: join_with.induct)
  case (3 p q ps)
  then show ?case using split_ch_append [of d p "join_with [d] (q # ps)"] by simp
qed auto

lemma partition_ch_no_sep [simp]: "d \<notin> set s \<Longrightarrow> partition_ch d s = (s, False, [])"
  by (induction s) auto

lemma partition_ch_append [simp]: "d \<notin> set a \<Longrightarrow> partition_ch d (a @ d # b) = (a, True, b)"
  by (induction a) auto

lemma partition_ch_found:
  "partition_ch d s = (a, True, b) \<longleftrightarrow> s = a @ d # b \<and> d \<notin> set a"
proof (induction s arbitrary: a)
  case Nil
  then show ?case by simp
next
  case (Cons c s)
  obtain a' f b' where p: "partition_ch d s = (a', f, b')" by (cases "partition_ch d s") auto
  show ?case
    using Cons.IH [of a'] Cons.IH [of "tl a"] p by (cases a) auto
qed

section \<open>Encodings\<close>

definition is_ascii :: "pystr \<Rightarrow> bool" where
  "is_ascii s \<longleftrightarrow> list_all (in_range 0 127) s"

definition encode_ascii :: "pystr \<Rightarrow> bytes py" where
  "encode_ascii s = (if is_ascii s then Inr (map of_char s) else Inl UnicodeEncodeErr)"

text \<open>UTF-8 of a code point below 256: one byte below 128, two bytes from there on.\<close>

definition utf8_char :: "char \<Rightarrow> bytes" where
  "utf8_char c =
     (let n = of_char c :: nat in
      if n < 128 then [of_nat n] else [of_nat (192 + n div 64), of_nat (128 + n mod 64)])"

definition encode_utf8 :: "pystr \<Rightarrow> bytes" where
  "encode_utf8 s = concat (map utf8_char s)"

lemma encode_utf8_Nil [simp]: "encode_utf8 [] = []"
  by (simp add: encode_utf8_def)

lemma encode_utf8_append [simp]: "encode_utf8 (s @ t) = encode_utf8 s @ encode_utf8 t"
  by (simp add: encode_utf8_def)

lemma encode_utf8_Cons: "encode_utf8 (c # s) = utf8_char c @ encode_utf8 s"
  by (simp add: encode_utf8_def)

lemma utf8_char_not_Nil [simp]: "utf8_char c \<noteq> []"
  by (simp add: utf8_char_def Let_def)

lemma unat_of_nat_byte [simp]: "n < 256 \<Longrightarrow> unat (of_nat n :: byte) = n"
  by (simp add: unat_of_nat)

section \<open>Decimal numerals\<close>

definition is_digit :: "char \<Rightarrow> bool" where
  "is_digit c \<longleftrightarrow> in_range 48 57 c"

definition digit_val :: "char \<Rightarrow> nat" where
  "digit_val c = of_char c - 48"

definition digit_char :: "nat \<Rightarrow> char" where
  "digit_char n = char_of (48 + n)"

definition nat_of_digits :: "nat list \<Rightarrow> nat" where
  "nat_of_digits ds = foldl (\<lambda>a d. 10 * a + d) 0 ds"

text \<open>The digits of a numeral: at least one, single underscores allowed between two of them.\<close>

fun numeral_digits :: "pystr \<Rightarrow> nat list option" where
  "numeral_digits [] = None"
| "numeral_digits [c] = (if is_digit c then Some [digit_val c] else None)"
| "numeral_digits (c # d # s) =
     (if \<not> is_digit c then None
      else map_option ((#) (digit_val c)) (numeral_digits (if d = CHR ''_'' then s else d # s)))"

text \<open>CPython refuses a decimal numeral with more digits than this (\<open>sys.int_info\<close>), with a
  plain \<open>ValueError\<close>.\<close>

definition max_str_digits :: nat where
  "max_str_digits = 4300"

definition int_of_numeral :: "bool \<Rightarrow> pystr \<Rightarrow> int py" where
  "int_of_numeral neg s =
     (case numeral_digits s of
        None \<Rightarrow> Inl (ValueErr ''invalid literal for int() with base 10'')
      | Some ds \<Rightarrow>
          if max_str_digits < length ds
          then Inl (ValueErr ''Exceeds the limit (4300 digits) for integer string conversion'')
          else Inr (if neg then - int (nat_of_digits ds) else int (nat_of_digits ds)))"

text \<open>\<open>int(s)\<close> on a string.\<close>

definition py_int :: "pystr \<Rightarrow> int py" where
  "py_int s =
     (case strip_by is_int_space s of
        [] \<Rightarrow> int_of_numeral False []
      | c # t \<Rightarrow>
          if c = CHR ''-'' then int_of_numeral True t
          else if c = CHR ''+'' then int_of_numeral False t
          else int_of_numeral False (c # t))"

text \<open>\<open>str(n)\<close>.\<close>

fun show_nat :: "nat \<Rightarrow> pystr" where
  "show_nat n = (if n < 10 then [digit_char n] else show_nat (n div 10) @ [digit_char (n mod 10)])"

declare show_nat.simps [simp del]

definition show_int :: "int \<Rightarrow> pystr" where
  "show_int i = (if i < 0 then CHR ''-'' # show_nat (nat (- i)) else show_nat (nat i))"

lemma of_char_digit_char [simp]: "n < 10 \<Longrightarrow> of_char (digit_char n) = 48 + n" for n :: nat
  by (simp add: digit_char_def)

lemma is_digit_digit_char [simp]: "n < 10 \<Longrightarrow> is_digit (digit_char n)"
  by (simp add: is_digit_def in_range_def)

lemma digit_val_digit_char [simp]: "n < 10 \<Longrightarrow> digit_val (digit_char n) = n"
  by (simp add: digit_val_def)

lemma underscore_not_digit [simp]: "\<not> is_digit (CHR ''_'')"
  by (simp add: is_digit_def in_range_def)

lemma digit_not_space: "is_digit c \<Longrightarrow> \<not> is_space c \<and> \<not> is_int_space c"
  by (auto simp: is_digit_def is_space_def is_int_space_def in_range_def)

lemma digit_neq_sign: "is_digit c \<Longrightarrow> c \<noteq> CHR ''-'' \<and> c \<noteq> CHR ''+'' \<and> c \<noteq> CHR ''_''"
  by (auto simp: is_digit_def in_range_def)

lemma nat_of_digits_snoc: "nat_of_digits (ds @ [d]) = 10 * nat_of_digits ds + d"
  by (simp add: nat_of_digits_def)

lemma numeral_digits_plain:
  "s \<noteq> [] \<Longrightarrow> list_all is_digit s \<Longrightarrow> numeral_digits s = Some (map digit_val s)"
  by (induction s rule: numeral_digits.induct) (auto dest: digit_neq_sign)

lemma numeral_digits_hd_last:
  "numeral_digits s = Some ds \<Longrightarrow> s \<noteq> [] \<and> is_digit (hd s) \<and> is_digit (last s)"
proof (induction s arbitrary: ds rule: numeral_digits.induct)
  case (3 c d s)
  let ?t = "if d = CHR ''_'' then s else d # s"
  have c: "is_digit c" using "3.prems" by (cases "is_digit c") simp_all
  obtain ds' where "numeral_digits ?t = Some ds'"
    using "3.prems" c by (cases "numeral_digits ?t") (simp_all del: if_split)
  with "3.IH" c have "?t \<noteq> [] \<and> is_digit (last ?t)" by blast
  with c show ?case by (cases "d = CHR ''_''") simp_all
qed (simp_all split: if_split_asm)

lemma show_nat_digits: "list_all is_digit (show_nat n)"
proof (induction n rule: show_nat.induct)
  case (1 n)
  then show ?case by (subst show_nat.simps) auto
qed

lemma show_nat_not_Nil [simp]: "show_nat n \<noteq> []"
  by (subst show_nat.simps) simp

lemma nat_of_digits_show_nat: "nat_of_digits (map digit_val (show_nat n)) = n"
proof (induction n rule: show_nat.induct)
  case (1 n)
  show ?case
  proof (cases "n < 10")
    case True
    then show ?thesis by (subst show_nat.simps) (simp add: nat_of_digits_def)
  next
    case False
    with 1 show ?thesis
      by (subst show_nat.simps) (simp add: nat_of_digits_snoc)
  qed
qed

lemma numeral_digits_show_nat [simp]:
  "numeral_digits (show_nat n) = Some (map digit_val (show_nat n))"
  by (simp add: numeral_digits_plain show_nat_digits)

lemma show_nat_ends:
  "is_digit (hd (show_nat n)) \<and> is_digit (last (show_nat n))"
  using numeral_digits_hd_last numeral_digits_show_nat by blast

lemma show_int_ends:
  "show_int i \<noteq> [] \<and> \<not> is_int_space (hd (show_int i)) \<and> \<not> is_int_space (last (show_int i))"
proof -
  have "\<not> is_int_space (CHR ''-'')" by (simp add: is_int_space_def in_range_def)
  then show ?thesis
    using show_nat_ends digit_not_space by (auto simp: show_int_def)
qed

lemma py_int_show_int [codec_simps]:
  assumes "length (show_int i) \<le> max_str_digits"
  shows "py_int (show_int i) = Inr i"
proof -
  have strip: "strip_by is_int_space (show_int i) = show_int i"
    using show_int_ends by (intro strip_by_no_ends) blast
  show ?thesis
  proof (cases "i < 0")
    case True
    with assms show ?thesis
      by (simp add: py_int_def strip) (simp add: show_int_def int_of_numeral_def nat_of_digits_show_nat)
  next
    case False
    obtain c t where ct: "show_nat (nat i) = c # t" by (cases "show_nat (nat i)") auto
    with show_nat_ends [of "nat i"] have "c \<noteq> CHR ''-''" "c \<noteq> CHR ''+''"
      using digit_neq_sign by auto
    moreover have "int_of_numeral False (c # t) = Inr i"
      using assms False ct numeral_digits_show_nat [of "nat i"] nat_of_digits_show_nat [of "nat i"]
      by (simp add: int_of_numeral_def show_int_def)
    ultimately show ?thesis using False ct by (simp add: py_int_def strip) (simp add: show_int_def)
  qed
qed

lemma show_nat_inj: "show_nat m = show_nat n \<longleftrightarrow> m = n"
  by (metis nat_of_digits_show_nat)

section \<open>Hexadecimal digits and \<open>repr\<close>\<close>

text \<open>Lower-case digits, as \<open>bytes.hex\<close> and \<open>repr\<close> print them.\<close>

definition hex_digit :: "nat \<Rightarrow> char" where
  "hex_digit n = (if n < 10 then char_of (48 + n) else char_of (87 + n))"

definition is_printable :: "char \<Rightarrow> bool" where
  "is_printable c \<longleftrightarrow> in_range 32 126 c \<or> (in_range 161 255 c \<and> of_char c \<noteq> (173::nat))"

definition repr_char :: "char \<Rightarrow> char \<Rightarrow> pystr" where
  "repr_char q c =
     (if c = q \<or> c = CHR 0x5C then [CHR 0x5C, c]
      else if c = CHR 0x09 then [CHR 0x5C, CHR ''t'']
      else if c = CHR 0x0A then [CHR 0x5C, CHR ''n'']
      else if c = CHR 0x0D then [CHR 0x5C, CHR ''r'']
      else if is_printable c then [c]
      else [CHR 0x5C, CHR ''x'', hex_digit (of_char c div 16), hex_digit (of_char c mod 16)])"

definition py_repr :: "pystr \<Rightarrow> pystr" where
  "py_repr s =
     (let q = (if CHR 0x27 \<in> set s \<and> CHR 0x22 \<notin> set s then CHR 0x22 else CHR 0x27)
      in q # concat (map (repr_char q) s) @ [q])"

text \<open>Characters \<open>repr\<close> prints as they are, whatever quote it chooses.\<close>

definition is_plain :: "char \<Rightarrow> bool" where
  "is_plain c \<longleftrightarrow> is_printable c \<and> c \<noteq> CHR 0x22 \<and> c \<noteq> CHR 0x27 \<and> c \<noteq> CHR 0x5C"

lemma plain_not_control: "is_plain c \<Longrightarrow> c \<noteq> CHR 0x09 \<and> c \<noteq> CHR 0x0A \<and> c \<noteq> CHR 0x0D"
  by (intro conjI notI) (simp_all add: is_plain_def is_printable_def in_range_def)

lemma repr_char_plain [simp]:
  assumes "is_plain c" "q \<in> {CHR 0x22, CHR 0x27}"
  shows "repr_char q c = [c]"
proof -
  have "is_printable c" "c \<noteq> q" "c \<noteq> CHR 0x5C" using assms unfolding is_plain_def by blast+
  with plain_not_control [OF assms(1)] show ?thesis by (simp add: repr_char_def)
qed

lemma concat_repr_plain:
  "list_all is_plain s \<Longrightarrow> q \<in> {CHR 0x22, CHR 0x27} \<Longrightarrow> concat (map (repr_char q) s) = s"
  by (induction s) auto

lemma py_repr_plain: "list_all is_plain s \<Longrightarrow> py_repr s = CHR 0x27 # s @ [CHR 0x27]"
proof -
  assume plain: "list_all is_plain s"
  then have "CHR 0x27 \<notin> set s" by (auto simp: list_all_iff is_plain_def)
  with plain show ?thesis by (simp add: py_repr_def concat_repr_plain Let_def)
qed

lemma py_repr_contains:
  assumes "contains sub s" "list_all is_plain sub"
  shows "contains sub (py_repr s)"
proof -
  obtain a b where s: "s = a @ sub @ b" using assms(1) by (auto simp: contains_iff)
  let ?q = "if CHR 0x27 \<in> set s \<and> CHR 0x22 \<notin> set s then CHR 0x22 else CHR 0x27"
  have "py_repr s = (?q # concat (map (repr_char ?q) a)) @ sub @ (concat (map (repr_char ?q) b) @ [?q])"
    using assms(2) by (simp add: py_repr_def s concat_repr_plain Let_def)
  then show ?thesis by (simp only: contains_middle)
qed

end
