(* ===== verification/GatewayRoute.thy ===== *)
theory GatewayRoute
  imports PyText
begin

text \<open>
  \<open>hookguard_gateway/config.py\<close> and the request headers as the verifiers read them. A route is
  the pydantic model's fields with their types; \<open>Headers.get\<close> (case-insensitive, first value) is
  the lookup function a request carries. \<open>load_config\<close> itself only hands the file's JSON to
  pydantic, whose code is not here: the table a gateway starts from is an argument.
\<close>

record Route =
  route_path :: pystr
  route_provider :: pystr
  route_upstream :: pystr
  route_replay_window :: pystr
  route_secret_env :: pystr
  route_webhook_id :: pystr

record Config =
  routes :: "Route list"

definition default_route :: Route where
  "default_route =
     \<lparr>route_path = [], route_provider = [], route_upstream = [], route_replay_window = [],
      route_secret_env = [], route_webhook_id = []\<rparr>"

text \<open>\<open>os.getenv(name)\<close> of an environment.\<close>

type_synonym environ = "pystr \<rightharpoonup> pystr"

definition getenv_or :: "environ \<Rightarrow> pystr \<Rightarrow> pystr \<Rightarrow> pystr" where
  "getenv_or env name d = (case env name of None \<Rightarrow> d | Some v \<Rightarrow> v)"

definition config_path :: "environ \<Rightarrow> pystr" where
  "config_path env =
     (case env ''CONFIG_PATH'' of None \<Rightarrow> ''config.json'' | Some v \<Rightarrow> if v = [] then ''config.json'' else v)"

text \<open>\<open>not value\<close> of a string that may be missing.\<close>

type_synonym headers = "pystr \<Rightarrow> pystr option"

definition absent :: "pystr option \<Rightarrow> bool" where
  "absent v \<longleftrightarrow> (case v of None \<Rightarrow> True | Some s \<Rightarrow> s = [])"

text \<open>A request with a single header.\<close>

definition one_header :: "pystr \<Rightarrow> pystr \<Rightarrow> headers" where
  "one_header name v = (\<lambda>n. if n = name then Some v else None)"

lemma absent_simps [simp]: "absent None" "absent (Some s) \<longleftrightarrow> s = []"
  by (simp_all add: absent_def)

lemma not_absent: "\<not> absent v \<longleftrightarrow> (\<exists>s. v = Some s \<and> s \<noteq> [])"
  by (cases v) auto

text \<open>\<open>str(e)\<close> of the exceptions whose message the code re-uses.\<close>

fun exn_message :: "pyexn \<Rightarrow> pystr" where
  "exn_message (ValueErr m) = m"
| "exn_message (GoDurationErr m) = m"
| "exn_message (ConfigValidationErr m) = m"
| "exn_message (PasswordPolicyErr m) = m"
| "exn_message (VerificationErr m) = m"
| "exn_message (GatewaySignatureErr m) = m"
| "exn_message (IngestErr m) = m"
| "exn_message (NotFoundErr m) = m"
| "exn_message (IntegrityErr m) = m"
| "exn_message (SystemExitErr m) = m"
| "exn_message (OtherErr m) = m"
| "exn_message UnicodeEncodeErr = ''codec can't encode characters''"
| "exn_message OverflowErr = ''int too large to convert to float''"
| "exn_message TypeErr = ''comparing strings with non-ASCII characters is not supported''"

end
