(* ===== verification/StdCrypto.thy ===== *)
theory StdCrypto
  imports PyText
begin

text \<open>
  The algorithms of Python's standard library the program calls: \<open>hashlib.sha256\<close> (FIPS
  180-4), \<open>hmac.new\<close> with that digest (RFC 2104), \<open>hmac.compare_digest\<close>,
  \<open>zlib.crc32\<close>, \<open>bytes.hex\<close>, and \<open>base64\<close> (RFC 4648; \<open>b64decode\<close> with
  \<open>validate=True\<close>, which is \<open>binascii.a2b_base64\<close> in strict mode). They are defined
  outright, so no property rests on an assumption about them.
\<close>

unbundle bit_operations_syntax

section \<open>SHA-256\<close>

type_synonym u32 = "32 word"

text \<open>The constants of the standard: the first 32 bits of the fractional parts of the cube roots of
  the first 64 primes, and of the square roots of the first 8. \<open>root_bits k n\<close> is the largest
  \<open>r < 2 ^ 40\<close> with \<open>r ^ k \<le> n\<close>, one bit at a time.\<close>

fun root_bits :: "nat \<Rightarrow> int \<Rightarrow> nat \<Rightarrow> int \<Rightarrow> int" where
  "root_bits k n 0 r = r"
| "root_bits k n (Suc b) r = root_bits k n b (if (r + 2 ^ b) ^ k \<le> n then r + 2 ^ b else r)"

definition sha_primes :: "int list" where
  "sha_primes = filter (\<lambda>n. list_all (\<lambda>d. n mod d \<noteq> 0) [2 .. n - 1]) [2 .. 311]"

definition root_fraction :: "nat \<Rightarrow> int \<Rightarrow> u32" where
  "root_fraction k p = word_of_int (root_bits k (p * 2 ^ (32 * k)) 40 0)"

definition sha_k :: "u32 list" where
  "sha_k = map (root_fraction 3) sha_primes"

definition sha_h0 :: "u32 list" where
  "sha_h0 = map (root_fraction 2) [2, 3, 5, 7, 11, 13, 17, 19]"

definition big_sigma0 :: "u32 \<Rightarrow> u32" where
  "big_sigma0 x = word_rotr 2 x XOR word_rotr 13 x XOR word_rotr 22 x"

definition big_sigma1 :: "u32 \<Rightarrow> u32" where
  "big_sigma1 x = word_rotr 6 x XOR word_rotr 11 x XOR word_rotr 25 x"

definition small_sigma0 :: "u32 \<Rightarrow> u32" where
  "small_sigma0 x = word_rotr 7 x XOR word_rotr 18 x XOR drop_bit 3 x"

definition small_sigma1 :: "u32 \<Rightarrow> u32" where
  "small_sigma1 x = word_rotr 17 x XOR word_rotr 19 x XOR drop_bit 10 x"

definition sha_ch :: "u32 \<Rightarrow> u32 \<Rightarrow> u32 \<Rightarrow> u32" where
  "sha_ch x y z = (x AND y) XOR (NOT x AND z)"

definition sha_maj :: "u32 \<Rightarrow> u32 \<Rightarrow> u32 \<Rightarrow> u32" where
  "sha_maj x y z = (x AND y) XOR (x AND z) XOR (y AND z)"

fun sha_extend :: "nat \<Rightarrow> u32 list \<Rightarrow> u32 list" where
  "sha_extend 0 ws = ws"
| "sha_extend (Suc n) ws =
     (let t = length ws in
      sha_extend n (ws @ [small_sigma1 (ws ! (t - 2)) + ws ! (t - 7)
                           + small_sigma0 (ws ! (t - 15)) + ws ! (t - 16)]))"

fun sha_round :: "u32 \<times> u32 \<Rightarrow> u32 list \<Rightarrow> u32 list" where
  "sha_round (k, w) [a, b, c, d, e, f, g, h] =
     (let t1 = h + big_sigma1 e + sha_ch e f g + k + w;
          t2 = big_sigma0 a + sha_maj a b c
      in [t1 + t2, a, b, c, d + t1, e, f, g])"
| "sha_round kw st = st"

definition sha_compress :: "u32 list \<Rightarrow> u32 list \<Rightarrow> u32 list" where
  "sha_compress hs block =
     map2 (+) hs (foldl (\<lambda>st kw. sha_round kw st) hs (zip sha_k (sha_extend 48 block)))"

fun words_be :: "bytes \<Rightarrow> u32 list" where
  "words_be (a # b # c # d # r) =
     (push_bit 24 (ucast a) OR push_bit 16 (ucast b) OR push_bit 8 (ucast c) OR ucast d) # words_be r"
| "words_be _ = []"

definition bytes_be :: "u32 \<Rightarrow> bytes" where
  "bytes_be w = [ucast (drop_bit 24 w), ucast (drop_bit 16 w), ucast (drop_bit 8 w), ucast w]"

definition sha_pad :: "bytes \<Rightarrow> bytes" where
  "sha_pad m =
     (let n = length m in
      m @ [0x80] @ replicate ((119 - n mod 64) mod 64) 0
        @ map (\<lambda>i. ucast (drop_bit (8 * i) (of_nat (8 * n) :: 64 word))) [7, 6, 5, 4, 3, 2, 1, 0])"

function sha_blocks :: "u32 list \<Rightarrow> u32 list \<Rightarrow> u32 list" where
  "sha_blocks hs ws = (if ws = [] then hs else sha_blocks (sha_compress hs (take 16 ws)) (drop 16 ws))"
  by pat_completeness auto
termination
  by (relation "measure (\<lambda>(hs, ws). length ws)") auto

declare sha_blocks.simps [simp del]

definition sha256 :: "bytes \<Rightarrow> bytes" where
  "sha256 m = concat (map bytes_be (sha_blocks sha_h0 (words_be (sha_pad m))))"

section \<open>HMAC\<close>

definition hmac_key :: "bytes \<Rightarrow> bytes" where
  "hmac_key k = (let k' = (if 64 < length k then sha256 k else k) in k' @ replicate (64 - length k') 0)"

definition hmac_sha256 :: "bytes \<Rightarrow> bytes \<Rightarrow> bytes" where
  "hmac_sha256 key m =
     (let k = hmac_key key in
      sha256 (map (\<lambda>b. b XOR 0x5c) k @ sha256 (map (\<lambda>b. b XOR 0x36) k @ m)))"

lemma length_sha_round [simp]: "length (sha_round kw st) = length st"
  by (induction kw st rule: sha_round.induct) (auto simp: Let_def)

lemma length_foldl_sha_round: "length (foldl (\<lambda>st kw. sha_round kw st) st kws) = length st"
  by (induction kws arbitrary: st) auto

lemma length_sha_compress [simp]: "length (sha_compress hs b) = length hs"
  by (simp add: sha_compress_def length_foldl_sha_round)

lemma length_sha_blocks [simp]: "length (sha_blocks hs ws) = length hs"
proof (induction hs ws rule: sha_blocks.induct)
  case (1 hs ws)
  then show ?case by (subst sha_blocks.simps) simp
qed

lemma length_concat_bytes_be: "length (concat (map bytes_be ws)) = 4 * length ws"
  by (induction ws) (auto simp: bytes_be_def)

lemma length_sha256 [simp]: "length (sha256 m) = 32"
  by (simp add: sha256_def length_concat_bytes_be) (simp add: sha_h0_def)

lemma length_hmac_sha256 [simp]: "length (hmac_sha256 k m) = 32"
  by (simp add: hmac_sha256_def Let_def)

lemma hmac_not_Nil [simp]: "hmac_sha256 k m \<noteq> []" "[] \<noteq> hmac_sha256 k m"
  using length_hmac_sha256 [of k m] by (metis list.size(3) zero_neq_numeral)+

section \<open>Comparing in constant time\<close>

text \<open>On \<open>bytes\<close> the comparison is equality; on \<open>str\<close> it raises for non-ASCII operands.\<close>

definition compare_digest :: "bytes \<Rightarrow> bytes \<Rightarrow> bool" where
  "compare_digest a b \<longleftrightarrow> a = b"

definition compare_digest_str :: "pystr \<Rightarrow> pystr \<Rightarrow> bool py" where
  "compare_digest_str a b = (if is_ascii a \<and> is_ascii b then Inr (a = b) else Inl TypeErr)"

section \<open>CRC-32\<close>

fun crc_bits :: "nat \<Rightarrow> u32 \<Rightarrow> u32" where
  "crc_bits 0 c = c"
| "crc_bits (Suc n) c =
     crc_bits n (if c AND 1 = 1 then drop_bit 1 c XOR 0xEDB88320 else drop_bit 1 c)"

definition crc32 :: "bytes \<Rightarrow> u32" where
  "crc32 bs = foldl (\<lambda>c b. crc_bits 8 (c XOR ucast b)) 0xFFFFFFFF bs XOR 0xFFFFFFFF"

section \<open>Base64\<close>

definition b64_val :: "char \<Rightarrow> nat option" where
  "b64_val c =
     (if in_range 65 90 c then Some (of_char c - 65)
      else if in_range 97 122 c then Some (of_char c - 71)
      else if in_range 48 57 c then Some (of_char c + 4)
      else if c = CHR ''+'' then Some 62
      else if c = CHR ''/'' then Some 63
      else None)"

definition b64_char :: "nat \<Rightarrow> char" where
  "b64_char n =
     (if n < 26 then char_of (n + 65) else if n < 52 then char_of (n + 71)
      else if n < 62 then char_of (n - 4) else if n = 62 then CHR ''+'' else CHR ''/'')"

text \<open>The loop of \<open>binascii.a2b_base64\<close>: the position in the quad, the bits carried over, whether
  padding has started and how many pads were counted. \<open>None\<close> is \<open>binascii.Error\<close>.\<close>

fun b64_go :: "nat \<Rightarrow> nat \<Rightarrow> bool \<Rightarrow> nat \<Rightarrow> pystr \<Rightarrow> bytes option" where
  "b64_go q l started pads [] = (if q = 0 then Some [] else None)"
| "b64_go q l started pads (c # s) =
     (if c = CHR ''='' then
        (if 2 \<le> q \<and> 4 \<le> q + (pads + 1) then (if s = [] then Some [] else None)
         else b64_go q l True (if 2 \<le> q then pads + 1 else pads) s)
      else case b64_val c of
        None \<Rightarrow> None
      | Some v \<Rightarrow>
          if started then None
          else if q = 0 then b64_go 1 v started 0 s
          else if q = 1 then map_option ((#) (of_nat (4 * l + v div 16))) (b64_go 2 (v mod 16) started 0 s)
          else if q = 2 then map_option ((#) (of_nat (16 * l + v div 4))) (b64_go 3 (v mod 4) started 0 s)
          else map_option ((#) (of_nat (64 * l + v))) (b64_go 0 0 started 0 s))"

definition b64decode_strict :: "pystr \<Rightarrow> bytes option" where
  "b64decode_strict s =
     (if \<not> is_ascii s \<or> startswith s ''='' then None else b64_go 0 0 False 0 s)"

text \<open>The standard encoder, which the senders use.\<close>

fun b64encode :: "bytes \<Rightarrow> pystr" where
  "b64encode [] = []"
| "b64encode [a] =
     [b64_char (unat a div 4), b64_char (16 * (unat a mod 4)), CHR ''='', CHR ''='']"
| "b64encode [a, b] =
     [b64_char (unat a div 4), b64_char (16 * (unat a mod 4) + unat b div 16),
      b64_char (4 * (unat b mod 16)), CHR ''='']"
| "b64encode (a # b # c # r) =
     [b64_char (unat a div 4), b64_char (16 * (unat a mod 4) + unat b div 16),
      b64_char (4 * (unat b mod 16) + unat c div 64), b64_char (unat c mod 64)] @ b64encode r"

lemma b64_val_char [simp]:
  assumes "n < 64"
  shows "b64_val (b64_char n) = Some n"
proof -
  consider "n < 26" | "26 \<le> n" "n < 52" | "52 \<le> n" "n < 62" | "n = 62" | "n = 63"
    using assms by linarith
  then show ?thesis
    by cases (auto simp add: b64_val_def b64_char_def in_range_def)
qed

lemma b64_val_pad: "b64_val (CHR ''='') = None"
  by (simp add: b64_val_def in_range_def)

lemma b64_char_not_pad [simp]: "n < 64 \<Longrightarrow> b64_char n \<noteq> CHR ''=''"
  using b64_val_char [of n] b64_val_pad by force

lemma b64_char_ascii: "n < 64 \<Longrightarrow> in_range 0 127 (b64_char n)"
  by (auto simp add: b64_char_def in_range_def)

lemma unat_byte_less [simp]: "unat (b :: byte) < 256"
proof -
  have "unat b < 2 ^ LENGTH(8)" by (rule unsigned_less)
  then show ?thesis by simp
qed

lemma b64_bounds [simp]:
  "unat (a :: byte) div 4 < 64" "16 * (unat a mod 4) < 64"
  "16 * (unat a mod 4) + unat (b :: byte) div 16 < 64" "4 * (unat b mod 16) < 64"
  "4 * (unat b mod 16) + unat (c :: byte) div 64 < 64" "unat c mod 64 < 64"
proof -
  have a: "unat a < 256" and b: "unat b < 256" and c: "unat c < 256" by simp_all
  show "unat a div 4 < 64" using a by linarith
  show "16 * (unat a mod 4) < 64" by linarith
  show "16 * (unat a mod 4) + unat b div 16 < 64" using b by linarith
  show "4 * (unat b mod 16) < 64" by linarith
  show "4 * (unat b mod 16) + unat c div 64 < 64" using c by linarith
  show "unat c mod 64 < 64" by simp
qed

lemma byte_parts: "of_nat (k * (unat b div k) + unat b mod k) = (b :: byte)"
  by (simp only: mult_div_mod_eq) simp

lemma byte_parts_dist [simp]:
  "4 * of_nat (unat b div 4) + of_nat (unat b mod 4) = (b :: byte)"
  "16 * of_nat (unat b div 16) + of_nat (unat b mod 16) = (b :: byte)"
  "64 * of_nat (unat b div 64) + of_nat (unat b mod 64) = (b :: byte)"
  using byte_parts [of 4 b] byte_parts [of 16 b] byte_parts [of 64 b]
  by (simp_all only: of_nat_add of_nat_mult of_nat_numeral)

lemma byte_quot_less [simp]: "unat (b :: byte) div 16 < 16" "unat (b :: byte) div 64 < 4"
  using unat_byte_less [of b] by linarith+

lemma byte_quot_mod [simp]:
  "unat (b :: byte) div 16 mod 16 = unat b div 16" "unat b div 64 mod 4 = unat b div 64"
  "unat b div 16 div 16 = 0" "unat b div 64 div 4 = 0"
  by (rule mod_less div_less, rule byte_quot_less)+

lemma b64_go_encode: "b64_go 0 0 False 0 (b64encode bs) = Some bs"
  by (induction bs rule: b64encode.induct) simp_all

lemma b64encode_ascii: "is_ascii (b64encode bs)"
  by (induction bs rule: b64encode.induct) (simp_all add: is_ascii_def b64_char_ascii, simp_all add: in_range_def)

lemma b64encode_no_lead: "\<not> startswith (b64encode bs) ''=''"
  by (induction bs rule: b64encode.induct) simp_all

lemma b64decode_encode [codec_simps]: "b64decode_strict (b64encode bs) = Some bs"
  by (simp add: b64decode_strict_def b64encode_ascii b64encode_no_lead b64_go_encode)

interpretation b64: codec b64encode b64decode_strict
  by unfold_locales (rule b64decode_encode)

end
