(* ===== verification/StrictHex.thy ===== *)
theory StrictHex
  imports StdCrypto
begin

text \<open>
  \<open>hookguard_core/stricthex.py\<close>: hexadecimal decoding that accepts an even-length run of hex
  digits and nothing else. \<open>py_fromhex\<close> is \<open>bytes.fromhex\<close>, which also skips ASCII white
  space between bytes; \<open>decode_hex\<close> puts the strict shape in front of it.
\<close>

section \<open>The standard library's codec\<close>

definition hex_val :: "char \<Rightarrow> nat option" where
  "hex_val c =
     (if in_range 48 57 c then Some (of_char c - 48)
      else if in_range 97 102 c then Some (of_char c - 87)
      else if in_range 65 70 c then Some (of_char c - 55)
      else None)"

definition is_c_space :: "char \<Rightarrow> bool" where
  "is_c_space c \<longleftrightarrow> in_range 9 13 c \<or> of_char c = (32::nat)"

fun py_fromhex :: "pystr \<Rightarrow> bytes option" where
  "py_fromhex [] = Some []"
| "py_fromhex [c] = (if is_c_space c then Some [] else None)"
| "py_fromhex (c # d # s) =
     (if is_c_space c then py_fromhex (d # s)
      else case (hex_val c, hex_val d) of
             (Some h, Some l) \<Rightarrow> map_option ((#) (of_nat (16 * h + l))) (py_fromhex s)
           | _ \<Rightarrow> None)"

definition hex_byte :: "byte \<Rightarrow> pystr" where
  "hex_byte b = [hex_digit (unat b div 16), hex_digit (unat b mod 16)]"

text \<open>\<open>bytes.hex()\<close>.\<close>

definition hex_encode :: "bytes \<Rightarrow> pystr" where
  "hex_encode bs = concat (map hex_byte bs)"

section \<open>The strict decoder\<close>

text \<open>The regular expression \<open>\A(?:[0-9a-fA-F]{2})*\Z\<close>.\<close>

fun is_hex_run :: "pystr \<Rightarrow> bool" where
  "is_hex_run [] \<longleftrightarrow> True"
| "is_hex_run [c] \<longleftrightarrow> False"
| "is_hex_run (c # d # s) \<longleftrightarrow> hex_val c \<noteq> None \<and> hex_val d \<noteq> None \<and> is_hex_run s"

definition decode_hex :: "pystr \<Rightarrow> bytes py" where
  "decode_hex value =
     (if \<not> is_hex_run value then Inl (ValueErr ''invalid hex encoding'')
      else case py_fromhex value of
             Some b \<Rightarrow> Inr b
           | None \<Rightarrow> Inl (ValueErr ''non-hexadecimal number found in fromhex() arg''))"

definition decode_hex_opt :: "pystr \<Rightarrow> bytes option" where
  "decode_hex_opt s = (case decode_hex s of Inl _ \<Rightarrow> None | Inr b \<Rightarrow> Some b)"

section \<open>Facts\<close>

lemma hex_val_not_space: "hex_val c = Some v \<Longrightarrow> \<not> is_c_space c"
  by (auto simp: hex_val_def is_c_space_def in_range_def split: if_splits)

lemma hex_val_less: "hex_val c = Some v \<Longrightarrow> v < 16"
  by (auto simp: hex_val_def in_range_def split: if_splits)

lemma hex_val_digit [simp]:
  assumes "n < 16"
  shows "hex_val (hex_digit n) = Some n"
  using assms by (cases "n < 10") (auto simp: hex_digit_def hex_val_def in_range_def)

lemma lower_char_hex_val:
  assumes "hex_val c = Some v"
  shows "lower_char c = hex_digit v"
proof -
  have c: "c = char_of (of_char c :: nat)" by simp
  consider "in_range 48 57 c" "v = of_char c - 48" | "in_range 97 102 c" "v = of_char c - 87"
    | "in_range 65 70 c" "v = of_char c - 55"
    using assms by (auto simp: hex_val_def split: if_splits)
  then show ?thesis
    by cases (auto simp: lower_char_def hex_digit_def in_range_def)
qed

lemma hex_val_None_lower:
  assumes "lower_char c = hex_digit v" "v < 16"
  shows "hex_val c = Some v"
proof (cases "in_range 65 90 c \<or> (in_range 192 222 c \<and> of_char c \<noteq> (215::nat))")
  case True
  then have low: "lower_char c = char_of (of_char c + (32::nat))" by (simp add: lower_char_def)
  have n: "(of_char c :: nat) + 32 < 256" using True by (auto simp: in_range_def)
  have "of_char (lower_char c) = (of_char c :: nat) + 32" using n by (simp add: low)
  moreover have "of_char (hex_digit v) = (if v < 10 then 48 + v else 87 + v)"
    using assms(2) by (simp add: hex_digit_def)
  ultimately have "of_char c + 32 = (if v < 10 then 48 + v else 87 + v)"
    using assms(1) by simp
  then show ?thesis using True assms(2) by (auto simp: hex_val_def in_range_def split: if_splits)
next
  case False
  then have "lower_char c = c" unfolding lower_char_def by (rule if_not_P)
  with assms show ?thesis by simp
qed

lemma is_hex_run_fromhex: "is_hex_run s \<Longrightarrow> \<exists>b. py_fromhex s = Some b"
  by (induction s rule: is_hex_run.induct) (auto dest: hex_val_not_space)

lemma py_fromhex_run:
  "is_hex_run s \<Longrightarrow> py_fromhex s = Some b \<Longrightarrow> py_lower s = hex_encode b"
proof (induction s arbitrary: b rule: is_hex_run.induct)
  case (3 c d s)
  then obtain h l bs where h: "hex_val c = Some h" and l: "hex_val d = Some l"
    and bs: "py_fromhex s = Some bs" and b: "b = of_nat (16 * h + l) # bs"
    using hex_val_not_space by (fastforce split: option.splits if_splits)
  have hl: "h < 16" "l < 16" using h l hex_val_less by auto
  then have "unat (of_nat (16 * h + l) :: byte) = 16 * h + l" by (intro unat_of_nat_byte) linarith
  then have "hex_byte (of_nat (16 * h + l)) = [hex_digit h, hex_digit l]"
    using hl by (simp add: hex_byte_def del: of_nat_add of_nat_mult)
  with 3 bs b h l show ?case
    by (simp add: hex_encode_def py_lower_def lower_char_hex_val del: of_nat_add of_nat_mult)
qed (simp_all add: hex_encode_def py_lower_def)

lemma lower_hex_decodes:
  "py_lower s = hex_encode b \<Longrightarrow> is_hex_run s \<and> py_fromhex s = Some b"
proof (induction b arbitrary: s)
  case Nil
  then show ?case by (simp add: hex_encode_def py_lower_def)
next
  case (Cons x b)
  then obtain c d t where s: "s = c # d # t"
    and c: "lower_char c = hex_digit (unat x div 16)" and d: "lower_char d = hex_digit (unat x mod 16)"
    and t: "py_lower t = hex_encode b"
    by (auto simp: hex_encode_def hex_byte_def py_lower_def map_eq_Cons_conv)
  have "hex_val c = Some (unat x div 16)" "hex_val d = Some (unat x mod 16)"
    using c d by (auto intro: hex_val_None_lower)
  with Cons.IH [OF t] s show ?case by (auto simp: byte_parts dest: hex_val_not_space)
qed

text \<open>The exact language of the decoder: what decodes to \<open>b\<close> is \<open>b.hex()\<close> up to case.\<close>

lemma decode_hex_iff [codec_simps]: "decode_hex s = Inr b \<longleftrightarrow> py_lower s = hex_encode b"
  using is_hex_run_fromhex [of s] py_fromhex_run [of s b] lower_hex_decodes [of s b]
  by (auto simp: decode_hex_def split: option.splits)

lemma decode_hex_error: "decode_hex s = Inl e \<Longrightarrow> e = ValueErr ''invalid hex encoding''"
  using is_hex_run_fromhex [of s] by (auto simp: decode_hex_def split: option.splits if_splits)

lemma lower_char_hex_digit [simp]: "n < 16 \<Longrightarrow> lower_char (hex_digit n) = hex_digit n"
  by (rule lower_char_hex_val) simp

lemma py_lower_hex_encode [simp]: "py_lower (hex_encode b) = hex_encode b"
  by (induction b) (simp_all add: hex_encode_def hex_byte_def py_lower_def)

lemma length_hex_encode [simp]: "length (hex_encode b) = 2 * length b"
  by (induction b) (simp_all add: hex_encode_def hex_byte_def)

lemma decode_hex_encode [codec_simps]: "decode_hex (hex_encode b) = Inr b"
  by (simp add: decode_hex_iff)

lemma decode_hex_opt_Some: "decode_hex_opt s = Some b \<longleftrightarrow> decode_hex s = Inr b"
  by (simp add: decode_hex_opt_def split: sum.splits)

interpretation hex: codec hex_encode decode_hex_opt
  by unfold_locales (simp add: decode_hex_opt_def decode_hex_encode)

end
