(* ===== verification/ProviderHmac.thy ===== *)
theory ProviderHmac
  imports GatewayRoute StrictHex
begin

text \<open>
  The two providers whose signature is one HMAC of the raw body: \<open>providers/github.py\<close>
  (\<open>sha256=<hex>\<close>) and \<open>providers/shopify.py\<close> (base64). \<open>verify\<close> returns nothing or raises.
\<close>

section \<open>GitHub\<close>

definition GITHUB_HEADER :: pystr where
  "GITHUB_HEADER = ''X-Hub-Signature-256''"

definition GITHUB_PREFIX :: pystr where
  "GITHUB_PREFIX = ''sha256=''"

definition github_verify :: "bytes \<Rightarrow> bytes \<Rightarrow> headers \<Rightarrow> unit py" where
  "github_verify secret raw_body headers =
     (case headers GITHUB_HEADER of
        None \<Rightarrow> Inl (VerificationErr (''missing '' @ GITHUB_HEADER @ '' header''))
      | Some header \<Rightarrow>
          if header = [] then Inl (VerificationErr (''missing '' @ GITHUB_HEADER @ '' header''))
          else if \<not> startswith header GITHUB_PREFIX
          then Inl (VerificationErr (''malformed '' @ GITHUB_HEADER @ '' header''))
          else case decode_hex (drop (length GITHUB_PREFIX) header) of
                 Inl e \<Rightarrow>
                   if is_value_error e then Inl (VerificationErr ''invalid signature encoding'') else Inl e
               | Inr got \<Rightarrow>
                   if \<not> compare_digest got (hmac_sha256 secret raw_body)
                   then Inl (VerificationErr ''signature mismatch'') else Inr ())"

section \<open>Shopify\<close>

definition SHOPIFY_HEADER :: pystr where
  "SHOPIFY_HEADER = ''X-Shopify-Hmac-SHA256''"

definition shopify_verify :: "bytes \<Rightarrow> bytes \<Rightarrow> headers \<Rightarrow> unit py" where
  "shopify_verify secret raw_body headers =
     (case headers SHOPIFY_HEADER of
        None \<Rightarrow> Inl (VerificationErr (''missing '' @ SHOPIFY_HEADER @ '' header''))
      | Some header \<Rightarrow>
          if header = [] then Inl (VerificationErr (''missing '' @ SHOPIFY_HEADER @ '' header''))
          else case b64decode_strict header of
                 None \<Rightarrow> Inl (VerificationErr ''invalid signature encoding'')
               | Some got \<Rightarrow>
                   if \<not> compare_digest got (hmac_sha256 secret raw_body)
                   then Inl (VerificationErr ''signature mismatch'') else Inr ())"

section \<open>What they accept\<close>

definition github_header_of :: "bytes \<Rightarrow> pystr" where
  "github_header_of b = GITHUB_PREFIX @ hex_encode b"

definition github_tag_of :: "pystr \<Rightarrow> bytes option" where
  "github_tag_of h =
     (if startswith h GITHUB_PREFIX then decode_hex_opt (drop (length GITHUB_PREFIX) h) else None)"

interpretation github_header: codec github_header_of github_tag_of
  by unfold_locales
     (simp add: github_header_of_def github_tag_of_def decode_hex_opt_Some decode_hex_encode)

lemma github_returns: "returns (github_verify secret body headers) \<longleftrightarrow>
    (\<exists>h. headers GITHUB_HEADER = Some h \<and> github_tag_of h = Some (hmac_sha256 secret body))"
proof (cases "headers GITHUB_HEADER")
  case (Some h)
  have "\<not> startswith [] GITHUB_PREFIX" by (simp add: GITHUB_PREFIX_def)
  with Some show ?thesis
    using decode_hex_error [of "drop (length GITHUB_PREFIX) h"]
    by (cases "decode_hex (drop (length GITHUB_PREFIX) h)")
       (auto simp: github_verify_def github_tag_of_def decode_hex_opt_def compare_digest_def)
qed (simp add: github_verify_def)

lemma shopify_returns: "returns (shopify_verify secret body headers) \<longleftrightarrow>
    (\<exists>h. headers SHOPIFY_HEADER = Some h \<and> b64decode_strict h = Some (hmac_sha256 secret body))"
proof (cases "headers SHOPIFY_HEADER")
  case (Some h)
  have "b64decode_strict [] = Some []" by (simp add: b64decode_strict_def is_ascii_def)
  with Some show ?thesis
    by (cases "b64decode_strict h") (auto simp: shopify_verify_def compare_digest_def)
qed (simp add: shopify_verify_def)

interpretation github: tag_scheme github_header_of github_tag_of "\<lambda>(secret, body). hmac_sha256 secret body"
    "\<lambda>(secret, body) h. returns (github_verify secret body (one_header GITHUB_HEADER h))"
  by unfold_locales (auto simp: github_returns one_header_def)

interpretation shopify: tag_scheme b64encode b64decode_strict "\<lambda>(secret, body). hmac_sha256 secret body"
    "\<lambda>(secret, body) h. returns (shopify_verify secret body (one_header SHOPIFY_HEADER h))"
  by unfold_locales (auto simp: shopify_returns one_header_def)

lemma github_errors: "github_verify secret body headers = Inl e \<Longrightarrow> \<exists>m. e = VerificationErr m"
  by (auto simp: github_verify_def split: option.splits sum.splits if_splits dest!: decode_hex_error)

lemma shopify_errors: "shopify_verify secret body headers = Inl e \<Longrightarrow> \<exists>m. e = VerificationErr m"
  by (auto simp: shopify_verify_def split: option.splits if_splits)

text \<open>C39: GitHub's verifier accepts exactly the requests whose header is \<open>sha256=\<close> followed by the
  hexadecimal digits, in either case, of the HMAC of the raw body.\<close>

theorem github_verify_exact:
  "github_verify secret body headers = Inr () \<longleftrightarrow>
     (\<exists>s. headers GITHUB_HEADER = Some (GITHUB_PREFIX @ s) \<and> py_lower s = hex_encode (hmac_sha256 secret body))"
  unfolding sum_unit_cases github_returns
  by (auto simp: github_tag_of_def decode_hex_opt_Some decode_hex_iff startswith_iff split: if_splits)

text \<open>Shopify's verifier raises nothing but \<open>VerificationError\<close>, and accepts the header a sender
  with the shared secret computes for a body; a header computed for another body or another secret is
  accepted only if the two HMACs collide.\<close>

theorem shopify_verify_sender:
  "returns (shopify_verify secret body (one_header SHOPIFY_HEADER (b64encode (hmac_sha256 secret' body'))))
     \<longleftrightarrow> hmac_sha256 secret body = hmac_sha256 secret' body'"
  using shopify.other_tag_accepted [of "(secret, body)" "(secret', body')"] by simp

end
