(* ===== verification/FloatTime.thy ===== *)
theory FloatTime
  imports Prelude Complex_Main
begin

text \<open>
  The float arithmetic the code does on times. A \<open>float\<close> is the rational number it denotes, and
  every operation rounds its exact result to 53 significant bits, ties to even. \<open>datetime.timestamp\<close>
  and \<open>timedelta.total_seconds\<close> divide a whole number of microseconds by \<open>10 ** 6\<close> with one
  rounding; \<open>float - int\<close> converts the \<open>int\<close> first, which raises above the largest double.
  Magnitudes stay far from the subnormal range, so the exponent is not bounded below.
\<close>

function blen :: "int \<Rightarrow> int" where
  "blen n = (if n \<le> 0 then 0 else 1 + blen (n div 2))"
  by auto
termination by (relation "measure nat") auto

declare blen.simps [simp del]

text \<open>The exponent: \<open>2 ^ bexp x \<le> |x| < 2 ^ (bexp x + 1)\<close>.\<close>

definition bexp :: "rat \<Rightarrow> int" where
  "bexp x = (case quotient_of \<bar>x\<bar> of (p, q) \<Rightarrow>
     let e = blen p - blen q in if 2 powi e \<le> \<bar>x\<bar> then e else e - 1)"

definition round_even :: "rat \<Rightarrow> int" where
  "round_even x =
     (let f = \<lfloor>x\<rfloor>; d = x - of_int f in
      if d < 1 / 2 then f else if 1 / 2 < d then f + 1 else if even f then f else f + 1)"

definition rnd :: "rat \<Rightarrow> rat" where
  "rnd x =
     (if x = 0 then 0
      else let u = 2 powi (bexp x - 52) in of_int (round_even (x / u)) * u)"

text \<open>\<open>datetime.timestamp()\<close> and \<open>timedelta.total_seconds()\<close> of a number of microseconds.\<close>

definition seconds :: "usec \<Rightarrow> rat" where
  "seconds us = rnd (of_int us / 1000000)"

definition float_of_int :: "int \<Rightarrow> rat py" where
  "float_of_int n = (let x = rnd (of_int n) in if 2 ^ 1024 \<le> \<bar>x\<bar> then Inl OverflowErr else Inr x)"

text \<open>\<open>int(x)\<close> of a float truncates towards zero.\<close>

definition int_of_float :: "rat \<Rightarrow> int" where
  "int_of_float x = (if x < 0 then - \<lfloor>- x\<rfloor> else \<lfloor>x\<rfloor>)"

text \<open>\<open>int(t.timestamp() * 1000)\<close>, the form in which every timestamp and latency is stored.\<close>

definition millis :: "usec \<Rightarrow> int" where
  "millis us = int_of_float (rnd (seconds us * 1000))"

section \<open>Rounding\<close>

lemma blen_bounds:
  assumes "0 < n"
  shows "0 < blen n \<and> 2 ^ nat (blen n - 1) \<le> n \<and> n < 2 ^ nat (blen n)"
  using assms
proof (induction n rule: blen.induct)
  case (1 n)
  show ?case
  proof (cases "n = 1")
    case True
    then show ?thesis by (simp add: blen.simps)
  next
    case False
    with 1 have h: "0 < blen (n div 2)" "2 ^ nat (blen (n div 2) - 1) \<le> n div 2"
      "n div 2 < 2 ^ nat (blen (n div 2))" by auto
    obtain k where k: "blen (n div 2) = int k + 1"
      using h(1) by (metis add.commute zero_less_imp_eq_int of_nat_Suc Suc_pred)
    have b: "blen n = int k + 2" using 1 False k by (subst blen.simps) simp
    have "2 ^ k \<le> n div 2" "n div 2 < 2 ^ Suc k" using h k by (simp_all add: nat_add_distrib)
    then have "2 ^ Suc k \<le> n" "n < 2 ^ Suc (Suc k)" by auto
    moreover have "nat (int k + 2) = Suc (Suc k)" "nat (int k + 2 - 1) = Suc k" by auto
    ultimately show ?thesis using b by simp
  qed
qed

lemma blen_rat:
  assumes "0 < n"
  shows "(2 :: rat) powi (blen n - 1) \<le> of_int n \<and> (of_int n :: rat) < 2 powi blen n"
proof -
  have b: "0 < blen n" "2 ^ nat (blen n - 1) \<le> n" "n < 2 ^ nat (blen n)" using blen_bounds [OF assms] by auto
  have "(of_int (2 ^ nat (blen n - 1)) :: rat) \<le> of_int n" "(of_int n :: rat) < of_int (2 ^ nat (blen n))"
    unfolding of_int_le_iff of_int_less_iff using b by auto
  with b(1) show ?thesis by (simp add: power_int_def)
qed

lemma bexp_bounds:
  assumes "x \<noteq> 0"
  shows "2 powi bexp x \<le> \<bar>x\<bar> \<and> \<bar>x\<bar> < 2 powi (bexp x + 1)"
proof -
  obtain p q where pq: "quotient_of \<bar>x\<bar> = (p, q)" by (cases "quotient_of \<bar>x\<bar>")
  then have q: "0 < q" and x: "\<bar>x\<bar> = of_int p / of_int q"
    by (auto intro: quotient_of_denom_pos quotient_of_div)
  have "0 < \<bar>x\<bar>" using assms by simp
  then have p: "0 < p" unfolding x using q by (simp add: zero_less_divide_iff)
  let ?e = "blen p - blen q"
  have pb: "2 powi (blen p - 1) \<le> (of_int p :: rat)" "(of_int p :: rat) < 2 powi blen p"
    and qb: "2 powi (blen q - 1) \<le> (of_int q :: rat)" "(of_int q :: rat) < 2 powi blen q"
    using blen_rat p q by auto
  have "2 powi (?e - 1) = (2 powi (blen p - 1) :: rat) / 2 powi blen q"
    by (simp add: power_int_diff [symmetric] algebra_simps)
  also have "\<dots> \<le> \<bar>x\<bar>" unfolding x using pb qb q p by (intro frac_le) auto
  finally have lo: "2 powi (?e - 1) \<le> \<bar>x\<bar>" .
  have "\<bar>x\<bar> < (2 powi blen p :: rat) / 2 powi (blen q - 1)"
    unfolding x using pb qb q p by (intro frac_less) auto
  also have "\<dots> = 2 powi (?e + 1)" by (simp add: power_int_diff [symmetric] algebra_simps)
  finally have hi: "\<bar>x\<bar> < 2 powi (?e + 1)" .
  show ?thesis using lo hi by (auto simp: bexp_def pq Let_def)
qed

lemma bexp_less:
  assumes "x \<noteq> 0" "\<bar>x\<bar> < 2 powi k"
  shows "bexp x < k"
proof -
  have "(2 :: rat) powi bexp x < 2 powi k" using bexp_bounds [OF assms(1)] assms(2) by linarith
  then show ?thesis using power_int_increasing [of k "bexp x" "2 :: rat"] by (meson not_less one_le_numeral leD)
qed

lemma bexp_eqI:
  assumes "2 powi k \<le> \<bar>x\<bar>" "\<bar>x\<bar> < 2 powi (k + 1)"
  shows "bexp x = k"
proof -
  have "(0 :: rat) < 2 powi k" by simp
  with assms(1) have "0 < \<bar>x\<bar>" by linarith
  then have x: "x \<noteq> 0" by simp
  have "\<not> bexp x + 1 \<le> k"
    using bexp_bounds [OF x] assms(1) power_int_increasing [of "bexp x + 1" k "2 :: rat"] by fastforce
  with bexp_less [OF x assms(2)] show ?thesis by simp
qed

lemma round_even_err: "\<bar>of_int (round_even x) - x\<bar> \<le> 1 / 2"
proof -
  have "of_int \<lfloor>x\<rfloor> \<le> x" "x < of_int \<lfloor>x\<rfloor> + 1" by linarith+
  then show ?thesis unfolding round_even_def Let_def abs_if by (simp split: if_splits) linarith
qed

lemma round_even_int [simp]: "round_even (of_int n) = n"
  by (simp add: round_even_def)

lemma round_even_near: "\<bar>x - of_int n\<bar> < 1 / 2 \<Longrightarrow> round_even x = n"
  using round_even_err [of x] by linarith

lemma round_even_mono_int: "of_int n - 1 / 2 < x \<Longrightarrow> n \<le> round_even x"
  using round_even_err [of x] by linarith

text \<open>The error is at most half a unit in the last place.\<close>

lemma rnd_err:
  assumes "\<bar>x\<bar> < 2 powi k"
  shows "\<bar>rnd x - x\<bar> \<le> 2 powi (k - 54)"
proof (cases "x = 0")
  case False
  define u where "u = (2 powi (bexp x - 52) :: rat)"
  have u: "0 < u" by (simp add: u_def)
  have "rnd x - x = (of_int (round_even (x / u)) - x / u) * u"
    using False u by (simp add: rnd_def Let_def u_def [symmetric] left_diff_distrib)
  then have "\<bar>rnd x - x\<bar> = \<bar>of_int (round_even (x / u)) - x / u\<bar> * u"
    using u by (simp add: abs_mult)
  also have "\<dots> \<le> 1 / 2 * u" using round_even_err [of "x / u"] u by (intro mult_right_mono) auto
  also have "1 / 2 * u = 2 powi (bexp x - 53)"
    unfolding u_def using power_int_add [of "2 :: rat" "bexp x - 53" 1] by (simp add: algebra_simps)
  also have "\<dots> \<le> 2 powi (k - 54)"
    using bexp_less [OF False assms] by (intro power_int_increasing) auto
  finally show ?thesis .
qed (simp add: rnd_def)

text \<open>A multiple of a small enough unit is exact.\<close>

lemma rnd_exact:
  assumes "\<bar>x\<bar> < 2 powi k" "x = of_int m * 2 powi (k - 53)"
  shows "rnd x = x"
proof (cases "x = 0")
  case False
  define u where "u = (2 powi (bexp x - 52) :: rat)"
  have u: "0 < u" by (simp add: u_def)
  have le: "bexp x - 52 \<le> k - 53" using bexp_less [OF False assms(1)] by simp
  have "(2 :: rat) powi (k - 53) = 2 powi (k - 53 - (bexp x - 52)) * u"
    unfolding u_def using power_int_add [of "2 :: rat" "k - 53 - (bexp x - 52)" "bexp x - 52"] by simp
  also have "2 powi (k - 53 - (bexp x - 52)) = (of_int (2 ^ nat (k - 53 - (bexp x - 52))) :: rat)"
    using le by (simp add: power_int_def)
  finally obtain j where "2 powi (k - 53) = of_int j * u" by blast
  then have "x = of_int (m * j) * u" using assms(2) by simp
  then have x: "x = of_int (m * j) * u" "x / u = of_int (m * j)" using u by auto
  have "rnd x = of_int (round_even (x / u)) * u" using False by (simp add: rnd_def Let_def u_def)
  also have "\<dots> = x" unfolding x(2) round_even_int using x(1) by simp
  finally show ?thesis .
qed (simp add: rnd_def)

lemma rnd_of_int: "\<bar>n\<bar> < 2 ^ 53 \<Longrightarrow> rnd (of_int n) = of_int n"
  by (rule rnd_exact [of _ 53 n]) (auto simp: power_int_def of_int_less_iff [symmetric, where 'a = rat]
      simp del: of_int_less_iff)

lemma float_of_int_small: "\<bar>n\<bar> < 2 ^ 53 \<Longrightarrow> float_of_int n = Inr (of_int n)"
proof -
  assume n: "\<bar>n\<bar> < 2 ^ 53"
  then have "(of_int \<bar>n\<bar> :: rat) < 2 ^ 53"
    by (metis of_int_less_iff of_int_numeral of_int_power)
  also have "(2 :: rat) ^ 53 < 2 ^ 1024" by (rule power_strict_increasing) auto
  finally show ?thesis using rnd_of_int [OF n] by (simp add: float_of_int_def)
qed

text \<open>Rounding does not cross a power of two.\<close>

lemma rnd_ge_power:
  assumes "2 powi k \<le> \<bar>x\<bar>"
  shows "2 powi k \<le> \<bar>rnd x\<bar>"
proof -
  have "(0 :: rat) < 2 powi k" by simp
  with assms have "0 < \<bar>x\<bar>" by linarith
  then have x: "x \<noteq> 0" by simp
  define u where "u = (2 powi (bexp x - 52) :: rat)"
  have u: "0 < u" by (simp add: u_def)
  have two: "2 powi bexp x = of_int (2 ^ 52) * u"
    unfolding u_def using power_int_add [of "2 :: rat" "52" "bexp x - 52"] by simp
  have "of_int (2 ^ 52) \<le> \<bar>x / u\<bar>"
    using bexp_bounds [OF x] u unfolding two by (simp add: abs_divide pos_le_divide_eq)
  then have "of_int (2 ^ 52) \<le> x / u \<or> x / u \<le> of_int (- (2 ^ 52))" by linarith
  then have "2 ^ 52 \<le> round_even (x / u) \<or> round_even (x / u) \<le> - (2 ^ 52)"
    using round_even_err [of "x / u"] by linarith
  then have "2 ^ 52 \<le> \<bar>round_even (x / u)\<bar>" by linarith
  then have "of_int (2 ^ 52) \<le> \<bar>of_int (round_even (x / u)) :: rat\<bar>"
    unfolding of_int_abs [symmetric] of_int_le_iff .
  then have "of_int (2 ^ 52) * u \<le> \<bar>of_int (round_even (x / u)) * u\<bar>"
    using u by (simp add: abs_mult)
  then have "2 powi bexp x \<le> \<bar>rnd x\<bar>" using x by (simp add: two rnd_def Let_def u_def [symmetric])
  moreover have "k \<le> bexp x"
    using bexp_bounds [OF x] assms power_int_increasing [of "bexp x + 1" k "2 :: rat"] by fastforce
  ultimately show ?thesis using power_int_increasing [of k "bexp x" "2 :: rat"] by simp
qed

section \<open>Times\<close>

text \<open>The seconds of a time before the year 2106 are off by at most \<open>2 ^ -22\<close>.\<close>

lemma seconds_err:
  assumes "\<bar>us\<bar> < 4294967296 * 1000000"
  shows "\<bar>seconds us - of_int us / 1000000\<bar> \<le> 1 / 4194304"
proof -
  have "\<bar>of_int us / 1000000 :: rat\<bar> < 2 powi 32"
    using assms by (simp add: abs_less_iff power_int_def)
  from rnd_err [OF this] show ?thesis by (simp add: seconds_def power_int_def power_divide)
qed

lemma seconds_whole: "\<bar>n\<bar> < 2 ^ 53 \<Longrightarrow> seconds (n * 1000000) = of_int n"
  using rnd_of_int [of n] by (simp add: seconds_def)

text \<open>From the end of 2004 to the start of 2038 the stored milliseconds are the exact floor.\<close>

lemma millis_exact:
  assumes "1099511628 * 1000000 \<le> us" "us < 2 ^ 31 * 1000000"
  shows "millis us = us div 1000"
proof -
  define x where "x = (of_int us / 1000000 :: rat)"
  define n where "n = us div 1000"
  have n: "1000 * n \<le> us" "us \<le> 1000 * n + 999" unfolding n_def by linarith+
  have x: "0 \<le> x" "x < 2 powi 31" using assms by (auto simp: x_def power_int_def field_simps)
  have xn: "of_int n \<le> x * 1000" "x * 1000 \<le> of_int n + 999 / 1000"
    using n by (auto simp: x_def field_simps)
  have "1099511628000 \<le> n" "n < 2 ^ 31 * 1000" using n assms by auto
  then have nr: "(1099511628000 :: rat) \<le> of_int n" "(of_int n :: rat) < 2 ^ 31 * 1000"
    by (metis of_int_le_iff of_int_numeral, metis of_int_less_iff of_int_mult of_int_numeral of_int_power)
  define y where "y = seconds us * 1000"
  have se: "\<bar>seconds us - x\<bar> \<le> 1 / 8388608"
    using rnd_err [of x 31] x by (simp add: seconds_def x_def power_int_def power_divide)
  then have "- (1 / 8388608) \<le> seconds us - x" "seconds us - x \<le> 1 / 8388608"
    unfolding abs_le_iff by linarith+
  then have y: "of_int n - 1000 / 8388608 \<le> y" "y < of_int n + 999 / 1000 + 1001 / 8388608"
    using xn unfolding y_def by linarith+
  have y0: "y \<noteq> 0" "\<bar>y\<bar> < 2 powi 41" "2 powi 40 \<le> \<bar>y\<bar>" using y nr by (auto simp: power_int_def)
  then have "bexp y = 40" by (intro bexp_eqI) auto
  then have r: "rnd y = of_int (round_even (y * 4096)) / 4096"
    using y0 by (simp add: rnd_def power_int_def field_simps)
  have "n * 4096 \<le> round_even (y * 4096)" using y by (intro round_even_mono_int) simp
  moreover have "of_int (round_even (y * 4096)) < of_int (n + 1) * (4096 :: rat)"
  proof -
    have "of_int (round_even (y * 4096)) - y * 4096 \<le> 1 / 2"
      using round_even_err [of "y * 4096"] by linarith
    with y show ?thesis by simp
  qed
  ultimately have "of_int n \<le> rnd y" "rnd y < of_int n + 1"
    by (auto simp: r field_simps of_int_le_iff [symmetric, where 'a = rat] simp del: of_int_le_iff)
  then have "\<lfloor>rnd y\<rfloor> = n" "\<not> rnd y < 0" using nr by linarith+
  then show ?thesis by (simp add: millis_def int_of_float_def y_def [symmetric] n_def)
qed

text \<open>\<open>abs(now.timestamp() - ts)\<close>.\<close>

definition float_age :: "usec \<Rightarrow> int \<Rightarrow> rat py" where
  "float_age now ts = py_bind (float_of_int ts) (\<lambda>t. Inr \<bar>rnd (seconds now - t)\<bar>)"

lemma float_age_err:
  assumes now: "0 \<le> now" "now < 2 ^ 31 * 1000000" and ts: "\<bar>ts\<bar> < 2 ^ 32"
  shows "\<exists>d. float_age now ts = Inr d \<and> \<bar>d - of_int \<bar>now - ts * 1000000\<bar> / 1000000\<bar> \<le> 5 / 8388608"
proof -
  define x where "x = (of_int now / 1000000 :: rat)"
  have x: "0 \<le> x" "x < 2147483648" using now by (auto simp: x_def field_simps)
  have "\<bar>seconds now - x\<bar> \<le> 1 / 8388608"
    using rnd_err [of x 31] x by (simp add: seconds_def x_def power_int_def power_divide)
  then have s: "- (1 / 8388608) \<le> seconds now - x" "seconds now - x \<le> 1 / 8388608"
    unfolding abs_le_iff by linarith+
  have t: "- 4294967296 < (of_int ts :: rat)" "(of_int ts :: rat) < 4294967296" using ts by auto
  then have "\<bar>seconds now - of_int ts\<bar> < 2 powi 33" using s x by (simp add: power_int_def abs_less_iff)
  from rnd_err [OF this]
  have r: "\<bar>rnd (seconds now - of_int ts) - (seconds now - of_int ts)\<bar> \<le> 4 / 8388608"
    by (simp add: power_int_def power_divide)
  have e: "of_int \<bar>now - ts * 1000000\<bar> / 1000000 = \<bar>x - of_int ts\<bar>"
  proof -
    have "x - of_int ts = of_int (now - ts * 1000000) / 1000000" by (simp add: x_def diff_divide_distrib)
    then show ?thesis by (simp only: abs_divide of_int_abs)
  qed
  have "\<bar>\<bar>rnd (seconds now - of_int ts)\<bar> - \<bar>x - of_int ts\<bar>\<bar> \<le> 5 / 8388608"
    using r s unfolding abs_le_iff by linarith
  with e ts show ?thesis by (simp add: float_age_def float_of_int_small)
qed

lemma float_age_far:
  assumes now: "0 \<le> now" "now < 2 ^ 31 * 1000000" and ts: "2 ^ 32 \<le> \<bar>ts\<bar>" and d: "float_age now ts = Inr d"
  shows "2 ^ 31 \<le> d"
proof -
  have d: "d = \<bar>rnd (seconds now - rnd (of_int ts))\<bar>"
    using d by (auto simp: float_age_def float_of_int_def Let_def split: if_splits)
  have "(of_int (2 ^ 32) :: rat) \<le> of_int \<bar>ts\<bar>" using ts by (simp only: of_int_le_iff)
  then have "(2 :: rat) powi 32 \<le> \<bar>of_int ts\<bar>" by (simp add: power_int_def)
  then have t: "2 ^ 32 \<le> \<bar>rnd (of_int ts)\<bar>" using rnd_ge_power by (fastforce simp: power_int_def)
  define x where "x = (of_int now / 1000000 :: rat)"
  have x: "0 \<le> x" "x \<le> 2147483648 - 1 / 1000000" using now by (auto simp: x_def field_simps)
  have "\<bar>seconds now - x\<bar> \<le> 1 / 8388608"
    using rnd_err [of x 31] x by (simp add: seconds_def x_def power_int_def power_divide)
  then have "- (1 / 8388608) \<le> seconds now - x" "seconds now - x \<le> 1 / 8388608"
    unfolding abs_le_iff by linarith+
  then have "2 ^ 31 \<le> \<bar>seconds now - rnd (of_int ts)\<bar>" using x t by (simp add: abs_le_iff)
  then show ?thesis using rnd_ge_power [of 31 "seconds now - rnd (of_int ts)"] d by (simp add: power_int_def)
qed

text \<open>Against a window of up to \<open>2 ^ 30\<close> seconds the float comparison decides as the exact one does,
  except within a microsecond of the boundary.\<close>

lemma float_window:
  assumes now: "0 \<le> now" "now < 2 ^ 31 * 1000000" and w: "0 \<le> w" "w \<le> 2 ^ 30 * 1000000"
    and d: "float_age now ts = Inr d"
  shows "w < \<bar>now - ts * 1000000\<bar> \<Longrightarrow> seconds w < d"
    and "\<bar>now - ts * 1000000\<bar> < w \<Longrightarrow> d < seconds w"
proof -
  have sw: "- (1 / 8388608) \<le> seconds w - of_int w / 1000000" "seconds w - of_int w / 1000000 \<le> 1 / 8388608"
  proof -
    have "\<bar>of_int w / 1000000 :: rat\<bar> < 2 powi 31" using w by (simp add: power_int_def)
    from rnd_err [OF this] have "\<bar>seconds w - of_int w / 1000000\<bar> \<le> 1 / 8388608"
      by (simp add: seconds_def power_int_def power_divide)
    then show "- (1 / 8388608) \<le> seconds w - of_int w / 1000000" "seconds w - of_int w / 1000000 \<le> 1 / 8388608"
      unfolding abs_le_iff by linarith+
  qed
  have w1: "(of_int w :: rat) / 1000000 \<le> 2 ^ 30" using w by simp
  define g where "g = \<bar>now - ts * 1000000\<bar>"
  have close: "\<bar>ts\<bar> < 2 ^ 32 \<Longrightarrow> - (5 / 8388608) \<le> d - of_int g / 1000000 \<and> d - of_int g / 1000000 \<le> 5 / 8388608"
    using float_age_err [OF now, of ts] d unfolding g_def abs_le_iff by auto
  show "w < \<bar>now - ts * 1000000\<bar> \<Longrightarrow> seconds w < d"
  proof (cases "\<bar>ts\<bar> < 2 ^ 32")
    case True
    assume "w < \<bar>now - ts * 1000000\<bar>"
    then have "(of_int (w + 1) :: rat) \<le> of_int g" unfolding g_def of_int_le_iff by simp
    then show ?thesis using close [OF True] sw by simp
  next
    case False
    then show ?thesis using float_age_far [OF now _ d] sw w1 by simp
  qed
  show "d < seconds w" if "\<bar>now - ts * 1000000\<bar> < w"
  proof -
    have ts: "\<bar>ts\<bar> < 2 ^ 32" using that now w by (auto simp: abs_less_iff)
    have "(of_int (g + 1) :: rat) \<le> of_int w" using that unfolding g_def of_int_le_iff by simp
    then show ?thesis using close [OF ts] sw by simp
  qed
qed

text \<open>With a window of whole seconds it decides exactly.\<close>

lemma float_window_whole:
  assumes now: "0 \<le> now" "now < 2 ^ 31 * 1000000" and k: "0 \<le> k" "k \<le> 2 ^ 30"
    and d: "float_age now ts = Inr d"
  shows "seconds (k * 1000000) < d \<longleftrightarrow> k * 1000000 < \<bar>now - ts * 1000000\<bar>"
proof -
  have "\<not> seconds (k * 1000000) < d" if e: "\<bar>now - ts * 1000000\<bar> = k * 1000000"
  proof -
    obtain n where n: "now = n * 1000000" "\<bar>n - ts\<bar> = k"
    proof (cases "0 \<le> now - ts * 1000000")
      case True
      with e have "now = (ts + k) * 1000000" by (simp add: algebra_simps)
      then show ?thesis using k by (intro that [of "ts + k"]) auto
    next
      case False
      with e have "now = (ts - k) * 1000000" by (simp add: algebra_simps)
      then show ?thesis using k by (intro that [of "ts - k"]) auto
    qed
    have b: "\<bar>n\<bar> < 2 ^ 53" "\<bar>ts\<bar> < 2 ^ 53" "\<bar>n - ts\<bar> < 2 ^ 53" "\<bar>k\<bar> < 2 ^ 53"
      using n k now by (auto simp: abs_if split: if_splits)
    have "d = \<bar>rnd (of_int (n - ts))\<bar>"
      using d b by (simp add: n(1) float_age_def float_of_int_small seconds_whole)
    also have "\<dots> = of_int k" using rnd_of_int [OF b(3)] n(2) by (metis of_int_abs)
    finally show ?thesis using seconds_whole [OF b(4)] by simp
  qed
  then show ?thesis
    using float_window [OF now _ _ d, of "k * 1000000"] k
    by (metis linorder_neqE_linordered_idom mult_nonneg_nonneg mult_right_mono not_less_iff_gr_or_eq zero_le_numeral)
qed

section \<open>From milliseconds back\<close>

text \<open>\<open>datetime.fromtimestamp(ms / 1000, tz=UTC)\<close>: the whole part of the quotient, and its fraction
  scaled to microseconds and rounded half to even.\<close>

definition from_millis :: "int \<Rightarrow> usec" where
  "from_millis ms =
     (let x = rnd (of_int ms / 1000); i = int_of_float x in
      i * 1000000 + round_even (rnd ((x - of_int i) * 1000000)))"

lemma from_millis_exact:
  assumes "0 \<le> ms" "ms < 2 ^ 31 * 1000"
  shows "from_millis ms = ms * 1000"
proof -
  define y where "y = (of_int ms / 1000 :: rat)"
  define x where "x = rnd y"
  define q r where "q = ms div 1000" and "r = ms mod 1000"
  have qr: "ms = q * 1000 + r" "0 \<le> r" "r \<le> 999" "0 \<le> q" using assms by (auto simp: q_def r_def)
  have y: "y = of_int q + of_int r / 1000" by (simp add: y_def qr(1) field_simps)
  have yb: "0 \<le> y" "y < 2147483648" using assms by (auto simp: y_def)
  have "\<bar>x - y\<bar> \<le> 1 / 8388608"
    using rnd_err [of y 31] yb by (simp add: x_def power_int_def power_divide)
  then have e: "y - 1 / 8388608 \<le> x" "x \<le> y + 1 / 8388608" unfolding abs_le_iff by linarith+
  have rr: "(0 :: rat) \<le> of_int r" "(of_int r :: rat) \<le> 999" using qr by auto
  have ge: "of_int q \<le> x"
  proof (cases "r = 0")
    case True
    then have "y = of_int q" by (simp add: y)
    moreover have "q < 2147483648" using qr assms by auto
    ultimately have "x = y" using rnd_of_int [of q] qr(4) by (simp add: x_def)
    then show ?thesis using \<open>y = of_int q\<close> by simp
  next
    case False
    then have "(1 :: rat) \<le> of_int r" using qr by simp
    then show ?thesis using e(1) unfolding y by linarith
  qed
  have lt: "x < of_int q + 1" using e(2) rr(2) unfolding y by linarith
  have i: "int_of_float x = q"
  proof -
    have "\<not> x < 0" using ge qr(4) by (meson le_less_trans not_le of_int_0_le_iff order.trans)
    moreover have "\<lfloor>x\<rfloor> = q" using ge lt by linarith
    ultimately show ?thesis by (simp add: int_of_float_def)
  qed
  define z where "z = (x - of_int q) * 1000000"
  have z: "of_int (r * 1000) - 1000000 / 8388608 \<le> z" "z \<le> of_int (r * 1000) + 1000000 / 8388608"
    using e unfolding z_def y by simp_all
  have "\<bar>z\<bar> < 2 powi 20" using z rr by (simp add: power_int_def abs_less_iff)
  from rnd_err [OF this] have "\<bar>rnd z - z\<bar> \<le> 1 / 17179869184" by (simp add: power_int_def power_divide)
  then have "\<bar>rnd z - of_int (r * 1000)\<bar> < 1 / 2" using z unfolding abs_le_iff abs_less_iff by linarith
  then have "round_even (rnd z) = r * 1000" by (rule round_even_near)
  then have "from_millis ms = q * 1000000 + r * 1000"
    by (simp only: from_millis_def Let_def y_def [symmetric] x_def [symmetric] i z_def [symmetric])
  then show ?thesis using qr(1) by simp
qed

end
