(* ===== verification/ProviderStripe.thy ===== *)
theory ProviderStripe
  imports GatewayRoute StrictHex FloatTime
begin

text \<open>
  \<open>providers/stripe.py\<close>: the header \<open>t=<unix>,v1=<hex>[,v1=<hex>...]\<close>, the HMAC over
  \<open>"<t>.<body>"\<close>, and the replay window, compared in floats as the code does.
\<close>

definition STRIPE_HEADER :: pystr where
  "STRIPE_HEADER = ''Stripe-Signature''"

definition parse_part :: "pystr \<times> pystr list \<Rightarrow> pystr \<Rightarrow> pystr \<times> pystr list" where
  "parse_part st part =
     (case st of (timestamp, signatures) \<Rightarrow>
      case partition_ch (CHR ''='') (py_strip part) of (key, sep, value) \<Rightarrow>
        if \<not> sep then (timestamp, signatures)
        else if key = ''t'' then (value, signatures)
        else if key = ''v1'' then (timestamp, signatures @ [value])
        else (timestamp, signatures))"

definition parse_header :: "pystr \<Rightarrow> pystr \<times> pystr list" where
  "parse_header header = foldl parse_part ([], []) (split_ch (CHR '','') header)"

text \<open>The loop over the candidates: one that does not decode is skipped.\<close>

fun any_match :: "bytes \<Rightarrow> pystr list \<Rightarrow> unit py" where
  "any_match expected [] = Inl (VerificationErr ''no matching signature'')"
| "any_match expected (candidate # rest) =
     (case decode_hex candidate of
        Inl e \<Rightarrow> if is_value_error e then any_match expected rest else Inl e
      | Inr got \<Rightarrow> if compare_digest got expected then Inr () else any_match expected rest)"

definition stripe_verify :: "bytes \<Rightarrow> usec \<Rightarrow> bytes \<Rightarrow> headers \<Rightarrow> usec \<Rightarrow> unit py" where
  "stripe_verify secret replay_window raw_body headers now =
     (case headers STRIPE_HEADER of
        None \<Rightarrow> Inl (VerificationErr (''missing '' @ STRIPE_HEADER @ '' header''))
      | Some header \<Rightarrow>
        if header = [] then Inl (VerificationErr (''missing '' @ STRIPE_HEADER @ '' header''))
        else case parse_header header of (timestamp, signatures) \<Rightarrow>
          if timestamp = [] \<or> signatures = []
          then Inl (VerificationErr (''malformed '' @ STRIPE_HEADER @ '' header''))
          else case py_int timestamp of
            Inl e \<Rightarrow> if is_value_error e then Inl (VerificationErr ''invalid timestamp'') else Inl e
          | Inr ts \<Rightarrow>
              py_bind
                (if 0 < replay_window
                 then py_bind (float_age now ts) (\<lambda>delta.
                        if seconds replay_window < delta
                        then Inl (VerificationErr ''timestamp outside replay window'') else Inr ())
                 else Inr ())
                (\<lambda>_. py_bind (encode_ascii timestamp) (\<lambda>t.
                   any_match (hmac_sha256 secret (t @ [0x2E] @ raw_body)) signatures)))"

section \<open>The header\<close>

lemma parse_part_app: "snd (foldl parse_part (t, s) ps) = s @ snd (foldl parse_part (t, []) ps)
    \<and> fst (foldl parse_part (t, s) ps) = fst (foldl parse_part (t, []) ps)"
proof (induction ps arbitrary: t s)
  case (Cons p ps)
  obtain k f v where p: "partition_ch (CHR ''='') (py_strip p) = (k, f, v)"
    by (cases "partition_ch (CHR ''='') (py_strip p)") auto
  have "\<exists>t' s'. parse_part (t, s) p = (t', s @ s') \<and> parse_part (t, []) p = (t', s')"
    by (auto simp: parse_part_def p)
  then obtain t' s' where st: "parse_part (t, s) p = (t', s @ s')" "parse_part (t, []) p = (t', s')" by blast
  show ?case using Cons.IH [of t' "s @ s'"] Cons.IH [of t' s'] by (simp add: st)
qed simp

text \<open>The value of a \<open>key=value\<close> part survives when it has no comma and no white space at its
  end.\<close>

definition clean :: "pystr \<Rightarrow> bool" where
  "clean v \<longleftrightarrow> CHR '','' \<notin> set v \<and> (v = [] \<or> \<not> is_space (last v))"

lemma partition_key: "CHR ''='' \<notin> set k \<Longrightarrow> k \<noteq> [] \<Longrightarrow> \<not> is_space (hd k) \<Longrightarrow> clean v \<Longrightarrow>
    partition_ch (CHR ''='') (py_strip (k @ CHR ''='' # v)) = (k, True, v)"
proof -
  assume k: "CHR ''='' \<notin> set k" "k \<noteq> []" "\<not> is_space (hd k)" "clean v"
  have "\<not> is_space (CHR ''='')" by (simp add: is_space_def in_range_def)
  then have "py_strip (k @ CHR ''='' # v) = k @ CHR ''='' # v"
    unfolding py_strip_def using k by (intro strip_by_no_ends) (auto simp: clean_def)
  with k(1) show ?thesis by simp
qed

definition stripe_header_of :: "pystr \<Rightarrow> pystr list \<Rightarrow> pystr" where
  "stripe_header_of t sigs = join_with '','' ((''t='' @ t) # map (\<lambda>s. ''v1='' @ s) sigs)"

lemma parse_t: "clean t \<Longrightarrow> parse_part (t0, sigs) (''t='' @ t) = (t, sigs)"
  using partition_key [of "''t''" t] by (simp add: parse_part_def is_space_def in_range_def)

lemma parse_v1: "clean v \<Longrightarrow> parse_part (t, sigs) (''v1='' @ v) = (t, sigs @ [v])"
  using partition_key [of "''v1''" v] by (simp add: parse_part_def is_space_def in_range_def)

lemma parse_v1s: "list_all clean vs \<Longrightarrow>
    foldl parse_part (t, sigs) (map (\<lambda>s. ''v1='' @ s) vs) = (t, sigs @ vs)"
proof (induction vs arbitrary: sigs)
  case (Cons v vs)
  then show ?case using parse_v1 [of v t sigs] by (simp del: append_Cons append.simps)
qed simp

lemma parse_header_of:
  assumes "clean t" "list_all clean sigs"
  shows "parse_header (stripe_header_of t sigs) = (t, sigs)"
proof -
  have "\<forall>p \<in> set ((''t='' @ t) # map (\<lambda>s. ''v1='' @ s) sigs). CHR '','' \<notin> set p"
    using assms by (auto simp: clean_def list_all_iff)
  then have "split_ch (CHR '','') (stripe_header_of t sigs) = (''t='' @ t) # map (\<lambda>s. ''v1='' @ s) sigs"
    unfolding stripe_header_of_def by (intro split_join_ch) simp_all
  then show ?thesis
    using assms parse_t [OF assms(1), of "[]" "[]"] parse_v1s [OF assms(2), of t "[]"]
    by (simp add: parse_header_def del: append_Cons append.simps)
qed

section \<open>What it accepts\<close>

lemma any_match_iff: "any_match expected cs = Inr () \<longleftrightarrow> (\<exists>c \<in> set cs. decode_hex c = Inr expected)"
  by (induction cs) (auto simp: compare_digest_def split: sum.splits dest!: decode_hex_error)

lemma any_match_errors: "any_match expected cs = Inl e \<Longrightarrow> e = VerificationErr ''no matching signature''"
  by (induction cs) (auto split: sum.splits if_splits dest!: decode_hex_error)

definition fresh :: "usec \<Rightarrow> usec \<Rightarrow> int \<Rightarrow> bool" where
  "fresh replay_window now ts \<longleftrightarrow>
     0 < replay_window \<longrightarrow> (\<exists>d. float_age now ts = Inr d \<and> d \<le> seconds replay_window)"

text \<open>The HMAC a sender attaches at the time it prints as \<open>t\<close>.\<close>

definition stripe_mac :: "bytes \<Rightarrow> pystr \<Rightarrow> bytes \<Rightarrow> bytes" where
  "stripe_mac secret t body = hmac_sha256 secret (map of_char t @ [0x2E] @ body)"

lemma stripe_verify_iff:
  "stripe_verify secret w body headers now = Inr () \<longleftrightarrow>
     (\<exists>h t sigs ts. headers STRIPE_HEADER = Some h \<and> h \<noteq> [] \<and> parse_header h = (t, sigs) \<and> t \<noteq> []
        \<and> py_int t = Inr ts \<and> is_ascii t \<and> fresh w now ts
        \<and> (\<exists>c \<in> set sigs. decode_hex c = Inr (stripe_mac secret t body)))"
proof (cases "headers STRIPE_HEADER")
  case (Some h)
  obtain t sigs where p: "parse_header h = (t, sigs)" by (cases "parse_header h")
  show ?thesis
  proof (cases "h = [] \<or> t = [] \<or> sigs = []")
    case True
    then show ?thesis by (auto simp: stripe_verify_def Some p)
  next
    case False
    show ?thesis
    proof (cases "py_int t")
      case (Inl e)
      with False show ?thesis by (simp add: stripe_verify_def Some p)
    next
      case (Inr ts)
      with False show ?thesis
        by (cases "float_age now ts")
           (auto simp: stripe_verify_def Some p fresh_def encode_ascii_def any_match_iff stripe_mac_def)
    qed
  qed
qed (simp add: stripe_verify_def)

text \<open>Which exceptions leave the verifier.\<close>

lemma float_age_errors: "float_age now ts = Inl e \<Longrightarrow> e = OverflowErr"
  by (auto simp: float_age_def float_of_int_def Let_def split: if_splits)

lemma py_int_errors: "py_int s = Inl e \<Longrightarrow> is_value_error e"
  by (auto simp: py_int_def int_of_numeral_def split: list.splits if_splits option.splits)

lemma stripe_verify_errors:
  assumes "stripe_verify secret w body headers now = Inl e"
  shows "(\<exists>m. e = VerificationErr m) \<or> e = OverflowErr \<or> e = UnicodeEncodeErr"
proof (cases "headers STRIPE_HEADER")
  case (Some h)
  obtain t sigs where p: "parse_header h = (t, sigs)" by (cases "parse_header h")
  show ?thesis
  proof (cases "py_int t")
    case (Inl e')
    with assms py_int_errors [OF Inl] show ?thesis
      by (auto simp: stripe_verify_def Some p split: if_splits)
  next
    case (Inr ts)
    with assms show ?thesis
      by (cases "float_age now ts")
         (auto simp: stripe_verify_def Some p encode_ascii_def py_bind_def
            split: if_splits dest: float_age_errors any_match_errors)
  qed
qed (use assms in \<open>auto simp: stripe_verify_def\<close>)

section \<open>The properties\<close>

lemma hex_digit_clean: "n < 16 \<Longrightarrow> hex_digit n \<noteq> CHR '','' \<and> \<not> is_space (hex_digit n)"
proof -
  assume "n < 16"
  show ?thesis
  proof (cases "n < 10")
    case True
    then have "(of_char (hex_digit n) :: nat) = 48 + n" by (simp add: hex_digit_def of_char_mod_256)
    with True show ?thesis by (auto simp: is_space_def in_range_def)
  next
    case False
    with \<open>n < 16\<close> have "(of_char (hex_digit n) :: nat) = 87 + n" by (simp add: hex_digit_def of_char_mod_256)
    with False \<open>n < 16\<close> show ?thesis by (auto simp: is_space_def in_range_def)
  qed
qed

lemma clean_hex_encode [simp]: "clean (hex_encode b)"
proof -
  have c: "c \<in> set (hex_encode b) \<Longrightarrow> c \<noteq> CHR '','' \<and> \<not> is_space c" for c
    by (auto simp: hex_encode_def hex_byte_def hex_digit_clean)
  show ?thesis
  proof (cases "hex_encode b")
    case (Cons x y)
    then have "last (hex_encode b) \<in> set (hex_encode b)" by simp
    with c show ?thesis unfolding clean_def by blast
  qed (simp add: clean_def)
qed

lemma show_int_ascii: "is_ascii (show_int n)" and clean_show_int [simp]: "clean (show_int n)"
proof -
  have c: "c \<in> set (show_int n) \<Longrightarrow> is_digit c \<or> c = CHR ''-''" for c
    using show_nat_digits [of "nat n"] show_nat_digits [of "nat (- n)"]
    by (auto simp: show_int_def list_all_iff split: if_splits)
  then show "is_ascii (show_int n)" by (fastforce simp: is_ascii_def list_all_iff is_digit_def in_range_def)
  have "is_digit (last (show_int n))" using show_nat_ends by (simp add: show_int_def)
  with c [of "CHR '',''"] show "clean (show_int n)"
    by (auto simp: clean_def is_digit_def is_space_def in_range_def)
qed

lemma fresh_whole:
  assumes "0 \<le> now" "now < 2 ^ 31 * 1000000" "0 < k" "k \<le> 2 ^ 30"
  shows "fresh (k * 1000000) now ts \<longleftrightarrow> \<bar>now - ts * 1000000\<bar> \<le> k * 1000000"
proof (cases "float_age now ts")
  case (Inr d)
  with float_window_whole [OF assms(1,2) _ assms(4) Inr] assms(3) show ?thesis by (auto simp: fresh_def)
next
  case (Inl e)
  have "\<not> \<bar>ts\<bar> < 2 ^ 53" using Inl float_of_int_small [of ts] by (auto simp: float_age_def)
  then have "\<not> \<bar>now - ts * 1000000\<bar> \<le> k * 1000000" using assms by (auto simp: abs_le_iff abs_less_iff)
  with Inl assms(3) show ?thesis by (simp add: fresh_def)
qed

text \<open>C4: with a replay window of a whole number of seconds, Stripe's verifier accepts exactly the
  requests whose header parses to a timestamp and candidates, whose timestamp is an ASCII numeral
  within the window of the clock, in either direction and with no rounding error, and one of whose
  candidates is the hexadecimal HMAC of \<open>"<t>.<body>"\<close>. (Clocks before 2038 and windows of up
  to 34 years.)\<close>

theorem stripe_verify_exact:
  assumes "0 \<le> now" "now < 2 ^ 31 * 1000000" "0 < k" "k \<le> 2 ^ 30"
  shows "stripe_verify secret (k * 1000000) body headers now = Inr () \<longleftrightarrow>
    (\<exists>h t sigs ts. headers STRIPE_HEADER = Some h \<and> parse_header h = (t, sigs) \<and> t \<noteq> []
       \<and> py_int t = Inr ts \<and> is_ascii t \<and> \<bar>now - ts * 1000000\<bar> \<le> k * 1000000
       \<and> (\<exists>c \<in> set sigs. py_lower c = hex_encode (stripe_mac secret t body)))"
proof -
  have "parse_header [] = ([], [])" by (simp add: parse_header_def parse_part_def py_strip_def strip_by_def)
  then show ?thesis
    unfolding stripe_verify_iff fresh_whole [OF assms] decode_hex_iff by fastforce
qed

lemma show_int_sample: "show_int 1700000000 = ''1700000000''"
  by (simp add: show_int_def show_nat.simps digit_char_def char_of_def bit_0)

text \<open>A request signed at 1700000000 is accepted exactly 300 seconds later and not one
  microsecond after that.\<close>

definition stripe_sample_headers :: headers where
  "stripe_sample_headers = one_header STRIPE_HEADER
     (stripe_header_of ''1700000000'' [''00'', hex_encode (stripe_mac [1, 2] ''1700000000'' [0x7B, 0x7D])])"

theorem stripe_verify_exact_witness:
  "stripe_verify [1, 2] (300 * 1000000) [0x7B, 0x7D] stripe_sample_headers 1700000300000000 = Inr () \<and>
   stripe_verify [1, 2] (300 * 1000000) [0x7B, 0x7D] stripe_sample_headers 1700000300000001 \<noteq> Inr ()"
proof -
  have c: "clean ''1700000000''" "clean ''00''" "is_ascii ''1700000000''"
    by (simp_all add: clean_def is_space_def is_ascii_def in_range_def)
  have i: "py_int ''1700000000'' = Inr 1700000000"
    using py_int_show_int [of 1700000000] by (simp add: show_int_sample max_str_digits_def)
  show ?thesis
    using stripe_verify_exact [of 1700000300000000 300 "[1, 2]" "[0x7B, 0x7D]" stripe_sample_headers]
      stripe_verify_exact [of 1700000300000001 300 "[1, 2]" "[0x7B, 0x7D]" stripe_sample_headers] c i
    by (simp add: stripe_sample_headers_def one_header_def parse_header_of del: ex_simps)
qed

text \<open>Secret rotation: a request signed under several keys at once is accepted by a gateway that
  holds any one of them, as long as it is fresh, and by no other gateway short of a collision.\<close>

theorem stripe_rotation:
  assumes "length (show_int ts) \<le> max_str_digits"
    and "headers STRIPE_HEADER =
      Some (stripe_header_of (show_int ts) (map (\<lambda>key. hex_encode (stripe_mac key (show_int ts) body)) keys))"
  shows "stripe_verify secret w body headers now = Inr () \<longleftrightarrow>
    fresh w now ts \<and> (\<exists>key \<in> set keys. stripe_mac key (show_int ts) body = stripe_mac secret (show_int ts) body)"
proof -
  let ?sigs = "map (\<lambda>key. hex_encode (stripe_mac key (show_int ts) body)) keys"
  have "list_all clean ?sigs" by (simp add: list_all_iff)
  then have p: "parse_header (stripe_header_of (show_int ts) ?sigs) = (show_int ts, ?sigs)"
    by (simp add: parse_header_of)
  have "stripe_header_of (show_int ts) ?sigs \<noteq> []"
    by (cases ?sigs) (simp_all add: stripe_header_of_def)
  then show ?thesis
    using py_int_show_int [OF assms(1)] show_int_ends [of ts] show_int_ascii [of ts]
    by (auto simp: stripe_verify_iff assms(2) p decode_hex_encode)
qed

theorem stripe_rotation_witness:
  "stripe_verify [2] 0 [0x7B, 0x7D]
     (one_header STRIPE_HEADER (stripe_header_of (show_int 1700000000)
        (map (\<lambda>key. hex_encode (stripe_mac key (show_int 1700000000) [0x7B, 0x7D])) [[1], [2]]))) 0 = Inr ()"
proof -
  have "length (show_int 1700000000) \<le> max_str_digits" by (simp add: show_int_sample max_str_digits_def)
  then show ?thesis
    using stripe_rotation [where keys = "[[1], [2]]" and secret = "[2]" and w = 0 and now = 0]
    by (simp add: one_header_def fresh_def)
qed

text \<open>Two inputs on which another exception than \<open>VerificationError\<close> leaves the verifier: a
  timestamp padded with a non-ASCII space, which \<open>int\<close> skips and \<open>encode("ascii")\<close> refuses, and
  one too large for a float.\<close>

lemma stripe_non_ascii_timestamp:
  assumes "headers STRIPE_HEADER = Some h" "h \<noteq> []" "parse_header h = (t, sigs)" "t \<noteq> []" "sigs \<noteq> []"
    "py_int t = Inr ts" "\<not> is_ascii t" "fresh w now ts"
  shows "stripe_verify secret w body headers now = Inl UnicodeEncodeErr"
  using assms by (auto simp: stripe_verify_def fresh_def encode_ascii_def py_bind_def)

lemma stripe_huge_timestamp:
  assumes "headers STRIPE_HEADER = Some h" "h \<noteq> []" "parse_header h = (t, sigs)" "t \<noteq> []" "sigs \<noteq> []"
    "py_int t = Inr ts" "float_of_int ts = Inl OverflowErr" "0 < w"
  shows "stripe_verify secret w body headers now = Inl OverflowErr"
  using assms by (auto simp: stripe_verify_def float_age_def)

end
