(* ===== verification/ProviderPaypal.thy ===== *)
theory ProviderPaypal
  imports GatewayRoute StdCrypto
begin

text \<open>
  \<open>providers/paypal.py\<close>: the signed message, the host pin of \<open>paypal-cert-url\<close> (with the part of
  \<open>urllib.parse\<close> it rests on), the certificate cache, the fetch and the verification. The X.509 and
  RSA operations of the \<open>cryptography\<close> package and the HTTP client are parameters. The state of a
  verifier is its cache together with the list of URLs it has asked the client for.
\<close>

section \<open>URLs\<close>

text \<open>\<open>urlsplit\<close> on code points below 256, where the NFKC check of the authority never fires. The
  check of a bracketed address literal (the \<open>ipaddress\<close> module) is the argument \<open>bracket_ok\<close>.\<close>

definition is_c0_or_space :: "char \<Rightarrow> bool" where
  "is_c0_or_space c \<longleftrightarrow> in_range 0 32 c"

definition is_scheme_char :: "char \<Rightarrow> bool" where
  "is_scheme_char c \<longleftrightarrow> in_range 97 122 c \<or> in_range 65 90 c \<or> is_digit c \<or> c \<in> set ''+-.''"

definition is_ascii_alpha :: "char \<Rightarrow> bool" where
  "is_ascii_alpha c \<longleftrightarrow> in_range 97 122 c \<or> in_range 65 90 c"

definition url_clean :: "pystr \<Rightarrow> pystr" where
  "url_clean url =
     filter (\<lambda>c. c \<noteq> CHR 0x09 \<and> c \<noteq> CHR 0x0D \<and> c \<noteq> CHR 0x0A) (dropWhile is_c0_or_space url)"

definition url_scheme :: "pystr \<Rightarrow> pystr \<times> pystr" where
  "url_scheme url =
     (case partition_ch (CHR '':'') url of (pre, found, post) \<Rightarrow>
        if found \<and> pre \<noteq> [] \<and> is_ascii_alpha (hd pre) \<and> list_all is_scheme_char pre
        then (py_lower pre, post) else ([], url))"

definition url_netloc :: "pystr \<Rightarrow> pystr" where
  "url_netloc url =
     (if startswith url ''//'' then takeWhile (\<lambda>c. c \<notin> set ''/?#'') (drop 2 url) else [])"

definition rpartition_at :: "pystr \<Rightarrow> pystr" where
  "rpartition_at s = rev (takeWhile (\<lambda>c. c \<noteq> CHR ''@'') (rev s))"

text \<open>\<open>(scheme, netloc)\<close>, or the \<open>ValueError\<close> of \<open>urlsplit\<close>.\<close>

definition urlparse :: "(pystr \<Rightarrow> bool) \<Rightarrow> pystr \<Rightarrow> (pystr \<times> pystr) py" where
  "urlparse bracket_ok raw =
     (case url_scheme (url_clean raw) of (scheme, rest) \<Rightarrow>
        let netloc = url_netloc rest;
            op = CHR ''['' \<in> set netloc; cl = CHR '']'' \<in> set netloc in
        if op \<noteq> cl then Inl (ValueErr ''Invalid IPv6 URL'')
        else if op \<and> cl \<and> \<not> bracket_ok netloc then Inl (ValueErr ''invalid bracketed host'')
        else Inr (scheme, netloc))"

text \<open>\<open>SplitResult.hostname\<close>, with \<open>or ""\<close>.\<close>

definition url_hostname :: "pystr \<Rightarrow> pystr" where
  "url_hostname netloc =
     (case partition_ch (CHR ''['') (rpartition_at netloc) of (a, br, b) \<Rightarrow>
        let hostname = (if br then fst (partition_ch (CHR '']'') b)
                        else fst (partition_ch (CHR '':'') (rpartition_at netloc))) in
        case partition_ch (CHR ''%'') hostname of (h, pct, zone) \<Rightarrow>
          py_lower h @ (if pct then CHR ''%'' # zone else []))"

section \<open>The host pin\<close>

definition CERT_HOST_ALLOWLIST :: "pystr list" where
  "CERT_HOST_ALLOWLIST = [''paypal.com'']"

fun host_allowed :: "pystr \<Rightarrow> pystr list \<Rightarrow> bool" where
  "host_allowed host [] \<longleftrightarrow> False"
| "host_allowed host (domain # ds) \<longleftrightarrow>
     host = domain \<or> endswith host (''.'' @ domain) \<or> host_allowed host ds"

definition check_cert_host :: "(pystr \<Rightarrow> bool) \<Rightarrow> pystr \<Rightarrow> unit py" where
  "check_cert_host bracket_ok raw_url =
     (case urlparse bracket_ok raw_url of
        Inl e \<Rightarrow> Inl (VerificationErr (''invalid paypal-cert-url: '' @ exn_message e))
      | Inr (scheme, netloc) \<Rightarrow>
          if scheme \<noteq> ''https'' then Inl (VerificationErr ''paypal-cert-url must be https'')
          else let host = py_lower (url_hostname netloc) in
            if host = [] then Inl (VerificationErr ''invalid paypal-cert-url: no host'')
            else if host_allowed host CERT_HOST_ALLOWLIST then Inr ()
            else Inl (VerificationErr
                   (''paypal-cert-url host '' @ py_repr host @ '' is not a trusted PayPal host'')))"

section \<open>The signed message\<close>

definition signed_message :: "pystr \<Rightarrow> pystr \<Rightarrow> pystr \<Rightarrow> bytes \<Rightarrow> bytes" where
  "signed_message transmission_id transmission_time webhook_id body =
     encode_utf8 (transmission_id @ ''|'' @ transmission_time @ ''|'' @ webhook_id @ ''|''
       @ show_nat (unat (crc32 body)))"

section \<open>Certificates\<close>

text \<open>What the code uses of the \<open>cryptography\<close> package and of certifi: the bytes of certifi's bundle (\<open>Inl\<close> the message of
  the exception reading it raises), parsing a PEM bundle (\<open>Inl\<close> the \<open>ValueError\<close>'s message), making a \<open>Store\<close> of certificates (\<open>Some\<close> the \<open>ValueError\<close>'s), the DNS names of a certificate's
  subject alternative names (\<open>Inl\<close> the message if it has no such extension), the check of a leaf and its intermediates as a server
  certificate for a name against roots (\<open>Some\<close> the message of whatever it raised), the public key, its type, and the RSA
  PKCS#1 v1.5 SHA-256 check. Then the bracketed-literal check of \<open>urlsplit\<close>.\<close>

record ('cert, 'key) crypto_lib =
  certifi_bundle :: "pystr + bytes"
  load_pem :: "bytes \<Rightarrow> pystr + 'cert list"
  store_error :: "'cert list \<Rightarrow> pystr option"
  dns_names :: "'cert \<Rightarrow> pystr + pystr list"
  server_verify :: "'cert list \<Rightarrow> pystr \<Rightarrow> 'cert \<Rightarrow> 'cert list \<Rightarrow> pystr option"
  public_key :: "'cert \<Rightarrow> 'key"
  is_rsa :: "'key \<Rightarrow> bool"
  rsa_ok :: "'key \<Rightarrow> bytes \<Rightarrow> bytes \<Rightarrow> bool"
  bracket_ok :: "pystr \<Rightarrow> bool"

text \<open>\<open>_trust_store\<close>: the roots.\<close>

definition trust_store :: "('cert, 'key) crypto_lib \<Rightarrow> 'cert list py" where
  "trust_store lib =
     (case certifi_bundle lib of
        Inl m \<Rightarrow> Inl (OtherErr m)
      | Inr pem \<Rightarrow>
          (case load_pem lib pem of
             Inl m \<Rightarrow> Inl (ValueErr m)
           | Inr roots \<Rightarrow> (case store_error lib roots of Some m \<Rightarrow> Inl (ValueErr m) | None \<Rightarrow> Inr roots)))"

text \<open>The \<open>try\<close> of \<open>parse_cert_chain\<close>: the message of the first exception.\<close>

definition chain_error :: "('cert, 'key) crypto_lib \<Rightarrow> 'cert list \<Rightarrow> 'cert \<Rightarrow> 'cert list \<Rightarrow> pystr option" where
  "chain_error lib roots leaf intermediates =
     (case dns_names lib leaf of
        Inl m \<Rightarrow> Some m
      | Inr [] \<Rightarrow> Some ''list index out of range''
      | Inr (name # _) \<Rightarrow> server_verify lib roots name leaf intermediates)"

definition parse_cert_chain :: "('cert, 'key) crypto_lib \<Rightarrow> bytes \<Rightarrow> 'cert py" where
  "parse_cert_chain lib pem_data =
     (case load_pem lib pem_data of
        Inl m \<Rightarrow> Inl (VerificationErr (''paypal cert: parse certificate: '' @ m))
      | Inr [] \<Rightarrow> Inl (VerificationErr ''paypal cert: no certificate found in response'')
      | Inr (leaf # intermediates) \<Rightarrow>
          py_bind (trust_store lib) (\<lambda>roots.
            case chain_error lib roots leaf intermediates of
              Some m \<Rightarrow> Inl (VerificationErr (''paypal cert: certificate chain: '' @ m))
            | None \<Rightarrow> Inr leaf))"

definition verify_signature ::
  "('cert, 'key) crypto_lib \<Rightarrow> 'key \<Rightarrow> pystr \<Rightarrow> pystr \<Rightarrow> pystr \<Rightarrow> bytes \<Rightarrow> pystr \<Rightarrow> unit py" where
  "verify_signature lib key transmission_id transmission_time webhook_id body signature_b64 =
     (case b64decode_strict signature_b64 of
        None \<Rightarrow> Inl (VerificationErr ''invalid paypal-transmission-sig encoding'')
      | Some signature \<Rightarrow>
          if rsa_ok lib key signature (signed_message transmission_id transmission_time webhook_id body)
          then Inr () else Inl (VerificationErr ''signature mismatch''))"

section \<open>Cache, fetch and verification\<close>

text \<open>One response of the client: an \<open>httpx.HTTPError\<close>, another exception, or status and body.\<close>

datatype fetch_result = FetchHTTPError pystr | FetchRaised pystr | Fetched nat bytes

record 'cert paypal_state =
  entries :: "pystr \<rightharpoonup> 'cert \<times> usec"
  fetched :: "pystr list"

definition fresh_state :: "'cert paypal_state" where
  "fresh_state = \<lparr>entries = Map.empty, fetched = []\<rparr>"

definition CERT_TTL :: usec where
  "CERT_TTL = 3600 * 1000000"

definition CERT_MAX_BYTES :: nat where
  "CERT_MAX_BYTES = 2 ^ 20"

definition cache_get :: "'cert paypal_state \<Rightarrow> usec \<Rightarrow> pystr \<Rightarrow> 'cert option" where
  "cache_get st now url =
     (case entries st url of
        None \<Rightarrow> None
      | Some (cert, fetched_at) \<Rightarrow> if CERT_TTL < now - fetched_at then None else Some cert)"

definition cache_set :: "'cert paypal_state \<Rightarrow> usec \<Rightarrow> pystr \<Rightarrow> 'cert \<Rightarrow> 'cert paypal_state" where
  "cache_set st now url cert = st\<lparr>entries := (entries st)(url \<mapsto> (cert, now))\<rparr>"

text \<open>\<open>t0\<close> and \<open>t1\<close> are the clock at the cache lookup and after the fetch.\<close>

definition get_cert ::
  "('cert, 'key) crypto_lib \<Rightarrow> (pystr \<Rightarrow> fetch_result) \<Rightarrow> usec \<Rightarrow> usec \<Rightarrow> pystr \<Rightarrow> 'cert paypal_state
     \<Rightarrow> 'cert py \<times> 'cert paypal_state" where
  "get_cert lib client t0 t1 cert_url st =
     (case cache_get st t0 cert_url of
        Some cert \<Rightarrow> (Inr cert, st)
      | None \<Rightarrow>
          case check_cert_host (bracket_ok lib) cert_url of
            Inl e \<Rightarrow> (Inl e, st)
          | Inr _ \<Rightarrow>
              let st' = st\<lparr>fetched := fetched st @ [cert_url]\<rparr> in
              case client cert_url of
                FetchHTTPError m \<Rightarrow> (Inl (VerificationErr (''paypal cert: fetch failed: '' @ m)), st')
              | FetchRaised m \<Rightarrow> (Inl (OtherErr m), st')
              | Fetched status content \<Rightarrow>
                  if status \<noteq> 200
                  then (Inl (VerificationErr (''paypal cert: fetch: status '' @ show_nat status)), st')
                  else case parse_cert_chain lib (take CERT_MAX_BYTES content) of
                         Inl e \<Rightarrow> (Inl e, st')
                       | Inr cert \<Rightarrow> (Inr cert, cache_set st' t1 cert_url cert))"

definition AUTH_ALGO :: pystr where
  "AUTH_ALGO = ''SHA256withRSA''"

definition repr_opt :: "pystr option \<Rightarrow> pystr" where
  "repr_opt v = (case v of None \<Rightarrow> ''None'' | Some s \<Rightarrow> py_repr s)"

definition paypal_verify ::
  "('cert, 'key) crypto_lib \<Rightarrow> (pystr \<Rightarrow> fetch_result) \<Rightarrow> usec \<Rightarrow> usec \<Rightarrow> pystr \<Rightarrow> bytes \<Rightarrow> headers
     \<Rightarrow> 'cert paypal_state \<Rightarrow> unit py \<times> 'cert paypal_state" where
  "paypal_verify lib client t0 t1 webhook_id raw_body headers st =
     (let transmission_id = headers ''paypal-transmission-id'';
          transmission_time = headers ''paypal-transmission-time'';
          signature_b64 = headers ''paypal-transmission-sig'';
          cert_url = headers ''paypal-cert-url'';
          auth_algo = headers ''paypal-auth-algo'' in
      if absent transmission_id \<or> absent transmission_time \<or> absent signature_b64 \<or> absent cert_url
      then (Inl (VerificationErr ''missing PayPal signature headers''), st)
      else if py_lower (case auth_algo of None \<Rightarrow> [] | Some a \<Rightarrow> a) \<noteq> py_lower AUTH_ALGO
      then (Inl (VerificationErr (''unsupported paypal-auth-algo '' @ repr_opt auth_algo)), st)
      else case get_cert lib client t0 t1 (the cert_url) st of
             (Inl e, st') \<Rightarrow> (Inl e, st')
           | (Inr cert, st') \<Rightarrow>
               if \<not> is_rsa lib (public_key lib cert)
               then (Inl (VerificationErr ''paypal cert: not an RSA key''), st')
               else (verify_signature lib (public_key lib cert) (the transmission_id)
                       (the transmission_time) webhook_id raw_body (the signature_b64), st'))"

section \<open>Facts on the URL functions\<close>

lemma host_allowed_paypal: "host_allowed h CERT_HOST_ALLOWLIST \<longleftrightarrow> h = ''paypal.com'' \<or> (\<exists>p. h = p @ ''.paypal.com'')"
  by (auto simp: CERT_HOST_ALLOWLIST_def endswith_iff)

lemma check_cert_host_iff:
  "check_cert_host ok url = Inr () \<longleftrightarrow>
     (\<exists>netloc. urlparse ok url = Inr (''https'', netloc)
        \<and> host_allowed (py_lower (url_hostname netloc)) CERT_HOST_ALLOWLIST)"
proof -
  have "\<not> host_allowed [] CERT_HOST_ALLOWLIST" by (simp add: host_allowed_paypal)
  then show ?thesis by (auto simp: check_cert_host_def Let_def split: sum.splits)
qed

lemma check_cert_host_errors: "check_cert_host ok url = Inl e \<Longrightarrow> \<exists>m. e = VerificationErr m"
  by (auto simp: check_cert_host_def Let_def split: sum.splits if_splits)

lemma takeWhile_all: "(\<forall>c \<in> set a. P c) \<Longrightarrow> b = [] \<or> \<not> P (hd b) \<Longrightarrow> takeWhile P (a @ b) = a"
  by (cases b) (auto simp: takeWhile_append2)

lemma rpartition_at_none: "CHR ''@'' \<notin> set s \<Longrightarrow> rpartition_at s = s"
proof -
  assume "CHR ''@'' \<notin> set s"
  then have "takeWhile (\<lambda>c. c \<noteq> CHR ''@'') (rev s) = rev s" by (auto simp: takeWhile_eq_all_conv)
  then show ?thesis by (simp only: rpartition_at_def rev_rev_ident)
qed

lemma rpartition_at_last: "CHR ''@'' \<notin> set s \<Longrightarrow> rpartition_at (u @ CHR ''@'' # s) = s"
proof -
  assume s: "CHR ''@'' \<notin> set s"
  have "takeWhile (\<lambda>c. c \<noteq> CHR ''@'') (rev s @ CHR ''@'' # rev u) = rev s"
    using s by (intro takeWhile_all) auto
  then show ?thesis by (simp add: rpartition_at_def)
qed

text \<open>A URL as it is written: scheme, user information, host, port and what follows the authority.\<close>

definition url_of :: "pystr \<Rightarrow> pystr option \<Rightarrow> pystr \<Rightarrow> pystr option \<Rightarrow> pystr \<Rightarrow> pystr" where
  "url_of scheme user host port tail =
     scheme @ ''://'' @ (case user of None \<Rightarrow> [] | Some u \<Rightarrow> u @ ''@'') @ host
       @ (case port of None \<Rightarrow> [] | Some p \<Rightarrow> '':'' @ p) @ tail"

definition no_controls :: "pystr \<Rightarrow> bool" where
  "no_controls s \<longleftrightarrow> CHR 0x09 \<notin> set s \<and> CHR 0x0D \<notin> set s \<and> CHR 0x0A \<notin> set s"

definition authority_part :: "pystr \<Rightarrow> pystr \<Rightarrow> bool" where
  "authority_part banned s \<longleftrightarrow> no_controls s \<and> set s \<inter> set (''/?#[]'' @ banned) = {}"

lemma url_clean_id:
  assumes "no_controls s" "s \<noteq> []" "\<not> is_c0_or_space (hd s)"
  shows "url_clean s = s"
proof -
  have "dropWhile is_c0_or_space s = s" using assms(2,3) by (cases s) auto
  then show ?thesis using assms(1) by (auto simp: url_clean_def no_controls_def intro!: filter_True)
qed

definition scheme_name :: "pystr \<Rightarrow> bool" where
  "scheme_name s \<longleftrightarrow> s \<noteq> [] \<and> is_ascii_alpha (hd s) \<and> list_all is_scheme_char s"

lemma scheme_char_facts:
  assumes "is_scheme_char c"
  shows "c \<noteq> CHR '':''" "\<not> is_c0_or_space c" "c \<noteq> CHR 0x09" "c \<noteq> CHR 0x0D" "c \<noteq> CHR 0x0A"
proof -
  have "(33 :: nat) \<le> of_char c \<and> of_char c \<noteq> (58 :: nat)"
    using assms by (auto simp: is_scheme_char_def is_digit_def in_range_def)
  then show "c \<noteq> CHR '':''" "\<not> is_c0_or_space c" "c \<noteq> CHR 0x09" "c \<noteq> CHR 0x0D" "c \<noteq> CHR 0x0A"
    by (auto simp: is_c0_or_space_def in_range_def)
qed

lemma url_scheme_name: "scheme_name scheme \<Longrightarrow> url_scheme (scheme @ '':'' @ r) = (py_lower scheme, r)"
proof -
  assume n: "scheme_name scheme"
  have "CHR '':'' \<notin> set scheme" using n scheme_char_facts(1) by (auto simp: scheme_name_def list_all_iff)
  then have "partition_ch (CHR '':'') (scheme @ CHR '':'' # r) = (scheme, True, r)" by (rule partition_ch_append)
  then show ?thesis using n by (simp add: url_scheme_def scheme_name_def del: partition_ch.simps)
qed

lemma url_of_parts:
  assumes scheme: "scheme_name scheme"
    and user: "\<And>u. user = Some u \<Longrightarrow> authority_part [] u"
    and host: "authority_part ''@:%'' host"
    and port: "\<And>p. port = Some p \<Longrightarrow> authority_part ''@'' p"
    and tail: "no_controls tail" "tail = [] \<or> hd tail \<in> set ''/?#''"
  shows "\<exists>netloc. urlparse ok (url_of scheme user host port tail) = Inr (py_lower scheme, netloc)
     \<and> url_hostname netloc = py_lower host"
proof -
  define hp where "hp = host @ (case port of None \<Rightarrow> [] | Some p \<Rightarrow> '':'' @ p)"
  define net where "net = (case user of None \<Rightarrow> [] | Some u \<Rightarrow> u @ ''@'') @ hp"
  have netset: "set net \<inter> set ''/?#[]'' = {}" "no_controls net" and at: "CHR ''@'' \<notin> set hp"
    using user host port by (auto simp: net_def hp_def authority_part_def no_controls_def split: option.splits)
  have sch: "scheme \<noteq> []" "no_controls scheme" "\<not> is_c0_or_space (hd scheme)"
  proof -
    have c: "is_scheme_char c" if "c \<in> set scheme" for c using scheme that by (auto simp: scheme_name_def list_all_iff)
    show "scheme \<noteq> []" using scheme by (simp add: scheme_name_def)
    then show "\<not> is_c0_or_space (hd scheme)" using c scheme_char_facts(2) by simp
    show "no_controls scheme" unfolding no_controls_def using c scheme_char_facts(3,4,5) by blast
  qed
  have url: "url_of scheme user host port tail = scheme @ '':'' @ ''//'' @ net @ tail"
    by (simp add: url_of_def net_def hp_def)
  have "url_clean (url_of scheme user host port tail) = url_of scheme user host port tail"
    using netset(2) tail(1) sch by (intro url_clean_id) (auto simp: url no_controls_def)
  moreover have "url_netloc (''//'' @ net @ tail) = net"
    using netset(1) tail(2) by (auto simp: url_netloc_def intro!: takeWhile_all)
  moreover have "CHR ''['' \<notin> set net" "CHR '']'' \<notin> set net" using netset by auto
  ultimately have parsed: "urlparse ok (url_of scheme user host port tail) = Inr (py_lower scheme, net)"
    unfolding urlparse_def by (simp add: url url_scheme_name [OF scheme] del: append.simps)
  have hostinfo: "rpartition_at net = hp"
    using at rpartition_at_last rpartition_at_none by (auto simp: net_def split: option.splits)
  have "CHR ''['' \<notin> set hp" using netset by (auto simp: net_def)
  moreover have "fst (partition_ch (CHR '':'') hp) = host"
    using host by (auto simp: hp_def authority_part_def split: option.splits)
  moreover have "CHR ''%'' \<notin> set host" using host by (auto simp: authority_part_def)
  ultimately have "url_hostname net = py_lower host" by (simp add: url_hostname_def hostinfo Let_def)
  with parsed show ?thesis by blast
qed



lemma lower_https: "py_lower ''https'' = ''https''" "py_lower ''http'' = ''http''" "scheme_name ''https''" "scheme_name ''http''"
  by (simp_all add: py_lower_def lower_char_def in_range_def scheme_name_def is_ascii_alpha_def is_scheme_char_def)


section \<open>The cache and the network\<close>

text \<open>What the network holds: \<open>web url content\<close> says that a \<open>GET\<close> of the URL is ever answered 200 with that content. A client
  of that network answers nothing else; it may answer differently each time, or fail.\<close>

type_synonym web = "pystr \<Rightarrow> bytes \<Rightarrow> bool"

definition client_of :: "web \<Rightarrow> (pystr \<Rightarrow> fetch_result) \<Rightarrow> bool" where
  "client_of web client \<longleftrightarrow> (\<forall>url content. client url = Fetched 200 content \<longrightarrow> web url content)"

text \<open>The states a verifier reaches: any sequence of requests, under any behaviour of the clock and
  of the clients of a network.\<close>

inductive paypal_reachable :: "('cert, 'key) crypto_lib \<Rightarrow> web \<Rightarrow> pystr \<Rightarrow> 'cert paypal_state \<Rightarrow> bool"
  for lib web webhook_id where
  start: "paypal_reachable lib web webhook_id fresh_state"
| request: "paypal_reachable lib web webhook_id st \<Longrightarrow> client_of web client \<Longrightarrow>
    paypal_reachable lib web webhook_id (snd (paypal_verify lib client t0 t1 webhook_id body headers st))"

text \<open>The first certificate of the first megabyte that the network holds at this URL, with a chain that checks.\<close>

definition trusted_cert :: "('cert, 'key) crypto_lib \<Rightarrow> web \<Rightarrow> pystr \<Rightarrow> 'cert \<Rightarrow> bool" where
  "trusted_cert lib web url cert \<longleftrightarrow>
     (\<exists>content rest. web url content \<and> load_pem lib (take (2 ^ 20) content) = Inr (cert # rest)
        \<and> (\<exists>roots name names. trust_store lib = Inr roots \<and> dns_names lib cert = Inr (name # names)
              \<and> server_verify lib roots name cert rest = None))"

definition paypal_inv :: "('cert, 'key) crypto_lib \<Rightarrow> web \<Rightarrow> 'cert paypal_state \<Rightarrow> bool" where
  "paypal_inv lib web st \<longleftrightarrow>
     (\<forall>url \<in> set (fetched st). check_cert_host (bracket_ok lib) url = Inr ())
     \<and> (\<forall>url cert t. entries st url = Some (cert, t) \<longrightarrow>
          check_cert_host (bracket_ok lib) url = Inr () \<and> url \<in> set (fetched st) \<and> trusted_cert lib web url cert)"

lemma chain_error_None:
  "chain_error lib roots leaf rest = None \<longleftrightarrow>
     (\<exists>name names. dns_names lib leaf = Inr (name # names) \<and> server_verify lib roots name leaf rest = None)"
  by (auto simp: chain_error_def split: sum.split list.split)

lemma parse_cert_chain_Inr:
  "parse_cert_chain lib pem = Inr cert \<longleftrightarrow>
     (\<exists>rest roots. load_pem lib pem = Inr (cert # rest) \<and> trust_store lib = Inr roots \<and> chain_error lib roots cert rest = None)"
  by (auto simp: parse_cert_chain_def py_bind_eq_Inr split: sum.split list.split option.splits)

lemma parse_cert_chain_trusted:
  "parse_cert_chain lib (take CERT_MAX_BYTES content) = Inr cert \<Longrightarrow> web url content \<Longrightarrow> trusted_cert lib web url cert"
  unfolding parse_cert_chain_Inr chain_error_None trusted_cert_def CERT_MAX_BYTES_def
  by (intro exI [of _ content]) auto

lemma get_cert_inv:
  assumes "paypal_inv lib web st" "client_of web client" "get_cert lib client t0 t1 url st = (r, st')"
  shows "paypal_inv lib web st' \<and> (\<forall>cert. r = Inr cert \<longrightarrow>
     check_cert_host (bracket_ok lib) url = Inr () \<and> trusted_cert lib web url cert)"
proof (cases "cache_get st t0 url")
  case (Some cert)
  then obtain t where "entries st url = Some (cert, t)"
    by (auto simp: cache_get_def split: option.splits if_splits)
  with assms(1) have "check_cert_host (bracket_ok lib) url = Inr ()" "trusted_cert lib web url cert"
    unfolding paypal_inv_def by blast+
  with Some assms show ?thesis by (auto simp: get_cert_def)
next
  case None
  show ?thesis
  proof (cases "check_cert_host (bracket_ok lib) url")
    case (Inl e)
    with None assms show ?thesis by (auto simp: get_cert_def)
  next
    case (Inr u)
    define st1 where "st1 = st\<lparr>fetched := fetched st @ [url]\<rparr>"
    have inv1: "paypal_inv lib web st1" using assms(1) Inr by (auto simp: paypal_inv_def st1_def)
    have set_inv: "trusted_cert lib web url cert \<Longrightarrow> paypal_inv lib web (cache_set st1 t1 url cert)" for cert
      using inv1 Inr by (auto simp: paypal_inv_def st1_def cache_set_def)
    have net: "client url = Fetched 200 content \<Longrightarrow> parse_cert_chain lib (take CERT_MAX_BYTES content) = Inr cert \<Longrightarrow>
        trusted_cert lib web url cert" for content cert
      using assms(2) parse_cert_chain_trusted [of lib content cert web url] by (simp add: client_of_def)
    show ?thesis
      using assms(3) None Inr inv1 set_inv net
      by (auto simp: get_cert_def Let_def st1_def [symmetric] split: fetch_result.splits if_splits sum.splits)
  qed
qed

lemma paypal_verify_cases:
  assumes "paypal_verify lib client t0 t1 webhook_id body headers st = (r, st')"
  shows "st' = st \<and> (\<exists>m. r = Inl (VerificationErr m)) \<or>
    (\<exists>tid tt sig url algo q. headers ''paypal-transmission-id'' = Some tid
       \<and> headers ''paypal-transmission-time'' = Some tt \<and> headers ''paypal-transmission-sig'' = Some sig
       \<and> headers ''paypal-cert-url'' = Some url \<and> get_cert lib client t0 t1 url st = (q, st')
       \<and> (r = Inr () \<longrightarrow> (\<exists>cert. q = Inr cert \<and> is_rsa lib (public_key lib cert)
            \<and> verify_signature lib (public_key lib cert) tid tt webhook_id body sig = Inr ())))"
  using assms by (auto simp: paypal_verify_def Let_def not_absent split: if_splits prod.splits sum.splits)

lemma paypal_reachable_inv: "paypal_reachable lib web webhook_id st \<Longrightarrow> paypal_inv lib web st"
proof (induction rule: paypal_reachable.induct)
  case start
  then show ?case by (simp add: paypal_inv_def fresh_state_def)
next
  case (request st client t0 t1 body headers)
  obtain r st' where v: "paypal_verify lib client t0 t1 webhook_id body headers st = (r, st')" by fastforce
  with paypal_verify_cases [OF v] request.IH get_cert_inv [OF _ request.hyps(2)] show ?case by fastforce
qed

lemma verify_signature_iff:
  "verify_signature lib key tid tt wid body sig = Inr () \<longleftrightarrow>
     (\<exists>signature. b64decode_strict sig = Some signature \<and> rsa_ok lib key signature (signed_message tid tt wid body))"
  by (auto simp: verify_signature_def split: option.splits)

text \<open>Whatever requests a PayPal verifier has seen and however the network answered, the client was
  only ever asked for URLs that pass the host pin, and a certificate is in the cache only under a URL
  that passes the pin and was fetched, and only after its chain was checked.\<close>

theorem paypal_only_pinned_urls:
  assumes "paypal_reachable lib web webhook_id st"
  shows "list_all (\<lambda>url. check_cert_host (bracket_ok lib) url = Inr ()) (fetched st)
    \<and> (entries st url = Some (cert, t) \<longrightarrow> url \<in> set (fetched st) \<and> trusted_cert lib web url cert)"
  using paypal_reachable_inv [OF assms] by (auto simp: paypal_inv_def list_all_iff)

text \<open>C6: a request PayPal's verifier accepts carries a signature that the RSA key of a certificate
  verifies over PayPal's message for exactly this body and this webhook. The URL the request names passes the host pin, and the
  certificate is the first in what the network holds at that very URL (its first megabyte) and chains to a trusted root;
  this also when it comes from the cache.\<close>

theorem paypal_accepts_only_signed:
  assumes "paypal_reachable lib web webhook_id st" "client_of web client"
    and "paypal_verify lib client t0 t1 webhook_id body headers st = (Inr (), st')"
  shows "\<exists>tid tt sig url cert signature.
     headers ''paypal-transmission-id'' = Some tid \<and> headers ''paypal-transmission-time'' = Some tt
     \<and> headers ''paypal-transmission-sig'' = Some sig \<and> headers ''paypal-cert-url'' = Some url
     \<and> check_cert_host (bracket_ok lib) url = Inr () \<and> trusted_cert lib web url cert
     \<and> is_rsa lib (public_key lib cert) \<and> b64decode_strict sig = Some signature
     \<and> rsa_ok lib (public_key lib cert) signature (signed_message tid tt webhook_id body)"
  using paypal_verify_cases [OF assms(3)] get_cert_inv [OF paypal_reachable_inv [OF assms(1)] assms(2)]
  by (simp add: verify_signature_iff) metis

text \<open>A certificate fetched successfully is served from the cache, with no further request, until an
  hour after the fetch, and not beyond.\<close>

theorem paypal_cert_cached:
  assumes "get_cert lib client t0 t1 url st = (Inr cert, st')" "fetched st' \<noteq> fetched st"
  shows "(t \<le> t1 + CERT_TTL \<longrightarrow> get_cert lib client' t t' url st' = (Inr cert, st'))
    \<and> (t1 + CERT_TTL < t \<longrightarrow> fetched (snd (get_cert lib client' t t' url st')) = fetched st' @ [url])"
proof -
  have e: "entries st' url = Some (cert, t1)"
    using assms by (auto simp: get_cert_def Let_def cache_set_def
        split: option.splits sum.splits fetch_result.splits if_splits)
  have h: "check_cert_host (bracket_ok lib) url = Inr ()"
    using assms by (auto simp: get_cert_def split: option.splits sum.splits)
  have "t \<le> t1 + CERT_TTL \<Longrightarrow> cache_get st' t url = Some cert"
    "t1 + CERT_TTL < t \<Longrightarrow> cache_get st' t url = None" using e by (simp_all add: cache_get_def)
  then show ?thesis
    using h by (auto simp: get_cert_def Let_def cache_set_def split: fetch_result.splits sum.splits)
qed

text \<open>A library, a client and a request on which the three properties are not vacuous.\<close>

definition paypal_sample_lib :: "(nat, nat) crypto_lib" where
  "paypal_sample_lib = \<lparr>certifi_bundle = Inr [], load_pem = (\<lambda>_. Inr [7, 8]), store_error = (\<lambda>_. None), dns_names = (\<lambda>_. Inr [''api.paypal.com'']),
     server_verify = (\<lambda>roots name leaf rest. if leaf = 7 \<and> rest = [8] then None else Some ''bad''),
     public_key = (\<lambda>c. c + 1), is_rsa = (\<lambda>k. k = 8), rsa_ok = (\<lambda>k s m. s = [0, 0, 0]), bracket_ok = (\<lambda>_. True)\<rparr>"

definition paypal_sample_url :: pystr where
  "paypal_sample_url = url_of ''https'' None ''api.paypal.com'' None ''/cert.pem''"

definition paypal_sample_headers :: headers where
  "paypal_sample_headers =
     [''paypal-transmission-id'' \<mapsto> ''id'', ''paypal-transmission-time'' \<mapsto> ''now'',
      ''paypal-transmission-sig'' \<mapsto> ''AAAA'', ''paypal-cert-url'' \<mapsto> paypal_sample_url,
      ''paypal-auth-algo'' \<mapsto> ''SHA256withRSA'']"

definition paypal_sample_state :: "nat paypal_state" where
  "paypal_sample_state = \<lparr>entries = [paypal_sample_url \<mapsto> (7, 5)], fetched = [paypal_sample_url]\<rparr>"

lemma paypal_sample_pin: "check_cert_host (\<lambda>_. True) paypal_sample_url = Inr ()"
proof -
  have "check_cert_host (\<lambda>_. True) (url_of ''https'' None ''api.paypal.com'' None ''/cert.pem'') = Inr () \<longleftrightarrow>
      host_allowed (py_lower ''api.paypal.com'') CERT_HOST_ALLOWLIST"
    using url_of_parts [of "''https''" None "''api.paypal.com''" None "''/cert.pem''" "\<lambda>_. True"]
    by (auto simp: authority_part_def no_controls_def check_cert_host_iff lower_https)
  then show ?thesis
    by (simp add: paypal_sample_url_def py_lower_def lower_char_def in_range_def CERT_HOST_ALLOWLIST_def endswith_def)
qed

lemma paypal_sample_get:
  "get_cert paypal_sample_lib (\<lambda>_. Fetched 200 [1]) 0 5 paypal_sample_url fresh_state = (Inr 7, paypal_sample_state)"
  using paypal_sample_pin
  by (simp add: get_cert_def cache_get_def fresh_state_def paypal_sample_lib_def Let_def parse_cert_chain_def
        trust_store_def chain_error_def cache_set_def paypal_sample_state_def)

lemma paypal_sample_verify:
  "paypal_verify paypal_sample_lib (\<lambda>_. Fetched 200 [1]) 0 5 ''WH'' [0x7B] paypal_sample_headers fresh_state
     = (Inr (), paypal_sample_state)"
proof -
  have "paypal_sample_url \<noteq> []" by (simp add: paypal_sample_url_def url_of_def)
  moreover have "b64decode_strict ''AAAA'' = Some [0, 0, 0]"
    by (simp add: b64decode_strict_def is_ascii_def in_range_def b64_val_def)
  ultimately show ?thesis
    by (simp add: paypal_verify_def paypal_sample_headers_def Let_def paypal_sample_get verify_signature_def AUTH_ALGO_def)
       (simp add: paypal_sample_lib_def)
qed

definition paypal_sample_web :: web where
  "paypal_sample_web url content \<longleftrightarrow> content = [1]"

lemma paypal_sample_client: "client_of paypal_sample_web (\<lambda>_. Fetched 200 [1])"
  by (simp add: client_of_def paypal_sample_web_def)

lemma paypal_sample_reachable: "paypal_reachable paypal_sample_lib paypal_sample_web ''WH'' paypal_sample_state"
  using paypal_reachable.request [OF paypal_reachable.start paypal_sample_client, of paypal_sample_lib "''WH''" 0 5]
    paypal_sample_verify by (metis snd_conv)

theorem paypal_only_pinned_urls_witness:
  "check_cert_host (\<lambda>_. True) paypal_sample_url = Inr () \<and> trusted_cert paypal_sample_lib paypal_sample_web paypal_sample_url 7"
  using paypal_only_pinned_urls [OF paypal_sample_reachable, of paypal_sample_url 7 5]
  by (simp add: paypal_sample_state_def paypal_sample_lib_def)

theorem paypal_accepts_only_signed_witness:
  "\<exists>signature. b64decode_strict ''AAAA'' = Some signature \<and>
     rsa_ok paypal_sample_lib 8 signature (signed_message ''id'' ''now'' ''WH'' [0x7B])"
proof -
  have "is_rsa paypal_sample_lib (public_key paypal_sample_lib c) \<Longrightarrow> public_key paypal_sample_lib c = 8" for c
    by (simp add: paypal_sample_lib_def)
  then show ?thesis
    using paypal_accepts_only_signed [OF paypal_reachable.start paypal_sample_client paypal_sample_verify]
    by (auto simp: paypal_sample_headers_def)
qed

theorem paypal_cert_cached_witness:
  "get_cert paypal_sample_lib (\<lambda>_. FetchHTTPError ''down'') 3600000005 0 paypal_sample_url paypal_sample_state = (Inr 7, paypal_sample_state)"
  using paypal_cert_cached [OF paypal_sample_get, of 3600000005 "\<lambda>_. FetchHTTPError ''down''" 0]
  by (simp add: paypal_sample_state_def fresh_state_def CERT_TTL_def)

end
