(* ===== verification/GoDuration.thy ===== *)
theory GoDuration
  imports StdCrypto
begin

text \<open>
  \<open>hookguard_core/goduration.py\<close>: Go's duration syntax. The input ranges over all of Unicode
  here (a list of code points), because two of the unit names and the regular expression's
  \<open>\d\<close> are not ASCII. \<open>parse_go_duration_ns\<close> is the exact parser, \<open>parse_go_duration\<close> its
  truncation to microseconds; the loop is \<open>go_loop\<close>, which consumes at least the unit's name
  in every round. The second half gives the language of the loop as data (\<open>render\<close>) and shows that the
  parser accepts exactly it; \<open>GoGrammar\<close> compares that language with Go's.
\<close>

section \<open>Decimal digits\<close>

text \<open>The zeros of the decimal digit ranges (general category Nd) of Unicode 15.0, the version of
  Python 3.12: what \<open>\d\<close> matches and what \<open>int\<close> reads.\<close>

definition nd_zeros :: "int list" where
  "nd_zeros =
     [0x0030, 0x0660, 0x06F0, 0x07C0, 0x0966, 0x09E6, 0x0A66, 0x0AE6,
      0x0B66, 0x0BE6, 0x0C66, 0x0CE6, 0x0D66, 0x0DE6, 0x0E50, 0x0ED0,
      0x0F20, 0x1040, 0x1090, 0x17E0, 0x1810, 0x1946, 0x19D0, 0x1A80,
      0x1A90, 0x1B50, 0x1BB0, 0x1C40, 0x1C50, 0xA620, 0xA8D0, 0xA900,
      0xA9D0, 0xA9F0, 0xAA50, 0xABF0, 0xFF10, 0x104A0, 0x10D30, 0x11066,
      0x110F0, 0x11136, 0x111D0, 0x112F0, 0x11450, 0x114D0, 0x11650, 0x116C0,
      0x11730, 0x118E0, 0x11950, 0x11C50, 0x11D50, 0x11DA0, 0x11F50, 0x16A60,
      0x16AC0, 0x16B50, 0x1D7CE, 0x1D7D8, 0x1D7E2, 0x1D7EC, 0x1D7F6, 0x1E140,
      0x1E2F0, 0x1E4F0, 0x1E950, 0x1FBF0]"

definition is_dec :: "int \<Rightarrow> bool" where
  "is_dec c \<longleftrightarrow> list_ex (\<lambda>z. z \<le> c \<and> c < z + 10) nd_zeros"

definition dec_val :: "int \<Rightarrow> int" where
  "dec_val c = (case find (\<lambda>z. z \<le> c \<and> c < z + 10) nd_zeros of None \<Rightarrow> 0 | Some z \<Rightarrow> c - z)"

definition int_of_decs :: "codepoints \<Rightarrow> int" where
  "int_of_decs ds = foldl (\<lambda>a c. 10 * a + dec_val c) 0 ds"

section \<open>The parser\<close>

text \<open>What the parser raises. \<open>IntDigits\<close> is the plain \<open>ValueError\<close> of \<open>int\<close> on more
  digits than CPython converts; the others are \<open>GoDurationError\<close>.\<close>

datatype go_error = InvalidDuration | MissingUnit | UnknownUnit | Overflow | IntDigits

definition cps :: "pystr \<Rightarrow> codepoints" where
  "cps s = map of_char s"

definition unit_table :: "(codepoints \<times> int) list" where
  "unit_table =
     [(cps ''ns'', 1), (cps ''us'', 1000), ([0xB5, 0x73], 1000), ([0x3BC, 0x73], 1000),
      (cps ''ms'', 1000000), (cps ''s'', 1000000000), (cps ''m'', 60 * 1000000000),
      (cps ''h'', 3600 * 1000000000)]"

definition INT64_MAX :: int where
  "INT64_MAX = 2 ^ 63 - 1"

definition INT64_MIN :: int where
  "INT64_MIN = - (2 ^ 63)"

definition cp_startswith :: "codepoints \<Rightarrow> codepoints \<Rightarrow> bool" where
  "cp_startswith s p \<longleftrightarrow> take (length p) s = p"

text \<open>The match of \<open>\A(\d*)(?:\.(\d*))?\<close>: whole part, fraction, what follows.\<close>

definition scan_number :: "codepoints \<Rightarrow> codepoints \<times> codepoints \<times> codepoints" where
  "scan_number s =
     (let whole = takeWhile is_dec s; r = dropWhile is_dec s in
      case r of
        c # t \<Rightarrow> if c = 0x2E then (whole, takeWhile is_dec t, dropWhile is_dec t) else (whole, [], r)
      | [] \<Rightarrow> (whole, [], r))"

definition scan_unit :: "codepoints \<Rightarrow> (codepoints \<times> int) option" where
  "scan_unit s = find (\<lambda>(u, _). cp_startswith s u) unit_table"

text \<open>\<open>int(whole or "0")\<close>.\<close>

definition int_of_run :: "codepoints \<Rightarrow> go_error + int" where
  "int_of_run ds = (if max_str_digits < length ds then Inl IntDigits else Inr (int_of_decs ds))"

definition term_value :: "codepoints \<Rightarrow> codepoints \<Rightarrow> int \<Rightarrow> go_error + int" where
  "term_value whole frac scale =
     (case int_of_run whole of
        Inl e \<Rightarrow> Inl e
      | Inr w \<Rightarrow>
          if frac = [] then Inr (w * scale)
          else case int_of_run frac of
                 Inl e \<Rightarrow> Inl e
               | Inr f \<Rightarrow> Inr (w * scale + f * scale div 10 ^ length frac))"

lemma scan_number_length:
  assumes "scan_number s = (w, f, r)"
  shows "length r \<le> length s"
proof (cases "dropWhile is_dec s")
  case Nil
  with assms show ?thesis by (simp add: scan_number_def)
next
  case (Cons c t)
  have "length (dropWhile is_dec s) \<le> length s" "length (dropWhile is_dec t) \<le> length t"
    by (rule length_dropWhile_le)+
  with Cons assms show ?thesis
    by (auto simp: scan_number_def Let_def length_dropWhile_le le_trans [OF length_dropWhile_le] split: if_splits)
qed

lemma unit_table_nonempty: "(u, k) \<in> set unit_table \<Longrightarrow> 0 < length u \<and> 0 < k"
  by (auto simp: unit_table_def cps_def)

lemma scan_unit_Some:
  "scan_unit s = Some (u, k) \<Longrightarrow> (u, k) \<in> set unit_table \<and> cp_startswith s u"
  by (auto simp: scan_unit_def find_Some_iff) (metis nth_mem)

lemma go_step_shorter:
  assumes "scan_number s = (w, f, s1)" "scan_unit s1 = Some (u, k)"
  shows "length (drop (length u) s1) < length s"
proof -
  have "0 < length u" "cp_startswith s1 u" using scan_unit_Some [OF assms(2)] unit_table_nonempty by auto
  then have "0 < length s1" "0 < length u" by (cases s1; auto simp: cp_startswith_def)+
  with scan_number_length [OF assms(1)] show ?thesis unfolding length_drop by linarith
qed

function go_loop :: "int \<Rightarrow> codepoints \<Rightarrow> go_error + int" where
  "go_loop acc s =
     (if s = [] then Inr acc
      else case scan_number s of (whole, frac, s1) \<Rightarrow>
        if whole = [] \<and> frac = [] then Inl InvalidDuration
        else case scan_unit s1 of
          None \<Rightarrow> Inl (if s1 = [] then MissingUnit else UnknownUnit)
        | Some (u, scale) \<Rightarrow>
            case term_value whole frac scale of
              Inl e \<Rightarrow> Inl e
            | Inr v \<Rightarrow>
                if INT64_MAX < acc + v then Inl Overflow
                else go_loop (acc + v) (drop (length u) s1))"
  by pat_completeness auto
termination
  by (relation "measure (\<lambda>(acc, s). length s)")
     (auto dest: go_step_shorter [OF sym] go_step_shorter simp del: length_drop)

declare go_loop.simps [simp del]

definition parse_go_duration_ns :: "codepoints \<Rightarrow> go_error + int" where
  "parse_go_duration_ns orig =
     (let signed = (case orig of c # _ \<Rightarrow> c = 0x2B \<or> c = 0x2D | [] \<Rightarrow> False);
          neg = (case orig of c # _ \<Rightarrow> c = 0x2D | [] \<Rightarrow> False);
          s = (if signed then tl orig else orig)
      in if s = [0x30] then Inr 0
         else if s = [] then Inl InvalidDuration
         else case go_loop 0 s of
                Inl e \<Rightarrow> Inl e
              | Inr acc \<Rightarrow>
                  let result = (if neg then - acc else acc) in
                  if \<not> (INT64_MIN \<le> result \<and> result \<le> INT64_MAX) then Inl Overflow else Inr result)"

text \<open>A \<open>timedelta\<close> of whole microseconds, truncated towards zero.\<close>

definition truncate_us :: "int \<Rightarrow> usec" where
  "truncate_us ns = (let us = \<bar>ns\<bar> div 1000 in if ns < 0 then - us else us)"

definition parse_go_duration :: "codepoints \<Rightarrow> go_error + usec" where
  "parse_go_duration s =
     (case parse_go_duration_ns s of Inl e \<Rightarrow> Inl e | Inr ns \<Rightarrow> Inr (truncate_us ns))"

text \<open>The exception as the callers see it, with the message Python formats.\<close>

definition go_exn :: "pystr \<Rightarrow> go_error \<Rightarrow> pyexn" where
  "go_exn orig e =
     (case e of
        InvalidDuration \<Rightarrow> GoDurationErr (''invalid duration '' @ py_repr orig)
      | MissingUnit \<Rightarrow> GoDurationErr (''missing unit in duration '' @ py_repr orig)
      | UnknownUnit \<Rightarrow> GoDurationErr (''missing or unknown unit in duration '' @ py_repr orig)
      | Overflow \<Rightarrow> GoDurationErr (''duration '' @ py_repr orig @ '' overflows int64 nanoseconds'')
      | IntDigits \<Rightarrow> ValueErr ''Exceeds the limit (4300 digits) for integer string conversion'')"

definition parse_duration_str :: "pystr \<Rightarrow> usec py" where
  "parse_duration_str s =
     (case parse_go_duration (cps s) of Inl e \<Rightarrow> Inl (go_exn s e) | Inr d \<Rightarrow> Inr d)"

section \<open>The grammar\<close>

text \<open>A term is a number and a unit: whole part, fraction (with its point) if any, unit name.\<close>

type_synonym go_term = "codepoints \<times> codepoints option \<times> codepoints"

fun render_term :: "go_term \<Rightarrow> codepoints" where
  "render_term (w, None, u) = w @ u"
| "render_term (w, Some f, u) = w @ [0x2E] @ f @ u"

definition unit_scale :: "codepoints \<Rightarrow> int" where
  "unit_scale u = (case map_of unit_table u of None \<Rightarrow> 0 | Some k \<Rightarrow> k)"

fun frac_digits :: "codepoints option \<Rightarrow> codepoints" where
  "frac_digits None = []"
| "frac_digits (Some f) = f"

fun wf_term :: "go_term \<Rightarrow> bool" where
  "wf_term (w, f, u) \<longleftrightarrow>
     list_all is_dec w \<and> list_all is_dec (frac_digits f) \<and> (w \<noteq> [] \<or> frac_digits f \<noteq> [])
     \<and> length w \<le> max_str_digits \<and> length (frac_digits f) \<le> max_str_digits
     \<and> u \<in> fst ` set unit_table"

fun term_ns :: "go_term \<Rightarrow> int" where
  "term_ns (w, f, u) =
     int_of_decs w * unit_scale u
     + (if frac_digits f = [] then 0
        else int_of_decs (frac_digits f) * unit_scale u div 10 ^ length (frac_digits f))"

definition render :: "go_term list \<Rightarrow> codepoints" where
  "render ts = concat (map render_term ts)"

definition total_ns :: "go_term list \<Rightarrow> int" where
  "total_ns ts = sum_list (map term_ns ts)"

text \<open>What may follow a term: nothing, a digit or a point.\<close>

definition number_start :: "codepoints \<Rightarrow> bool" where
  "number_start s \<longleftrightarrow> (case s of [] \<Rightarrow> True | c # _ \<Rightarrow> is_dec c \<or> c = 0x2E)"

lemma point_not_dec [simp]: "\<not> is_dec 0x2E"
  by (simp add: is_dec_def nd_zeros_def)

lemma dec_val_nonneg: "0 \<le> dec_val c"
  by (auto simp: dec_val_def find_Some_iff split: option.splits)

lemma int_of_decs_nonneg: "0 \<le> int_of_decs ds"
proof -
  have "0 \<le> a \<Longrightarrow> 0 \<le> foldl (\<lambda>a c. 10 * a + dec_val c) a ds" for a
    by (induction ds arbitrary: a) (simp_all add: dec_val_nonneg)
  then show ?thesis by (simp add: int_of_decs_def)
qed

lemma unit_cases:
  assumes "u \<in> fst ` set unit_table"
  shows "u \<in> {[110, 115], [117, 115], [181, 115], [956, 115], [109, 115], [115], [109], [104]}"
  using assms by (auto simp: unit_table_def cps_def)

lemma unit_hd: "u \<in> fst ` set unit_table \<Longrightarrow> u \<noteq> [] \<and> \<not> is_dec (hd u) \<and> hd u \<noteq> 0x2E"
  by (drule unit_cases) (auto simp: is_dec_def nd_zeros_def)

lemma s_not_number: "number_start r \<Longrightarrow> take 1 r \<noteq> [115]"
  by (cases r) (auto simp: number_start_def is_dec_def nd_zeros_def)

lemma scan_unit_render:
  assumes "u \<in> fst ` set unit_table" "number_start r"
  shows "scan_unit (u @ r) = Some (u, unit_scale u)"
  using unit_cases [OF assms(1)] s_not_number [OF assms(2)]
  by (auto simp: scan_unit_def unit_scale_def unit_table_def cps_def cp_startswith_def)

lemma takeWhile_run: "list_all P w \<Longrightarrow> r = [] \<or> \<not> P (hd r) \<Longrightarrow> takeWhile P (w @ r) = w"
  by (induction w) (auto, cases r, auto)

lemma dropWhile_run: "list_all P w \<Longrightarrow> r = [] \<or> \<not> P (hd r) \<Longrightarrow> dropWhile P (w @ r) = r"
  by (induction w) (auto, cases r, auto)

lemma scan_number_render:
  assumes "wf_term (w, f, u)"
  shows "scan_number (render_term (w, f, u) @ r) = (w, frac_digits f, u @ r)"
proof -
  have u: "u \<noteq> []" "\<not> is_dec (hd (u @ r))" "hd (u @ r) \<noteq> 0x2E" using assms unit_hd by auto
  have w: "list_all is_dec w" "list_all is_dec (frac_digits f)" using assms by auto
  show ?thesis
  proof (cases f)
    case None
    obtain c t where ct: "u @ r = c # t" using u by (cases "u @ r") auto
    with None u w show ?thesis
      by (simp add: scan_number_def takeWhile_run dropWhile_run)
  next
    case (Some d)
    with u w show ?thesis
      by (simp add: scan_number_def takeWhile_run dropWhile_run)
  qed
qed

lemma unit_scale_pos: "u \<in> fst ` set unit_table \<Longrightarrow> 0 < unit_scale u"
  by (drule unit_cases) (auto simp: unit_scale_def unit_table_def cps_def)

lemma term_ns_nonneg: "wf_term t \<Longrightarrow> 0 \<le> term_ns t"
  using unit_scale_pos [of "snd (snd t)"]
  by (cases t) (auto simp: int_of_decs_nonneg intro!: add_nonneg_nonneg pos_imp_zdiv_nonneg_iff [THEN iffD2])

lemma total_ns_nonneg: "list_all wf_term ts \<Longrightarrow> 0 \<le> total_ns ts"
  by (induction ts) (auto simp: total_ns_def term_ns_nonneg)

lemma term_value_render: "wf_term (w, f, u) \<Longrightarrow>
    term_value w (frac_digits f) (unit_scale u) = Inr (term_ns (w, f, u))"
  by (auto simp: term_value_def int_of_run_def)

lemma number_start_render: "list_all wf_term ts \<Longrightarrow> number_start (render ts)"
proof (cases ts)
  case (Cons t ts')
  assume "list_all wf_term ts"
  moreover obtain w f u where "t = (w, f, u)" by (cases t)
  ultimately show ?thesis
    using Cons by (cases w; cases f) (auto simp: render_def number_start_def)
qed (simp add: render_def number_start_def)

lemma go_loop_step:
  assumes "wf_term t" "number_start r"
  shows "go_loop acc (render_term t @ r) =
     (if INT64_MAX < acc + term_ns t then Inl Overflow else go_loop (acc + term_ns t) r)"
proof -
  obtain w f u where t: "t = (w, f, u)" by (cases t)
  have nonempty: "render_term t @ r \<noteq> []" "w \<noteq> [] \<or> frac_digits f \<noteq> []"
    using assms(1) unit_hd by (cases f; auto simp: t)+
  have "scan_unit (u @ r) = Some (u, unit_scale u)" using assms by (auto simp: t intro: scan_unit_render)
  with nonempty assms(1) show ?thesis
    by (subst go_loop.simps) (auto simp: t scan_number_render term_value_render)
qed

text \<open>Soundness and the value: a rendered list of terms parses to the sum of its terms.\<close>

lemma go_loop_render:
  assumes "list_all wf_term ts" "acc \<le> INT64_MAX"
  shows "go_loop acc (render ts) =
     (if INT64_MAX < acc + total_ns ts then Inl Overflow else Inr (acc + total_ns ts))"
  using assms
proof (induction ts arbitrary: acc)
  case Nil
  then show ?case by (subst go_loop.simps) (simp add: render_def total_ns_def)
next
  case (Cons t ts)
  then have wf: "wf_term t" "number_start (render ts)" "0 \<le> total_ns ts"
    by (auto simp: number_start_render total_ns_nonneg)
  have "go_loop acc (render (t # ts)) = go_loop acc (render_term t @ render ts)"
    by (simp add: render_def)
  with wf Cons show ?case by (auto simp: go_loop_step total_ns_def)
qed

lemma scan_number_Some:
  assumes "scan_number s = (w, d, r)"
  shows "\<exists>f. s = render_term (w, f, r) \<and> d = frac_digits f \<and> list_all is_dec w \<and> list_all is_dec d"
proof -
  have w: "list_all is_dec (takeWhile is_dec x)" for x by (auto simp: list_all_iff dest: set_takeWhileD)
  have s: "s = takeWhile is_dec s @ dropWhile is_dec s" by simp
  show ?thesis
  proof (cases "\<exists>t. dropWhile is_dec s = 0x2E # t")
    case True
    then obtain t where t: "dropWhile is_dec s = 0x2E # t" by blast
    then have p: "w = takeWhile is_dec s" "d = takeWhile is_dec t" "r = dropWhile is_dec t"
      using assms by (auto simp: scan_number_def)
    have "s = w @ 0x2E # d @ r" using s t p takeWhile_dropWhile_id by metis
    then have "s = render_term (w, Some d, r)" and "list_all is_dec w" "list_all is_dec d"
      using p w by auto
    then show ?thesis by (intro exI [of _ "Some d"]) simp
  next
    case False
    then have "s = render_term (w, None, r)" "d = []" "list_all is_dec w"
      using assms w s by (auto simp: scan_number_def Let_def split: list.splits if_splits)
    then show ?thesis by (intro exI [of _ None]) simp
  qed
qed

text \<open>Completeness: whatever the loop accepts is a rendered list of terms.\<close>

lemma go_loop_complete:
  "go_loop acc s = Inr v \<Longrightarrow> \<exists>ts. list_all wf_term ts \<and> s = render ts"
proof (induction acc s arbitrary: v rule: go_loop.induct)
  case (1 acc s)
  show ?case
  proof (cases "s = []")
    case True
    then have "list_all wf_term [] \<and> s = render []" by (simp add: render_def)
    then show ?thesis by blast
  next
    case False
    obtain w d s1 where sn: "scan_number s = (w, d, s1)" by (cases "scan_number s")
    then obtain f where f: "s = render_term (w, f, s1)" "d = frac_digits f"
      "list_all is_dec w" "list_all is_dec d" using scan_number_Some by blast
    have parts: "\<not> (w = [] \<and> d = [])"
      using 1(2) False sn by (subst (asm) go_loop.simps) auto
    with 1(2) False sn obtain u k x where u: "scan_unit s1 = Some (u, k)"
      and x: "term_value w d k = Inr x" and le: "\<not> INT64_MAX < acc + x"
      and rest: "go_loop (acc + x) (drop (length u) s1) = Inr v"
      by (subst (asm) go_loop.simps) (auto split: option.splits sum.splits if_splits)
    obtain ts where ts: "list_all wf_term ts" "drop (length u) s1 = render ts"
      using 1(1) [OF False sn [symmetric] refl parts u refl x le rest] by blast
    have uk: "(u, k) \<in> set unit_table" "take (length u) s1 = u"
      using scan_unit_Some [OF u] by (auto simp: cp_startswith_def)
    have s1: "s1 = u @ render ts" using uk(2) ts(2) append_take_drop_id [of "length u" s1] by simp
    have mem: "u \<in> fst ` set unit_table" using image_eqI [OF _ uk(1), of u fst] by simp
    have "wf_term (w, f, u)"
      using f parts mem x by (auto simp: term_value_def int_of_run_def split: if_splits sum.splits)
    moreover have "s = render ((w, f, u) # ts)"
      using f(1) s1 by (cases f) (simp_all add: render_def)
    ultimately show ?thesis using ts(1) by (intro exI [of _ "(w, f, u) # ts"]) simp
  qed
qed

section \<open>What the parser accepts\<close>

text \<open>The value of an unsigned body: the bare \<open>"0"\<close>, or a non-empty list of terms whose sum
  is a signed 64-bit count of nanoseconds.\<close>

inductive go_body :: "codepoints \<Rightarrow> int \<Rightarrow> bool" where
  bare_zero: "go_body [0x30] 0"
| terms: "ts \<noteq> [] \<Longrightarrow> list_all wf_term ts \<Longrightarrow> total_ns ts \<le> INT64_MAX \<Longrightarrow> go_body (render ts) (total_ns ts)"

text \<open>A duration: a body with no sign, or with one.\<close>

inductive go_duration :: "codepoints \<Rightarrow> int \<Rightarrow> bool" where
  unsigned: "go_body s v \<Longrightarrow> go_duration s v"
| plus: "go_body s v \<Longrightarrow> go_duration (0x2B # s) v"
| minus: "go_body s v \<Longrightarrow> go_duration (0x2D # s) (- v)"

inductive_cases go_body_elim: "go_body s v"
inductive_cases go_duration_elim: "go_duration s v"

definition parse_body :: "codepoints \<Rightarrow> go_error + int" where
  "parse_body s = (if s = [0x30] then Inr 0 else if s = [] then Inl InvalidDuration else go_loop 0 s)"

lemma go_loop_unit_zero: "go_loop 0 [0x30] = Inl MissingUnit"
  by (subst go_loop.simps)
     (simp add: scan_number_def scan_unit_def unit_table_def cps_def cp_startswith_def is_dec_def nd_zeros_def)

lemma render_nonempty: "ts \<noteq> [] \<Longrightarrow> list_all wf_term ts \<Longrightarrow> render ts \<noteq> []"
  using unit_hd by (cases ts; cases "hd ts"; cases "fst (snd (hd ts))") (auto simp: render_def)

lemma parse_body_iff: "parse_body s = Inr v \<longleftrightarrow> go_body s v"
proof
  assume v: "parse_body s = Inr v"
  show "go_body s v"
  proof (cases "s = [0x30]")
    case True
    with v show ?thesis by (simp add: parse_body_def bare_zero)
  next
    case False
    with v have s: "s \<noteq> []" "go_loop 0 s = Inr v" by (auto simp: parse_body_def split: if_splits)
    then obtain ts where ts: "list_all wf_term ts" "s = render ts" using go_loop_complete by blast
    with s have "v = total_ns ts" "total_ns ts \<le> INT64_MAX" "ts \<noteq> []"
      using go_loop_render [OF ts(1), of 0] by (auto simp: INT64_MAX_def render_def split: if_splits)
    with ts show ?thesis by (auto intro: terms)
  qed
next
  assume "go_body s v"
  then show "parse_body s = Inr v"
  proof (cases rule: go_body.cases)
    case bare_zero
    then show ?thesis by (simp add: parse_body_def)
  next
    case (terms ts)
    then have "go_loop 0 s = Inr v" using go_loop_render [of ts 0] by (simp add: INT64_MAX_def)
    moreover from this have "s \<noteq> [0x30]" using go_loop_unit_zero by auto
    ultimately show ?thesis using terms render_nonempty by (simp add: parse_body_def)
  qed
qed

lemma go_body_range: "go_body s v \<Longrightarrow> 0 \<le> v \<and> v \<le> INT64_MAX"
  by (auto elim!: go_body_elim simp: total_ns_nonneg INT64_MAX_def)

lemma go_body_head: "go_body s v \<Longrightarrow> s \<noteq> [] \<and> hd s \<noteq> 0x2B \<and> hd s \<noteq> 0x2D"
proof (erule go_body_elim)
  fix ts assume ts: "s = render ts" "ts \<noteq> []" "list_all wf_term ts"
  then have "s \<noteq> []" "number_start s" using render_nonempty number_start_render by auto
  then show ?thesis by (cases s) (auto simp: number_start_def is_dec_def nd_zeros_def)
qed auto

lemma parse_ns_body:
  "parse_go_duration_ns (0x2B # s) = parse_body s"
  "parse_go_duration_ns (0x2D # s) = (case parse_body s of Inl e \<Rightarrow> Inl e | Inr v \<Rightarrow> Inr (- v))"
  "s = [] \<or> (hd s \<noteq> 0x2B \<and> hd s \<noteq> 0x2D) \<Longrightarrow> parse_go_duration_ns s = parse_body s"
proof -
  have r: "go_body t v \<Longrightarrow> INT64_MIN \<le> v \<and> v \<le> INT64_MAX \<and> INT64_MIN \<le> - v \<and> - v \<le> INT64_MAX" for t v
    using go_body_range [of t v] by (auto simp: INT64_MAX_def INT64_MIN_def)
  have g: "t \<noteq> [0x30] \<Longrightarrow> t \<noteq> [] \<Longrightarrow> go_loop 0 t = Inr v \<Longrightarrow> go_body t v" for t v
    using parse_body_iff [of t v] by (simp add: parse_body_def)
  show "parse_go_duration_ns (0x2B # s) = parse_body s"
    using r [OF g [of s]] by (auto simp: parse_go_duration_ns_def parse_body_def Let_def split: sum.split)
  show "parse_go_duration_ns (0x2D # s) = (case parse_body s of Inl e \<Rightarrow> Inl e | Inr v \<Rightarrow> Inr (- v))"
    using r [OF g [of s]] by (auto simp: parse_go_duration_ns_def parse_body_def Let_def split: sum.split)
  show "s = [] \<or> (hd s \<noteq> 0x2B \<and> hd s \<noteq> 0x2D) \<Longrightarrow> parse_go_duration_ns s = parse_body s"
    using r [OF g [of s]]
    by (cases s) (auto simp: parse_go_duration_ns_def parse_body_def Let_def split: sum.split)
qed

lemma parse_ns_iff: "parse_go_duration_ns s = Inr v \<longleftrightarrow> go_duration s v"
proof (cases "s = [] \<or> (hd s \<noteq> 0x2B \<and> hd s \<noteq> 0x2D)")
  case True
  then show ?thesis
    by (auto simp: parse_ns_body(3) parse_body_iff intro: unsigned elim: go_duration_elim)
next
  case False
  then obtain t where "s = 0x2B # t \<or> s = 0x2D # t" by (cases s) auto
  then show ?thesis
    by (auto simp: parse_ns_body parse_body_iff minus plus split: sum.splits elim!: go_duration_elim
             dest: go_body_head)
       (metis Inl_Inr_False parse_body_iff sum.inject(2))+
qed

text \<open>The \<open>timedelta\<close> is the nanosecond value truncated towards zero: it is off by less than one
  microsecond, never larger in magnitude, and zero exactly below one microsecond. The least signed
  64-bit integer is never returned.\<close>

theorem parse_go_duration_truncates:
  "parse_go_duration s = Inr us \<longleftrightarrow>
     (\<exists>ns. go_duration s ns \<and> \<bar>ns\<bar> \<le> INT64_MAX \<and> \<bar>1000 * us\<bar> \<le> \<bar>ns\<bar> \<and> \<bar>ns\<bar> - \<bar>1000 * us\<bar> < 1000 \<and> 0 \<le> us * ns)"
proof -
  have range: "go_duration s ns \<Longrightarrow> \<bar>ns\<bar> \<le> INT64_MAX" for ns
    by (auto elim!: go_duration_elim dest!: go_body_range)
  have trunc: "truncate_us ns = us \<longleftrightarrow>
      \<bar>1000 * us\<bar> \<le> \<bar>ns\<bar> \<and> \<bar>ns\<bar> - \<bar>1000 * us\<bar> < 1000 \<and> 0 \<le> us * ns" for ns
  proof (cases "ns < 0")
    case True
    then show ?thesis by (auto simp: truncate_us_def Let_def zero_le_mult_iff)
  next
    case False
    then show ?thesis by (auto simp: truncate_us_def Let_def zero_le_mult_iff)
  qed
  have "parse_go_duration s = Inr us \<longleftrightarrow> (\<exists>ns. go_duration s ns \<and> truncate_us ns = us)"
    unfolding parse_go_duration_def parse_ns_iff [symmetric] by (auto split: sum.splits)
  with range trunc show ?thesis by blast
qed

section \<open>Where the parser and Go part\<close>

text \<open>Go reads ASCII digits and returns the least \<open>int64\<close>; the module's documentation says whatever Go
  rejects is an error. \<open>\d\<close> and \<open>int\<close> read every decimal digit of Unicode.\<close>

lemma unicode_digits_accepted: "parse_go_duration_ns [0x665, 0x6D] = Inr 300000000000"
proof -
  have "go_loop 0 [0x665, 0x6D] = Inr 300000000000"
    by (simp add: go_loop.simps scan_number_def scan_unit_def unit_table_def cps_def cp_startswith_def
          term_value_def int_of_run_def int_of_decs_def dec_val_def max_str_digits_def is_dec_def
          nd_zeros_def INT64_MAX_def)
  then show ?thesis by (simp add: parse_go_duration_ns_def INT64_MIN_def INT64_MAX_def)
qed

lemma int64_min_never_returned: "parse_go_duration_ns s \<noteq> Inr INT64_MIN"
proof
  assume "parse_go_duration_ns s = Inr INT64_MIN"
  then have "go_duration s INT64_MIN" by (simp add: parse_ns_iff)
  then show False
    by (auto elim!: go_duration_elim dest!: go_body_range simp: INT64_MIN_def INT64_MAX_def)
qed

text \<open>A digit run above the interpreter's limit escapes as a plain \<open>ValueError\<close>, which is not the
  parser's own \<open>GoDurationError\<close>.\<close>

lemma long_run_plain_error:
  assumes w: "list_all is_dec w" "max_str_digits < length w" and u: "u \<in> fst ` set unit_table"
  shows "parse_go_duration_ns (w @ u) = Inl IntDigits"
proof -
  have ne: "w \<noteq> []" "is_dec (hd w)" using w by (cases w; simp)+
  have "scan_number (w @ u) = (w, [], u)"
    using w unit_hd [OF u] by (cases u) (simp_all add: scan_number_def takeWhile_run dropWhile_run)
  moreover have "scan_unit u = Some (u, unit_scale u)"
    using scan_unit_render [OF u, of "[]"] by (simp add: number_start_def)
  ultimately have loop: "go_loop 0 (w @ u) = Inl IntDigits"
    using ne w by (subst go_loop.simps) (simp add: term_value_def int_of_run_def)
  have "hd (w @ u) \<noteq> 0x2B \<and> hd (w @ u) \<noteq> 0x2D"
    using ne by (cases w) (auto simp: is_dec_def nd_zeros_def)
  then have "parse_go_duration_ns (w @ u) = parse_body (w @ u)" by (simp add: parse_ns_body)
  moreover have "w @ u \<noteq> [0x30]" using ne unit_hd [OF u] by (cases w) (auto simp: neq_Nil_conv)
  ultimately show ?thesis using loop ne by (simp add: parse_body_def)
qed

end
