(* ===== verification/VerifierRegistry.thy ===== *)
theory VerifierRegistry
  imports ProviderHmac ProviderStripe ProviderPaypal GoDuration
begin

text \<open>
  \<open>hookguard_gateway/verifier.py\<close> and the factories of the four provider modules: the registry that
  importing the package fills, \<open>build_verifier\<close>, and the verifier a route ends up with. A verifier is
  the dataclass its factory builds, with its state where it has one (PayPal's cache).
\<close>

datatype verifier =
    GitHubVerifier bytes
  | ShopifyVerifier bytes
  | StripeVerifier bytes usec
  | PayPalVerifier pystr

type_synonym factory = "Route \<Rightarrow> pystr \<Rightarrow> verifier py"
type_synonym registry = "pystr \<rightharpoonup> factory"

definition build_github :: factory where
  "build_github route secret =
     (if secret = [] then Inl (ValueErr ''empty secret'') else Inr (GitHubVerifier (encode_utf8 secret)))"

definition build_shopify :: factory where
  "build_shopify route secret =
     (if secret = [] then Inl (ValueErr ''empty secret'') else Inr (ShopifyVerifier (encode_utf8 secret)))"

definition build_stripe :: factory where
  "build_stripe route secret =
     (if secret = [] then Inl (ValueErr ''empty secret'')
      else case (if route_replay_window route = [] then Inr 0
                 else parse_duration_str (route_replay_window route)) of
             Inl (GoDurationErr m) \<Rightarrow> Inl (ValueErr (''replay_window: '' @ m))
           | Inl e \<Rightarrow> Inl e
           | Inr window \<Rightarrow> Inr (StripeVerifier (encode_utf8 secret) window))"

definition build_paypal :: factory where
  "build_paypal route secret =
     (if route_webhook_id route = [] then Inl (ValueErr ''missing webhook_id'')
      else Inr (PayPalVerifier (route_webhook_id route)))"

definition register_provider :: "pystr \<Rightarrow> factory \<Rightarrow> registry \<Rightarrow> registry py" where
  "register_provider name factory reg =
     (case reg name of
        Some _ \<Rightarrow> Inl (ValueErr (''duplicate provider registration: '' @ name))
      | None \<Rightarrow> Inr (reg(name \<mapsto> factory)))"

text \<open>Importing \<open>providers\<close>: its four modules, in the order \<open>__init__\<close> names them.\<close>

definition import_providers :: "registry \<Rightarrow> registry py" where
  "import_providers reg =
     py_bind (register_provider ''github'' build_github reg) (\<lambda>reg.
     py_bind (register_provider ''paypal'' build_paypal reg) (\<lambda>reg.
     py_bind (register_provider ''shopify'' build_shopify reg) (\<lambda>reg.
     register_provider ''stripe'' build_stripe reg)))"

definition REGISTRY :: registry where
  "REGISTRY = (case import_providers Map.empty of Inl _ \<Rightarrow> Map.empty | Inr reg \<Rightarrow> reg)"

definition known_providers :: "registry \<Rightarrow> pystr set" where
  "known_providers reg = dom reg"

definition build_verifier :: "registry \<Rightarrow> Route \<Rightarrow> pystr \<Rightarrow> verifier py" where
  "build_verifier reg route secret =
     (case reg (route_provider route) of
        None \<Rightarrow> Inl (ValueErr (''unknown provider '' @ py_repr (route_provider route)))
      | Some factory \<Rightarrow> factory route secret)"

section \<open>Calling a verifier\<close>

text \<open>What a call of \<open>verify\<close> finds outside the verifier: the clock of the handler, PayPal's own
  clock readings, and the client's answers.\<close>

record verify_env =
  env_now :: usec
  env_t0 :: usec
  env_t1 :: usec
  env_client :: "pystr \<Rightarrow> fetch_result"

definition run_verify ::
  "('cert, 'key) crypto_lib \<Rightarrow> verify_env \<Rightarrow> verifier \<Rightarrow> bytes \<Rightarrow> headers \<Rightarrow> 'cert paypal_state
     \<Rightarrow> unit py \<times> 'cert paypal_state" where
  "run_verify lib env v body headers st =
     (case v of
        GitHubVerifier secret \<Rightarrow> (github_verify secret body headers, st)
      | ShopifyVerifier secret \<Rightarrow> (shopify_verify secret body headers, st)
      | StripeVerifier secret window \<Rightarrow> (stripe_verify secret window body headers (env_now env), st)
      | PayPalVerifier webhook_id \<Rightarrow>
          paypal_verify lib (env_client env) (env_t0 env) (env_t1 env) webhook_id body headers st)"

section \<open>The registry\<close>

lemma import_providers_ok:
  "import_providers Map.empty = Inr [''github'' \<mapsto> build_github, ''paypal'' \<mapsto> build_paypal,
     ''shopify'' \<mapsto> build_shopify, ''stripe'' \<mapsto> build_stripe]"
  by (simp add: import_providers_def register_provider_def)

lemma REGISTRY_lookup [simp]:
  "REGISTRY ''github'' = Some build_github" "REGISTRY ''paypal'' = Some build_paypal"
  "REGISTRY ''shopify'' = Some build_shopify" "REGISTRY ''stripe'' = Some build_stripe"
  by (simp_all add: REGISTRY_def import_providers_ok)

lemma known_providers_REGISTRY:
  "known_providers REGISTRY = {''github'', ''paypal'', ''shopify'', ''stripe''}"
  by (auto simp: known_providers_def REGISTRY_def import_providers_ok)

lemma register_provider_keeps:
  "register_provider name f reg = Inr reg' \<Longrightarrow> reg \<subseteq>\<^sub>m reg' \<and> dom reg' = insert name (dom reg)"
  by (auto simp: register_provider_def map_le_def split: option.splits)

text \<open>Importing twice is the duplicate registration the decorator refuses.\<close>

lemma import_twice: "import_providers REGISTRY = Inl (ValueErr ''duplicate provider registration: github'')"
  by (simp add: import_providers_def register_provider_def)

lemma build_stripe_iff: "build_stripe route secret = Inr v \<longleftrightarrow>
    secret \<noteq> [] \<and> (\<exists>w. v = StripeVerifier (encode_utf8 secret) w \<and>
      (if route_replay_window route = [] then w = 0 else parse_duration_str (route_replay_window route) = Inr w))"
  by (auto simp: build_stripe_def split: sum.splits pyexn.splits if_splits)

lemma parse_duration_errors: "parse_duration_str s = Inl e \<Longrightarrow> is_value_error e"
  by (auto simp: parse_duration_str_def go_exn_def split: sum.splits go_error.splits)

text \<open>What the factories require of a route, and what they build.\<close>

definition route_usable :: "Route \<Rightarrow> pystr \<Rightarrow> bool" where
  "route_usable route secret \<longleftrightarrow>
     (if route_provider route = ''paypal'' then route_webhook_id route \<noteq> []
      else secret \<noteq> [] \<and>
        (route_provider route = ''github'' \<or> route_provider route = ''shopify'' \<or>
         route_provider route = ''stripe'' \<and>
           (route_replay_window route = [] \<or> (\<exists>w. parse_duration_str (route_replay_window route) = Inr w))))"

lemma build_verifier_spec:
  "(returns (build_verifier REGISTRY route secret) \<longleftrightarrow> route_usable route secret)
   \<and> (case build_verifier REGISTRY route secret of Inl e \<Rightarrow> is_value_error e | Inr _ \<Rightarrow> True)"
proof (cases "route_provider route \<in> known_providers REGISTRY")
  case False
  then have "REGISTRY (route_provider route) = None" by (auto simp: known_providers_def)
  moreover have "\<not> route_usable route secret" using False
    by (auto simp: known_providers_REGISTRY route_usable_def)
  ultimately show ?thesis by (simp add: build_verifier_def)
next
  case True
  then consider "route_provider route = ''github''" | "route_provider route = ''paypal''"
    | "route_provider route = ''shopify''" | "route_provider route = ''stripe''"
    by (auto simp: known_providers_REGISTRY)
  then show ?thesis
  proof cases
    case 4
    then show ?thesis
      using parse_duration_errors [of "route_replay_window route"]
      by (cases "parse_duration_str (route_replay_window route)")
         (auto simp: build_verifier_def route_usable_def build_stripe_def split: pyexn.splits)
  qed (auto simp: build_verifier_def route_usable_def build_github_def build_paypal_def build_shopify_def)
qed

text \<open>\<open>build_verifier\<close> succeeds exactly on the routes whose provider is known and whose required
  configuration is there: a webhook id for PayPal, a non-empty secret for the others, and for Stripe a
  replay window that is empty or a valid Go duration. Every failure is a \<open>ValueError\<close>, which the
  gateway turns into a refusal to start.\<close>

theorem build_verifier_total:
  "(returns (build_verifier REGISTRY route secret) \<longleftrightarrow> route_usable route secret)
   \<and> (case build_verifier REGISTRY route secret of Inl e \<Rightarrow> is_value_error e | Inr _ \<Rightarrow> True)"
  by (rule build_verifier_spec)

text \<open>The secret a verifier holds is never empty.\<close>

lemma encode_utf8_eq_Nil [simp]: "encode_utf8 s = [] \<longleftrightarrow> s = []"
  by (cases s) (simp_all add: encode_utf8_Cons)

lemma build_verifier_secret:
  assumes "build_verifier REGISTRY route secret = Inr v"
  shows "(case v of GitHubVerifier k \<Rightarrow> k \<noteq> [] | ShopifyVerifier k \<Rightarrow> k \<noteq> []
    | StripeVerifier k _ \<Rightarrow> k \<noteq> [] | PayPalVerifier w \<Rightarrow> w \<noteq> [])"
  using assms
  by (auto simp: build_verifier_def REGISTRY_def import_providers_ok build_github_def build_shopify_def
      build_paypal_def build_stripe_iff split: option.splits if_splits)

lemma get_cert_errors:
  assumes "get_cert lib client t0 t1 url st = (Inl e, st')"
  shows "(\<exists>m. e = VerificationErr m) \<or> (\<exists>m. e = OtherErr m) \<or> (\<exists>m. e = ValueErr m)"
  using assms
  by (auto simp: get_cert_def Let_def parse_cert_chain_def trust_store_def dest: check_cert_host_errors
      split: option.splits sum.splits fetch_result.splits if_splits list.splits)

lemma paypal_verify_errors:
  assumes "paypal_verify lib client t0 t1 wid body headers st = (Inl e, st')"
  shows "(\<exists>m. e = VerificationErr m) \<or> (\<exists>m. e = OtherErr m) \<or> (\<exists>m. e = ValueErr m)"
proof -
  have v: "verify_signature lib k tid tt wid body sig = Inl e \<Longrightarrow> \<exists>m. e = VerificationErr m" for k tid tt sig
    by (auto simp: verify_signature_def split: option.splits if_splits)
  show ?thesis
    using assms by (auto simp: paypal_verify_def Let_def split: if_splits prod.splits sum.splits dest: v get_cert_errors)
qed

end
