(* ===== verification/CoreEvents.thy ===== *)
theory CoreEvents
  imports PyText
begin

text \<open>
  \<open>hookguard_core/events.py\<close>: the verdict event and its wire form. A timestamp is a number of
  microseconds since the epoch, in UTC; \<open>format_timestamp\<close> prints it as \<open>datetime.isoformat\<close>
  does with \<open>Z\<close> for the offset, and \<open>to_json_bytes\<close> is \<open>json.dumps\<close> with compact
  separators, which escapes everything outside printable ASCII.
\<close>

section \<open>The event\<close>

record VerifyEvent =
  ev_timestamp :: usec
  ev_path :: pystr
  ev_provider :: pystr
  ev_verdict :: pystr
  ev_reason :: pystr
  ev_upstream_status :: int
  ev_latency_ms :: int
  ev_body_bytes :: int
  ev_body_sha256 :: pystr
  ev_remote_ip :: pystr

definition INGEST_PROVIDER_LABEL :: pystr where
  "INGEST_PROVIDER_LABEL = ''console-ingest''"

section \<open>Timestamps\<close>

text \<open>The calendar of \<open>datetime\<close>: day number (day 0 is 1 January of year 1) to year, month and
  day, in cycles of 400, 100, 4 and 1 years.\<close>

definition is_leap :: "int \<Rightarrow> bool" where
  "is_leap y \<longleftrightarrow> y mod 4 = 0 \<and> (y mod 100 \<noteq> 0 \<or> y mod 400 = 0)"

definition days_before_year :: "int \<Rightarrow> int" where
  "days_before_year y = (let p = y - 1 in p * 365 + p div 4 - p div 100 + p div 400)"

definition days_in_month :: "int \<Rightarrow> int \<Rightarrow> int" where
  "days_in_month y m =
     (if m = 2 then (if is_leap y then 29 else 28) else if m \<in> {4, 6, 9, 11} then 30 else 31)"

definition days_before_month :: "int \<Rightarrow> int \<Rightarrow> int" where
  "days_before_month y m = sum_list (map (days_in_month y) [1 .. m - 1])"

definition ymd_to_days :: "int \<times> int \<times> int \<Rightarrow> int" where
  "ymd_to_days d = (case d of (y, m, d) \<Rightarrow> days_before_year y + days_before_month y m + (d - 1))"

text \<open>The month a day of the year falls in, with the day within it.\<close>

definition month_day :: "int \<Rightarrow> int \<Rightarrow> int \<times> int" where
  "month_day y n =
     (let m = (case find (\<lambda>m. n < days_before_month y (m + 1)) [1 .. 11] of Some m \<Rightarrow> m | None \<Rightarrow> 12)
      in (m, n - days_before_month y m + 1))"

definition days_to_ymd :: "int \<Rightarrow> int \<times> int \<times> int" where
  "days_to_ymd n =
     (let y400 = n div 146097; n = n mod 146097;
          y100 = n div 36524; n = n mod 36524;
          y4 = n div 1461; n = n mod 1461;
          y1 = n div 365; n = n mod 365;
          year = y400 * 400 + y100 * 100 + y4 * 4 + y1 + 1
      in if y1 = 4 \<or> y100 = 4 then (year - 1, 12, 31) else (year, month_day year n))"

definition EPOCH_DAYS :: int where
  "EPOCH_DAYS = 719162"

definition DAY_US :: int where
  "DAY_US = 86400 * 1000000"

definition pad :: "nat \<Rightarrow> int \<Rightarrow> pystr" where
  "pad w n = (let s = show_nat (nat n) in replicate (w - length s) (CHR ''0'') @ s)"

definition format_timestamp :: "usec \<Rightarrow> pystr" where
  "format_timestamp t =
     (case days_to_ymd (t div DAY_US + EPOCH_DAYS) of (y, m, d) \<Rightarrow>
        let us = t mod DAY_US; s = us div 1000000; frac = us mod 1000000 in
        pad 4 y @ ''-'' @ pad 2 m @ ''-'' @ pad 2 d @ ''T''
        @ pad 2 (s div 3600) @ '':'' @ pad 2 (s div 60 mod 60) @ '':'' @ pad 2 (s mod 60)
        @ (if frac = 0 then [] else ''.'' @ pad 6 frac) @ ''Z'')"

section \<open>JSON\<close>

datatype json =
    JNull
  | JBool bool
  | JInt int
  | JStr pystr
  | JList "json list"
  | JObj "(pystr \<times> json) list"

definition json_char :: "char \<Rightarrow> pystr" where
  "json_char c =
     (if c = CHR 0x22 then [CHR 0x5C, CHR 0x22]
      else if c = CHR 0x5C then [CHR 0x5C, CHR 0x5C]
      else if c = CHR 0x0A then [CHR 0x5C, CHR ''n'']
      else if c = CHR 0x0D then [CHR 0x5C, CHR ''r'']
      else if c = CHR 0x09 then [CHR 0x5C, CHR ''t'']
      else if c = CHR 0x0C then [CHR 0x5C, CHR ''f'']
      else if c = CHR 0x08 then [CHR 0x5C, CHR ''b'']
      else if in_range 32 126 c then [c]
      else [CHR 0x5C, CHR ''u'', CHR ''0'', CHR ''0'', hex_digit (of_char c div 16), hex_digit (of_char c mod 16)])"

definition json_string :: "pystr \<Rightarrow> pystr" where
  "json_string s = [CHR 0x22] @ concat (map json_char s) @ [CHR 0x22]"

fun dumps :: "json \<Rightarrow> pystr" where
  "dumps JNull = ''null''"
| "dumps (JBool b) = (if b then ''true'' else ''false'')"
| "dumps (JInt n) = show_int n"
| "dumps (JStr s) = json_string s"
| "dumps (JList xs) = ''['' @ join_with '','' (map dumps xs) @ '']''"
| "dumps (JObj kvs) =
     CHR 0x7B # join_with '','' (map (\<lambda>(k, v). json_string k @ '':'' @ dumps v) kvs) @ [CHR 0x7D]"

definition to_json_dict :: "VerifyEvent \<Rightarrow> json" where
  "to_json_dict e = JObj
     [(''ts'', JStr (format_timestamp (ev_timestamp e))),
      (''path'', JStr (ev_path e)),
      (''provider'', JStr (ev_provider e)),
      (''verdict'', JStr (ev_verdict e)),
      (''reason'', JStr (ev_reason e)),
      (''upstream_status'', JInt (ev_upstream_status e)),
      (''latency_ms'', JInt (ev_latency_ms e)),
      (''body_bytes'', JInt (ev_body_bytes e)),
      (''body_sha256'', JStr (ev_body_sha256 e)),
      (''remote_ip'', JStr (ev_remote_ip e))]"

definition to_json_bytes :: "VerifyEvent \<Rightarrow> bytes" where
  "to_json_bytes e = encode_utf8 (dumps (to_json_dict e))"

section \<open>Facts\<close>

lemma show_nat_ascii: "list_all (in_range 32 126) (show_nat n)"
  using show_nat_digits [of n] by (auto simp: list_all_iff is_digit_def in_range_def)

lemma hex_digit_printable [simp]: "n < 16 \<Longrightarrow> in_range 32 126 (hex_digit n)"
proof (cases "n < 10")
  case True
  then have "(of_char (hex_digit n) :: nat) = 48 + n" by (simp add: hex_digit_def of_char_mod_256)
  with True show ?thesis by (simp add: in_range_def)
next
  case False
  assume "n < 16"
  then have "(of_char (hex_digit n) :: nat) = 87 + n" using False by (simp add: hex_digit_def of_char_mod_256)
  with \<open>n < 16\<close> show ?thesis by (simp add: in_range_def)
qed

lemma in_range_consts [simp]:
  "in_range 32 126 (CHR 0x22)" "in_range 32 126 (CHR 0x5C)" "in_range 32 126 (CHR ''n'')"
  "in_range 32 126 (CHR ''r'')" "in_range 32 126 (CHR ''t'')" "in_range 32 126 (CHR ''f'')"
  "in_range 32 126 (CHR ''b'')" "in_range 32 126 (CHR ''u'')" "in_range 32 126 (CHR ''0'')"
  by (simp_all add: in_range_def)

lemma in_range_sep: "in_range 32 126 (CHR '':'')" "in_range 32 126 (CHR '','')"
  by (simp_all add: in_range_def)

lemma json_char_printable: "list_all (in_range 32 126) (json_char c)"
proof -
  have "(of_char c :: nat) < 256" by simp
  then have "of_char c div 16 < (16 :: nat)" "of_char c mod 16 < (16 :: nat)"
    by (simp_all add: less_mult_imp_div_less)
  then show ?thesis by (simp add: json_char_def)
qed

lemma json_string_printable: "list_all (in_range 32 126) (json_string s)"
  using json_char_printable by (auto simp: json_string_def list_all_iff)

lemma join_with_all: "list_all P sep \<Longrightarrow> \<forall>p \<in> set ps. list_all P p \<Longrightarrow> list_all P (join_with sep ps)"
  by (induction sep ps rule: join_with.induct) auto

text \<open>The payload is printable ASCII whatever the header values in the event.\<close>

lemma dumps_printable: "list_all (in_range 32 126) (dumps j)"
proof (induction j)
  case (JInt n)
  have "in_range 32 126 (CHR ''-'')" by (simp add: in_range_def)
  then show ?case using show_nat_ascii by (simp add: show_int_def)
next
  case (JList xs)
  have "list_all (in_range 32 126) (join_with '','' (map dumps xs))"
    using JList in_range_sep by (intro join_with_all) auto
  then show ?case by (simp add: in_range_def list_all_iff)
next
  case (JObj kvs)
  have v: "(k, v) \<in> set kvs \<Longrightarrow> list_all (in_range 32 126) (dumps v)" for k v using JObj by fastforce
  have "list_all (in_range 32 126) (join_with '','' (map (\<lambda>(k, v). json_string k @ '':'' @ dumps v) kvs))"
    using in_range_sep json_string_printable v by (intro join_with_all) auto
  then show ?case by (simp add: in_range_def list_all_iff)
next
  case (JBool b)
  then show ?case by (cases b) (simp_all add: in_range_def)
qed (simp_all add: json_string_printable, simp_all add: in_range_def)

end
