(* ===== verification/DropOldest.thy ===== *)
theory DropOldest
  imports Prelude
begin

text \<open>
  The bounded queue of \<open>asyncio\<close> and the enqueue both services put in front of it: try, and when
  the queue is full take the oldest entry out and try again. The gateway's emitter
  (\<open>emitter.py _emit\<close>) and the console's batcher (\<open>batcher.py enqueue\<close>) are the two users; what
  they promise is the contract \<open>drop_oldest\<close>.
\<close>

section \<open>The queue\<close>

text \<open>\<open>None\<close> stands for \<open>QueueFull\<close> and \<open>QueueEmpty\<close>.\<close>

definition put_nowait :: "nat \<Rightarrow> 'a list \<Rightarrow> 'a \<Rightarrow> 'a list option" where
  "put_nowait maxsize q x = (if 0 < maxsize \<and> maxsize \<le> length q then None else Some (q @ [x]))"

definition get_nowait :: "'a list \<Rightarrow> ('a \<times> 'a list) option" where
  "get_nowait q = (case q of [] \<Rightarrow> None | x # q' \<Rightarrow> Some (x, q'))"

definition put_dropping :: "nat \<Rightarrow> 'a list \<Rightarrow> 'a \<Rightarrow> 'a list" where
  "put_dropping maxsize q x =
     (case put_nowait maxsize q x of
        Some q' \<Rightarrow> q'
      | None \<Rightarrow>
          let q1 = (case get_nowait q of Some (_, q') \<Rightarrow> q' | None \<Rightarrow> q) in
          case put_nowait maxsize q1 x of Some q' \<Rightarrow> q' | None \<Rightarrow> q1)"

section \<open>The contract\<close>

locale drop_oldest =
  fixes cap :: nat and contents :: "'q \<Rightarrow> 'a list" and push :: "'q \<Rightarrow> 'a \<Rightarrow> 'q"
  assumes cap_pos: "0 < cap"
    and push_contents: "length (contents q) \<le> cap \<Longrightarrow> contents (push q x) = last_n cap (contents q @ [x])"
begin

lemma push_bounded: "length (contents q) \<le> cap \<Longrightarrow> length (contents (push q x)) \<le> cap"
  by (simp add: push_contents)

lemma push_room: "length (contents q) < cap \<Longrightarrow> contents (push q x) = contents q @ [x]"
  by (simp add: push_contents)

lemma push_full: "length (contents q) = cap \<Longrightarrow> contents (push q x) = tl (contents q) @ [x]"
  using cap_pos by (simp add: push_contents last_n_snoc_full)

lemma push_newest: "length (contents q) \<le> cap \<Longrightarrow> contents (push q x) \<noteq> [] \<and> last (contents (push q x)) = x"
  using push_room [of q x] push_full [of q x] by (cases "length (contents q) = cap") auto

text \<open>After any number of pushes the queue holds the last \<open>cap\<close> of what it was given.\<close>

lemma push_all:
  "length (contents q) \<le> cap \<Longrightarrow> contents (foldl push q xs) = last_n cap (contents q @ xs)"
proof (induction xs arbitrary: q)
  case (Cons x xs)
  have "contents (foldl push (push q x) xs) = last_n cap (last_n cap (contents q @ [x]) @ xs)"
    using Cons push_bounded by (simp add: push_contents)
  then show ?case by (simp add: last_n_last_n_append)
qed simp

lemma push_all_bounded: "length (contents q) \<le> cap \<Longrightarrow> length (contents (foldl push q xs)) \<le> cap"
  by (simp add: push_all)

lemma nothing_dropped: "length (contents q) + length xs \<le> cap \<Longrightarrow> contents (foldl push q xs) = contents q @ xs"
  by (simp add: push_all)

end

lemma put_dropping_last_n:
  assumes "0 < n" "length q \<le> n"
  shows "put_dropping n q x = last_n n (q @ [x])"
proof (cases "length q = n")
  case True
  with assms obtain y q' where "q = y # q'" by (cases q) auto
  with True assms show ?thesis
    by (simp add: put_dropping_def put_nowait_def get_nowait_def last_n_def)
next
  case False
  with assms show ?thesis by (simp add: put_dropping_def put_nowait_def)
qed

end
