(* ===== verification/GatewaySig.thy ===== *)
theory GatewaySig
  imports StrictHex
begin

text \<open>
  \<open>hookguard_core/gatewaysig.py\<close>: the one HMAC the gateway attaches to a verified webhook, over
  \<open>"<provider>.<body>"\<close>. \<open>sign\<close> and \<open>verify\<close> are the code's two functions; \<open>verify\<close>
  returns nothing or raises.
\<close>

definition HEADER :: pystr where
  "HEADER = ''X-HookGuard-Signature''"

definition PROVIDER_HEADER :: pystr where
  "PROVIDER_HEADER = ''X-HookGuard-Provider''"

definition gs_preimage :: "pystr \<Rightarrow> bytes \<Rightarrow> bytes" where
  "gs_preimage provider body = encode_utf8 provider @ [0x2E] @ body"

definition gs_mac :: "bytes \<Rightarrow> pystr \<Rightarrow> bytes \<Rightarrow> bytes" where
  "gs_mac secret provider body = hmac_sha256 secret (gs_preimage provider body)"

definition sign :: "bytes \<Rightarrow> pystr \<Rightarrow> bytes \<Rightarrow> pystr" where
  "sign secret provider body = hex_encode (gs_mac secret provider body)"

definition verify :: "bytes \<Rightarrow> pystr \<Rightarrow> bytes \<Rightarrow> pystr \<Rightarrow> unit py" where
  "verify secret provider body sig_hex =
     (case decode_hex sig_hex of
        Inl e \<Rightarrow>
          (if is_value_error e then Inl (GatewaySignatureErr ''invalid gateway signature encoding'')
           else Inl e)
      | Inr got \<Rightarrow>
          (if \<not> compare_digest got (gs_mac secret provider body)
           then Inl (GatewaySignatureErr ''gateway signature mismatch'')
           else Inr ()))"

lemma verify_iff: "verify secret provider body s = Inr () \<longleftrightarrow> decode_hex s = Inr (gs_mac secret provider body)"
  by (auto simp: verify_def compare_digest_def split: sum.splits)

lemma verify_returns: "returns (verify secret provider body s) \<longleftrightarrow>
    decode_hex_opt s = Some (gs_mac secret provider body)"
  by (simp add: sum_unit_cases [symmetric] verify_iff decode_hex_opt_Some)

interpretation gs: tag_scheme hex_encode decode_hex_opt
    "\<lambda>(secret, provider, body). gs_mac secret provider body"
    "\<lambda>(secret, provider, body) s. returns (verify secret provider body s)"
  by unfold_locales (auto simp: verify_returns)

text \<open>Only a signature error leaves \<open>verify\<close>, with one of two messages.\<close>

lemma verify_errors:
  "verify secret provider body s = Inl e \<Longrightarrow>
     e = GatewaySignatureErr ''invalid gateway signature encoding'' \<or>
     e = GatewaySignatureErr ''gateway signature mismatch''"
  using decode_hex_error [of s] by (auto simp: verify_def split: sum.splits if_splits)

lemma verify_sign [simp]: "verify secret provider body (sign secret provider body) = Inr ()"
  by (simp add: verify_iff sign_def decode_hex_encode)

lemma verify_accepts_only_sign:
  "verify secret provider body s = Inr () \<longleftrightarrow> py_lower s = sign secret provider body"
  by (simp add: verify_iff decode_hex_iff sign_def)

section \<open>What the preimage binds\<close>

text \<open>The byte \<open>.\<close> separates the label from the body, and nothing escapes it: the preimage
  determines label and body among labels with no dot.\<close>

definition dot_free :: "pystr \<Rightarrow> bool" where
  "dot_free s \<longleftrightarrow> CHR ''.'' \<notin> set s"

lemma utf8_char_dot: "0x2E \<in> set (utf8_char c) \<longleftrightarrow> c = CHR ''.''"
proof (cases "(of_char c :: nat) < 128")
  case True
  have "(of_nat (of_char c) = (0x2E :: byte)) \<longleftrightarrow> (of_char c = (46 :: nat))"
  proof
    assume "of_nat (of_char c) = (0x2E :: byte)"
    then have "unat (of_nat (of_char c) :: byte) = unat (0x2E :: byte)" by (rule arg_cong)
    then show "of_char c = (46 :: nat)" by (simp add: unat_of_nat)
  qed simp
  moreover have "(of_char c = (46 :: nat)) \<longleftrightarrow> c = CHR ''.''"
  proof
    assume "of_char c = (46 :: nat)"
    then have "of_char c = (of_char (CHR ''.'') :: nat)" by simp
    then show "c = CHR ''.''" by (simp only: of_char_eq_iff)
  qed simp
  ultimately show ?thesis using True by (auto simp: utf8_char_def Let_def)
next
  case False
  have n: "(of_char c :: nat) < 256" by simp
  have "unat (of_nat (192 + of_char c div 64) :: byte) = 192 + of_char c div 64"
    "unat (of_nat (128 + of_char c mod 64) :: byte) = 128 + of_char c mod 64"
    using n by (intro unat_of_nat_byte; linarith)+
  moreover have "w \<noteq> 0x2E" if "128 \<le> unat w" for w :: byte using that by auto
  moreover have "(128::nat) \<le> 192 + of_char c div 64" "(128::nat) \<le> 128 + of_char c mod 64"
    by simp_all
  ultimately have "of_nat (192 + of_char c div 64) \<noteq> (0x2E :: byte)"
    "of_nat (128 + of_char c mod 64) \<noteq> (0x2E :: byte)"
    by metis+
  moreover have "c \<noteq> CHR ''.''" using False by auto
  ultimately show ?thesis using False by (auto simp: utf8_char_def Let_def simp del: of_nat_add)
qed

lemma encode_utf8_dot: "0x2E \<in> set (encode_utf8 s) \<longleftrightarrow> CHR ''.'' \<in> set s"
  using utf8_char_dot by (auto simp: encode_utf8_def)

lemma byte_of_nat_eq:
  assumes "(of_nat m :: byte) = of_nat n" "m < 256" "n < 256"
  shows "m = n"
proof -
  have "unat (of_nat m :: byte) = unat (of_nat n :: byte)" using assms(1) by (rule arg_cong)
  then show ?thesis using assms(2,3) by simp
qed

lemma utf8_char_append_eq:
  assumes "utf8_char c @ x = utf8_char d @ y"
  shows "c = d \<and> x = y"
proof -
  let ?m = "of_char c :: nat" and ?n = "of_char d :: nat"
  have m: "?m < 256" and n: "?n < 256" by simp_all
  then have q: "?m div 64 < 64" "?n div 64 < 64" by linarith+
  have hd_eq: "hd (utf8_char c) = hd (utf8_char d)"
    using assms by (metis hd_append2 utf8_char_not_Nil)
  consider (one) "?m < 128" "?n < 128" | (two) "\<not> ?m < 128" "\<not> ?n < 128"
    | (mixed) "?m < 128 \<longleftrightarrow> \<not> ?n < 128"
    by blast
  then show ?thesis
  proof cases
    case one
    then have "?m = ?n" using hd_eq m n byte_of_nat_eq [of ?m ?n] by (simp add: utf8_char_def Let_def)
    then have "c = d" by (simp only: of_char_eq_iff)
    with assms show ?thesis by simp
  next
    case two
    then have "of_nat (192 + ?m div 64) = (of_nat (192 + ?n div 64) :: byte)"
      "of_nat (128 + ?m mod 64) = (of_nat (128 + ?n mod 64) :: byte)"
      using assms by (simp_all add: utf8_char_def Let_def)
    then have "?m div 64 = ?n div 64" "?m mod 64 = ?n mod 64"
      using q byte_of_nat_eq [of "192 + ?m div 64" "192 + ?n div 64"]
        byte_of_nat_eq [of "128 + ?m mod 64" "128 + ?n mod 64"] by simp_all
    then have "?m = ?n" by (metis div_mult_mod_eq)
    then have "c = d" by (simp only: of_char_eq_iff)
    with assms show ?thesis by simp
  next
    case mixed
    then have False
      using hd_eq m n q byte_of_nat_eq [of ?m "192 + ?n div 64"] byte_of_nat_eq [of "192 + ?m div 64" ?n]
      by (cases "?m < 128") (simp_all add: utf8_char_def Let_def)
    then show ?thesis ..
  qed
qed

lemma encode_utf8_eq: "encode_utf8 s = encode_utf8 t \<Longrightarrow> s = t"
proof (induction s arbitrary: t)
  case Nil
  then show ?case by (cases t) (simp_all add: encode_utf8_Cons)
next
  case (Cons c s)
  then obtain d u where "t = d # u" by (cases t) (simp_all add: encode_utf8_Cons)
  with Cons show ?case using utf8_char_append_eq by (auto simp: encode_utf8_Cons)
qed

lemma split_at_first:
  assumes "x \<notin> set a" "x \<notin> set b" "a @ x # u = b @ x # v"
  shows "a = b \<and> u = v"
proof -
  have t: "takeWhile (\<lambda>y. y \<noteq> x) (w @ x # r) = w" if "x \<notin> set w" for w r
    using that by (induction w) auto
  have "a = b" using arg_cong [OF assms(3), of "takeWhile (\<lambda>y. y \<noteq> x)"] t assms(1,2) by simp
  with assms(3) show ?thesis by simp
qed

lemma gs_preimage_inj:
  assumes "dot_free p" "dot_free q"
  shows "gs_preimage p b = gs_preimage q b' \<longleftrightarrow> p = q \<and> b = b'"
proof
  assume "gs_preimage p b = gs_preimage q b'"
  then have "encode_utf8 p = encode_utf8 q \<and> b = b'"
    using split_at_first [of "0x2E" "encode_utf8 p" "encode_utf8 q" b b'] assms
    by (simp add: gs_preimage_def encode_utf8_dot dot_free_def)
  then show "p = q \<and> b = b'" using encode_utf8_eq by blast
qed simp

lemma gs_preimage_dotted:
  "gs_preimage (p @ ''.'' @ q) b = gs_preimage p (encode_utf8 q @ [0x2E] @ b)"
  by (simp add: gs_preimage_def encode_utf8_Cons utf8_char_def Let_def)

end
