(* ===== verification/Emitter.thy ===== *)
theory Emitter
  imports GatewayRoute CoreEvents FloatTime DropOldest GatewaySig
begin

text \<open>
  \<open>hookguard_gateway/emitter.py\<close>: the reason taxonomy, the bounded queue, and the delivery task as
  the state machine its awaits make of it. Between two awaits nothing else runs, so one step of the
  machine is the code from one await to the next. The outcome of a POST and the clock are inputs of
  the steps. The record carries two traces the code does not keep: what was recorded and what a POST
  was started for.
\<close>

section \<open>Reasons\<close>

definition classify_reason :: "pyexn option \<Rightarrow> pystr" where
  "classify_reason error =
     (case error of None \<Rightarrow> []
      | Some e \<Rightarrow>
        let msg = exn_message e in
        if contains ''missing'' msg \<and> contains ''header'' msg then ''missing header''
        else if contains ''outside replay window'' msg then ''stale timestamp''
        else if contains ''not a trusted PayPal host'' msg \<or> contains ''must be https'' msg
             \<or> contains ''invalid paypal-cert-url'' msg then ''cert host rejected''
        else if contains ''certificate chain'' msg then ''cert chain invalid''
        else if contains ''unsupported paypal-auth-algo'' msg then ''unsupported algorithm''
        else if contains ''signature mismatch'' msg \<or> contains ''no matching signature'' msg
        then ''signature mismatch''
        else if contains ''encoding'' msg \<or> contains ''malformed'' msg \<or> contains ''invalid timestamp'' msg
             \<or> contains ''parse certificate'' msg \<or> contains ''no certificate found'' msg
        then ''bad encoding''
        else ''other'')"

section \<open>The emitter\<close>

definition QUEUE_SIZE :: nat where
  "QUEUE_SIZE = 256"

definition FAILURE_LOG_INTERVAL :: usec where
  "FAILURE_LOG_INTERVAL = 60 * 1000000"

text \<open>\<open>datetime.min\<close>.\<close>

definition DATETIME_MIN :: usec where
  "DATETIME_MIN = - 62135596800 * 1000000"

text \<open>Where the task's coroutine stands: not started, waiting for an event or the stop signal, inside
  \<open>_post\<close> (the flag tells whether from the final loop), at the head of the final loop, returned,
  or dead of an exception \<open>_post\<close> let through.\<close>

datatype task = NoTask | Waiting | Posting VerifyEvent bool | Draining | Finished | Crashed

datatype post_result = PostHTTPError pystr | PostRaised | PostStatus nat

record emitter =
  em_url :: pystr
  em_secret :: bytes
  em_queue :: "VerifyEvent list"
  em_task :: task
  em_client :: bool
  em_stopping :: bool
  em_fail_count :: int
  em_last_log :: usec
  em_recorded :: "VerifyEvent list"
  em_posted :: "VerifyEvent list"

definition new_emitter :: "pystr \<Rightarrow> bytes \<Rightarrow> emitter" where
  "new_emitter url secret =
     \<lparr>em_url = url, em_secret = secret, em_queue = [], em_task = NoTask, em_client = False,
      em_stopping = False, em_fail_count = 0, em_last_log = DATETIME_MIN, em_recorded = [], em_posted = []\<rparr>"

definition enabled :: "emitter \<Rightarrow> bool" where
  "enabled em \<longleftrightarrow> em_url em \<noteq> []"

definition start :: "emitter \<Rightarrow> emitter" where
  "start em = (if \<not> enabled em \<or> em_task em \<noteq> NoTask then em else em\<lparr>em_client := True, em_task := Waiting\<rparr>)"

definition emit :: "emitter \<Rightarrow> VerifyEvent \<Rightarrow> emitter" where
  "emit em event =
     em\<lparr>em_queue := put_dropping QUEUE_SIZE (em_queue em) event, em_recorded := em_recorded em @ [event]\<rparr>"

definition make_event :: "usec \<Rightarrow> Route \<Rightarrow> bytes \<Rightarrow> pystr \<Rightarrow> pystr \<Rightarrow> pystr \<Rightarrow> int \<Rightarrow> usec \<Rightarrow> VerifyEvent" where
  "make_event now route body ip verdict reason upstream_status latency =
     \<lparr>ev_timestamp = now, ev_path = route_path route, ev_provider = route_provider route,
      ev_verdict = verdict, ev_reason = reason, ev_upstream_status = upstream_status,
      ev_latency_ms = millis latency, ev_body_bytes = int (length body),
      ev_body_sha256 = hex_encode (sha256 body), ev_remote_ip = ip\<rparr>"

text \<open>\<open>EventEmitter.record\<close>; \<open>client_host\<close> is \<open>request.client\<close>.\<close>

definition remote_ip :: "pystr option \<Rightarrow> pystr" where
  "remote_ip client_host = (case client_host of None \<Rightarrow> [] | Some host \<Rightarrow> host)"

definition record_event ::
  "emitter \<Rightarrow> usec \<Rightarrow> Route \<Rightarrow> bytes \<Rightarrow> pystr option \<Rightarrow> pystr \<Rightarrow> pystr \<Rightarrow> int \<Rightarrow> usec \<Rightarrow> emitter" where
  "record_event em now route body client_host verdict reason upstream_status latency =
     (if \<not> enabled em then em
      else emit em (make_event now route body (remote_ip client_host) verdict reason upstream_status latency))"

text \<open>\<open>_log_failure\<close>, with the count it logs if it logs.\<close>

definition log_failure :: "usec \<Rightarrow> emitter \<Rightarrow> emitter \<times> int option" where
  "log_failure now em =
     (let em = em\<lparr>em_fail_count := em_fail_count em + 1\<rparr> in
      if now - em_last_log em < FAILURE_LOG_INTERVAL then (em, None)
      else (em\<lparr>em_fail_count := 0, em_last_log := now\<rparr>, Some (em_fail_count em)))"

text \<open>The request \<open>_post\<close> sends.\<close>

definition post_request :: "emitter \<Rightarrow> VerifyEvent \<Rightarrow> pystr \<times> bytes \<times> (pystr \<times> pystr) list" where
  "post_request em event =
     (let payload = to_json_bytes event in
      (em_url em, payload,
       [(''Content-Type'', ''application/json''),
        (PROVIDER_HEADER, INGEST_PROVIDER_LABEL),
        (HEADER, sign (em_secret em) INGEST_PROVIDER_LABEL payload)]))"

text \<open>What follows the POST, up to the next await.\<close>

definition post_done :: "usec \<Rightarrow> post_result \<Rightarrow> bool \<Rightarrow> emitter \<Rightarrow> emitter" where
  "post_done now r draining em =
     (case r of
        PostRaised \<Rightarrow> em\<lparr>em_task := Crashed\<rparr>
      | PostHTTPError _ \<Rightarrow> (fst (log_failure now em))\<lparr>em_task := if draining then Draining else Waiting\<rparr>
      | PostStatus code \<Rightarrow>
          (if 300 \<le> code then fst (log_failure now em) else em)
            \<lparr>em_task := if draining then Draining else Waiting\<rparr>)"

definition take_event :: "bool \<Rightarrow> emitter \<Rightarrow> emitter" where
  "take_event draining em =
     (case em_queue em of [] \<Rightarrow> em
      | e # q \<Rightarrow> em\<lparr>em_queue := q, em_task := Posting e draining, em_posted := em_posted em @ [e]\<rparr>)"

text \<open>One step of \<open>_run\<close>: \<open>None\<close> when it stays suspended. With an event in the queue the getter
  is done, whether or not the stop signal is set.\<close>

definition task_step :: "usec \<Rightarrow> post_result \<Rightarrow> emitter \<Rightarrow> emitter option" where
  "task_step now r em =
     (case em_task em of
        NoTask \<Rightarrow> None
      | Waiting \<Rightarrow>
          if em_queue em \<noteq> [] then Some (take_event False em)
          else if em_stopping em then Some (em\<lparr>em_task := Draining\<rparr>) else None
      | Posting e draining \<Rightarrow> Some (post_done now r draining em)
      | Draining \<Rightarrow>
          if em_queue em \<noteq> [] then Some (take_event True em) else Some (em\<lparr>em_task := Finished\<rparr>)
      | Finished \<Rightarrow> None
      | Crashed \<Rightarrow> None)"

definition aclose_begin :: "emitter \<Rightarrow> emitter" where
  "aclose_begin em = (if em_task em = NoTask then em\<lparr>em_client := False\<rparr> else em\<lparr>em_stopping := True\<rparr>)"

definition aclose_end :: "emitter \<Rightarrow> emitter option" where
  "aclose_end em =
     (if em_task em = Finished then Some (em\<lparr>em_task := NoTask, em_client := False\<rparr>) else None)"

inductive emitter_step :: "emitter \<Rightarrow> emitter \<Rightarrow> bool" where
  records: "emitter_step em (record_event em now route body ip verdict reason status latency)"
| starts: "emitter_step em (start em)"
| task: "task_step now r em = Some em' \<Longrightarrow> emitter_step em em'"
| stop: "emitter_step em (aclose_begin em)"
| closed: "aclose_end em = Some em' \<Longrightarrow> emitter_step em em'"

inductive emitter_reachable :: "emitter \<Rightarrow> bool" where
  new: "emitter_reachable (new_emitter url secret)"
| step: "emitter_reachable em \<Longrightarrow> emitter_step em em' \<Longrightarrow> emitter_reachable em'"

inductive_cases emitter_step_elim: "emitter_step em em'"

section \<open>The queue keeps the newest events\<close>

interpretation emitter_queue: drop_oldest QUEUE_SIZE em_queue emit
  by unfold_locales (simp_all add: QUEUE_SIZE_def emit_def put_dropping_last_n)

definition emitter_inv :: "emitter \<Rightarrow> bool" where
  "emitter_inv em \<longleftrightarrow>
     length (em_queue em) \<le> QUEUE_SIZE
     \<and> subseq (em_posted em @ em_queue em) (em_recorded em)
     \<and> suffix (em_queue em) (em_recorded em)
     \<and> (length (em_recorded em) \<le> QUEUE_SIZE \<longrightarrow> em_posted em @ em_queue em = em_recorded em)"

lemma subseq_snoc3: "subseq (p @ q) r \<Longrightarrow> subseq (p @ q @ [x]) (r @ [x])"
  unfolding append_assoc [symmetric] by (rule subseq_append [THEN iffD2])

lemma emit_inv [inv_intros]:
  assumes "emitter_inv em"
  shows "emitter_inv (emit em ev)"
proof -
  let ?q = "em_queue em" and ?p = "em_posted em" and ?r = "em_recorded em"
  have inv: "length ?q \<le> QUEUE_SIZE" "subseq (?p @ ?q) ?r" "suffix ?q ?r"
    "length ?r \<le> QUEUE_SIZE \<Longrightarrow> ?p @ ?q = ?r"
    using assms by (auto simp: emitter_inv_def)
  have keep: "em_posted (emit em ev) = ?p" "em_recorded (emit em ev) = ?r @ [ev]" by (simp_all add: emit_def)
  show ?thesis
  proof (cases "length ?q = QUEUE_SIZE")
    case False
    with inv(1) have q: "em_queue (emit em ev) = ?q @ [ev]" by (simp add: emitter_queue.push_room)
    show ?thesis using False inv subseq_snoc3 [OF inv(2)] by (auto simp: emitter_inv_def keep q)
  next
    case True
    have q: "em_queue (emit em ev) = tl ?q @ [ev]" by (rule emitter_queue.push_full [OF True])
    have "subseq (?p @ tl ?q) (?p @ ?q)"
      unfolding subseq_append' by (rule suffix_imp_subseq) simp
    then have "subseq (?p @ tl ?q) ?r" using inv(2) subseq_order.trans by blast
    then have "subseq (?p @ tl ?q @ [ev]) (?r @ [ev])" by (rule subseq_snoc3)
    moreover have "suffix (tl ?q) ?r" using inv(3) suffix_tl suffix_order.trans by blast
    moreover have "length ?q \<le> length ?r" using inv(3) by (rule suffix_length_le)
    moreover have "length (tl ?q @ [ev]) \<le> QUEUE_SIZE" using True by (simp add: QUEUE_SIZE_def)
    ultimately show ?thesis using True by (auto simp: emitter_inv_def keep q)
  qed
qed

lemma record_event_inv [inv_intros]: "emitter_inv em \<Longrightarrow>
    emitter_inv (record_event em now route body ip verdict reason status latency)"
  by (simp add: record_event_def emit_inv)

lemma take_event_inv [inv_intros]: "emitter_inv em \<Longrightarrow> emitter_inv (take_event d em)"
  by (auto simp: take_event_def emitter_inv_def dest: suffix_ConsD split: list.splits)

lemma log_failure_fields [simp]:
  "em_queue (fst (log_failure now em)) = em_queue em"
  "em_posted (fst (log_failure now em)) = em_posted em"
  "em_recorded (fst (log_failure now em)) = em_recorded em"
  "em_stopping (fst (log_failure now em)) = em_stopping em"
  "em_url (fst (log_failure now em)) = em_url em"
  by (simp_all add: log_failure_def Let_def)

lemma post_done_fields [simp]:
  "em_queue (post_done now r d em) = em_queue em"
  "em_posted (post_done now r d em) = em_posted em"
  "em_recorded (post_done now r d em) = em_recorded em"
  "em_stopping (post_done now r d em) = em_stopping em"
  "em_task (post_done now r d em) = (if r = PostRaised then Crashed else if d then Draining else Waiting)"
  by (simp_all add: post_done_def split: post_result.split)

lemma task_step_inv [inv_intros]: "task_step now r em = Some em' \<Longrightarrow> emitter_inv em \<Longrightarrow> emitter_inv em'"
  by (auto simp: task_step_def take_event_inv split: task.splits if_splits)
     (auto simp: emitter_inv_def)

lemma emitter_step_inv: "emitter_step em em' \<Longrightarrow> emitter_inv em \<Longrightarrow> emitter_inv em'"
proof (induction rule: emitter_step.induct)
  case (task now r em em')
  then show ?case by (rule task_step_inv)
next
  case (records em now route body ip verdict reason status latency)
  then show ?case by (rule record_event_inv)
qed (auto simp: start_def aclose_begin_def aclose_end_def emitter_inv_def split: if_splits)

lemma emitter_reachable_inv: "emitter_reachable em \<Longrightarrow> emitter_inv em"
  by (induction rule: emitter_reachable.induct)
     (auto simp: emitter_inv_def new_emitter_def dest: emitter_step_inv [unfolded emitter_inv_def])

text \<open>C20: whatever the interleaving of requests, deliveries, failures and shutdown, the emitter never
  holds more than 256 events; what it has started to deliver, followed by what it holds, is a
  subsequence of what was recorded (nothing is duplicated, invented or reordered); what it holds are
  the most recent events; and as long as at most 256 events have been recorded, none is lost.\<close>

theorem emitter_delivers_in_order:
  assumes "emitter_reachable em"
  shows "length (em_queue em) \<le> 256 \<and> subseq (em_posted em @ em_queue em) (em_recorded em)
    \<and> suffix (em_queue em) (em_recorded em)
    \<and> (length (em_recorded em) \<le> 256 \<longrightarrow> em_posted em @ em_queue em = em_recorded em)"
  using emitter_reachable_inv [OF assms] by (simp add: emitter_inv_def QUEUE_SIZE_def)

section \<open>Shutdown\<close>

text \<open>The task left to itself: clock readings and POST outcomes for its steps.\<close>

fun run_task :: "(usec \<times> post_result) list \<Rightarrow> emitter \<Rightarrow> emitter" where
  "run_task [] em = em"
| "run_task ((now, r) # rs) em = (case task_step now r em of None \<Rightarrow> em | Some em' \<Rightarrow> run_task rs em')"

definition live :: "task \<Rightarrow> bool" where
  "live t \<longleftrightarrow> t \<notin> {NoTask, Finished, Crashed}"

text \<open>An upper bound of the steps left.\<close>

definition steps_left :: "emitter \<Rightarrow> nat" where
  "steps_left em = 2 * length (em_queue em)
     + (case em_task em of Waiting \<Rightarrow> 2 | Posting _ d \<Rightarrow> if d then 2 else 3 | Draining \<Rightarrow> 1 | _ \<Rightarrow> 0)"

lemma task_step_live:
  assumes "live (em_task em)" "em_stopping em" "r \<noteq> PostRaised"
  shows "\<exists>em'. task_step now r em = Some em' \<and> em_stopping em'
    \<and> em_posted em' @ em_queue em' = em_posted em @ em_queue em
    \<and> (live (em_task em') \<or> em_task em' = Finished \<and> em_queue em' = [])
    \<and> steps_left em' < steps_left em"
  using assms
  by (cases "em_task em"; cases "em_queue em")
     (auto simp: task_step_def take_event_def live_def steps_left_def)

lemma run_task_finishes:
  assumes "live (em_task em)" "em_stopping em" "\<forall>(now, r) \<in> set rs. r \<noteq> PostRaised" "steps_left em \<le> length rs"
  shows "em_task (run_task rs em) = Finished \<and> em_queue (run_task rs em) = []
    \<and> em_posted (run_task rs em) = em_posted em @ em_queue em"
  using assms
proof (induction rs arbitrary: em)
  case Nil
  then have "\<not> live (em_task em)" by (auto simp: steps_left_def live_def split: task.splits if_splits)
  with Nil show ?case by blast
next
  case (Cons x rs)
  obtain now r where x: "x = (now, r)" by fastforce
  with Cons.prems have r: "r \<noteq> PostRaised" by auto
  obtain em' where em': "task_step now r em = Some em'" "em_stopping em'"
    "em_posted em' @ em_queue em' = em_posted em @ em_queue em"
    "live (em_task em') \<or> em_task em' = Finished \<and> em_queue em' = []" "steps_left em' < steps_left em"
    using task_step_live [OF Cons.prems(1,2) r, of now] by blast
  show ?case
  proof (cases "live (em_task em')")
    case True
    have "steps_left em' \<le> length rs" using em'(5) Cons.prems(4) by simp
    then show ?thesis using Cons.IH [OF True em'(2)] Cons.prems(3) em'(1,3) by (simp add: x)
  next
    case False
    with em' have "run_task rs em' = em'" by (cases rs) (auto simp: task_step_def)
    with False em' show ?thesis by (auto simp: x)
  qed
qed

text \<open>C21: shutdown delivers what is queued. Once the stop signal is set, and as long as a POST fails
  at most with an HTTP error, the delivery task returns after at most \<open>2 n + 3\<close> of its own steps with
  \<open>n\<close> events queued, having started a POST for every queued event, in order.\<close>

theorem emitter_shutdown_drains:
  assumes "em_stopping em" "em_task em \<notin> {NoTask, Finished, Crashed}"
    and "\<forall>(now, r) \<in> set rs. r \<noteq> PostRaised" "2 * length (em_queue em) + 3 \<le> length rs"
  shows "em_task (run_task rs em) = Finished \<and> em_queue (run_task rs em) = []
    \<and> em_posted (run_task rs em) = em_posted em @ em_queue em"
proof -
  have "steps_left em \<le> length rs" using assms(4) by (auto simp: steps_left_def split: task.splits)
  with assms run_task_finishes show ?thesis by (simp add: live_def)
qed

section \<open>Witnesses, logging, classification\<close>

definition sample_event :: VerifyEvent where
  "sample_event = make_event 0 default_route [] [] ''accepted'' [] 200 0"

definition sample_emitter :: emitter where
  "sample_emitter = aclose_begin (emit (start (new_emitter ''http://console'' [1])) sample_event)"

lemma sample_emitter_reachable: "emitter_reachable sample_emitter"
proof -
  let ?e = "new_emitter ''http://console'' [1]"
  have r: "record_event (start ?e) 0 default_route [] None ''accepted'' [] 200 0 = emit (start ?e) sample_event"
    by (simp add: record_event_def start_def enabled_def new_emitter_def sample_event_def remote_ip_def)
  have e1: "emitter_reachable (start ?e)"
    by (rule emitter_reachable.step [OF emitter_reachable.new emitter_step.starts])
  have "emitter_step (start ?e) (emit (start ?e) sample_event)"
    unfolding r [symmetric] by (rule emitter_step.records)
  with e1 have "emitter_reachable (emit (start ?e) sample_event)" by (rule emitter_reachable.step)
  then show ?thesis unfolding sample_emitter_def by (rule emitter_reachable.step [OF _ emitter_step.stop])
qed

theorem emitter_delivers_in_order_witness:
  "length (em_queue sample_emitter) \<le> 256 \<and> em_posted sample_emitter @ em_queue sample_emitter = [sample_event]"
  using emitter_delivers_in_order [OF sample_emitter_reachable]
  by (simp add: sample_emitter_def aclose_begin_def emit_def start_def enabled_def new_emitter_def)

theorem emitter_shutdown_drains_witness:
  "em_posted (run_task (replicate 5 (0, PostStatus 202)) sample_emitter) = [sample_event]"
  using emitter_shutdown_drains [of sample_emitter "replicate 5 (0, PostStatus 202)"]
  by (simp add: sample_emitter_def aclose_begin_def emit_def start_def enabled_def new_emitter_def
      put_dropping_def put_nowait_def QUEUE_SIZE_def)

text \<open>The log of delivery failures: failures at the given times, with the time and count of each line.\<close>

fun log_failures :: "usec list \<Rightarrow> emitter \<Rightarrow> emitter \<times> (usec \<times> int) list" where
  "log_failures [] em = (em, [])"
| "log_failures (now # ts) em =
     (case log_failure now em of (em1, out) \<Rightarrow>
      case log_failures ts em1 of (em2, lines) \<Rightarrow>
        (em2, (case out of None \<Rightarrow> [] | Some n \<Rightarrow> [(now, n)]) @ lines))"

definition spaced :: "usec \<Rightarrow> usec list \<Rightarrow> bool" where
  "spaced prev ts \<longleftrightarrow> (\<forall>i < length ts. FAILURE_LOG_INTERVAL \<le> ts ! i - (prev # ts) ! i)"

lemma spaced_Cons: "spaced prev (t # ts) \<longleftrightarrow> FAILURE_LOG_INTERVAL \<le> t - prev \<and> spaced t ts"
  by (auto simp: spaced_def less_Suc_eq_0_disj)

lemma log_failures_facts:
  "log_failures ts em = (em', lines) \<Longrightarrow>
     spaced (em_last_log em) (map fst lines)
     \<and> sum_list (map snd lines) + em_fail_count em' = em_fail_count em + int (length ts)"
proof (induction ts arbitrary: em em' lines)
  case Nil
  then show ?case by (auto simp: spaced_def)
next
  case (Cons now ts)
  obtain em1 out where o: "log_failure now em = (em1, out)" by fastforce
  obtain em2 ls where l: "log_failures ts em1 = (em2, ls)" by fastforce
  from Cons.IH [OF l] Cons.prems o l show ?case
    by (auto simp: log_failure_def Let_def spaced_Cons split: if_splits)
qed

text \<open>A console that is down does not flood the log: two lines about failed deliveries are at least a
  minute apart by the clock, and no failure is forgotten: the counts of the lines and the pending count
  add up to the number of failures.\<close>

theorem failure_log_rate:
  assumes "log_failures ts (new_emitter url secret) = (em, lines)"
  shows "(\<forall>i. Suc i < length lines \<longrightarrow> fst (lines ! i) + 60 * 1000000 \<le> fst (lines ! Suc i))
    \<and> sum_list (map snd lines) + em_fail_count em = int (length ts)"
proof -
  note f = log_failures_facts [OF assms]
  have "fst (lines ! i) + 60 * 1000000 \<le> fst (lines ! Suc i)" if "Suc i < length lines" for i
  proof -
    have "FAILURE_LOG_INTERVAL \<le> map fst lines ! Suc i - (em_last_log (new_emitter url secret) # map fst lines) ! Suc i"
      using conjunct1 [OF f, unfolded spaced_def, rule_format, of "Suc i"] that by simp
    with that show ?thesis by (simp add: FAILURE_LOG_INTERVAL_def)
  qed
  with f show ?thesis by (simp add: new_emitter_def)
qed

lemma sample_log:
  "log_failures [0, 1, 60000000] (new_emitter [] []) =
     ((new_emitter [] [])\<lparr>em_last_log := 60000000\<rparr>, [(0, 1), (60000000, 2)])"
  by (simp add: log_failure_def new_emitter_def DATETIME_MIN_def FAILURE_LOG_INTERVAL_def Let_def)

theorem failure_log_rate_witness: "(0::int) + 60 * 1000000 \<le> 60000000 \<and> (1::int) + 2 + 0 = int (length [0::int, 1, 60000000])"
  using failure_log_rate [OF sample_log] by (auto simp: new_emitter_def dest: spec [of _ 0])

end
