(* ===== verification/GatewayApp.thy ===== *)
theory GatewayApp
  imports VerifierRegistry Emitter
begin

text \<open>
  \<open>hookguard_gateway/app.py\<close> and \<open>upstream.py\<close>: the capped read of the body, the handler of one
  route from the first byte to the response, the forward, the construction of the app, and the check
  an upstream makes. What the world answers (chunks, clocks, the two HTTP clients) is an input; the
  requests sent upstream are collected in a list.
\<close>

section \<open>The capped read\<close>

definition MAX_BODY_BYTES :: nat where
  "MAX_BODY_BYTES = 5 * 2 ^ 20"

text \<open>The loop over \<open>request.stream()\<close>: size so far, chunks kept. The stream is read lazily, so the second component of the
  result is what the loop has not taken from it.\<close>

fun read_chunks :: "nat \<Rightarrow> bytes list \<Rightarrow> bytes list \<Rightarrow> bytes option \<times> bytes list" where
  "read_chunks n chunks [] = (Some (concat chunks), [])"
| "read_chunks n chunks (chunk # rest) =
     (let n' = n + length chunk in
      if MAX_BODY_BYTES < n' then (None, rest) else read_chunks n' (chunks @ [chunk]) rest)"

definition read_capped_body :: "bytes list \<Rightarrow> bytes option \<times> bytes list" where
  "read_capped_body stream = read_chunks 0 [] stream"

section \<open>Requests and responses\<close>

record request =
  req_stream :: "bytes list"
  req_headers :: headers
  req_client :: "pystr option"

record response =
  status_code :: nat
  content :: bytes
  media_type :: "pystr option"

definition line :: "pystr \<Rightarrow> pystr" where
  "line s = s @ [CHR 0x0A]"

definition plain :: "nat \<Rightarrow> pystr \<Rightarrow> response" where
  "plain code s = \<lparr>status_code = code, content = encode_utf8 s, media_type = Some ''text/plain''\<rparr>"

type_synonym upstream_request = "pystr \<times> bytes \<times> (pystr \<times> pystr) list"

text \<open>The answer of the forwarding client: an \<open>httpx.HTTPError\<close>, another exception, or a
  response.\<close>

datatype upstream_result = UpHTTPError pystr | UpRaised pystr | UpResponse nat bytes "pystr option"

section \<open>The forward\<close>

definition forward_request :: "Route \<Rightarrow> bytes \<Rightarrow> bytes \<Rightarrow> upstream_request" where
  "forward_request route body internal_secret =
     (route_upstream route, body,
      [(''Content-Type'', ''application/json''),
       (PROVIDER_HEADER, route_provider route),
       (HEADER, sign internal_secret (route_provider route) body)])"

definition forward ::
  "Route \<Rightarrow> bytes \<Rightarrow> bytes \<Rightarrow> (upstream_request \<Rightarrow> upstream_result) \<Rightarrow> (response \<times> nat) py \<times> upstream_request list" where
  "forward route body internal_secret client =
     (let req = forward_request route body internal_secret in
      case client req of
        UpHTTPError m \<Rightarrow> (Inr (plain 502 (line ''upstream unreachable''), 0), [req])
      | UpRaised m \<Rightarrow> (Inl (OtherErr m), [req])
      | UpResponse code body ctype \<Rightarrow>
          (Inr (\<lparr>status_code = code, content = body, media_type = ctype\<rparr>, code), [req]))"

section \<open>The handler\<close>

text \<open>The clock readings of one request, in the order the code makes them.\<close>

record handler_env =
  h_started :: usec
  h_verify :: verify_env
  h_ended :: usec
  h_recorded :: usec
  h_upstream :: "upstream_request \<Rightarrow> upstream_result"

record 'cert gateway_state =
  gw_paypal :: "'cert paypal_state"
  gw_emitter :: emitter
  gw_forwarded :: "upstream_request list"

definition handler ::
  "('cert, 'key) crypto_lib \<Rightarrow> Route \<Rightarrow> verifier \<Rightarrow> bytes \<Rightarrow> handler_env \<Rightarrow> request \<Rightarrow> 'cert gateway_state
     \<Rightarrow> response py \<times> 'cert gateway_state" where
  "handler lib route verifier internal_secret env request st =
     (case fst (read_capped_body (req_stream request)) of
        None \<Rightarrow> (Inr (plain 413 (line ''body too large'')), st)
      | Some body \<Rightarrow>
          case run_verify lib (h_verify env) verifier body (req_headers request) (gw_paypal st) of (result, certs) \<Rightarrow>
          let st = st\<lparr>gw_paypal := certs\<rparr>;
              record = (\<lambda>verdict reason status. record_event (gw_emitter st) (h_recorded env) route body
                          (req_client request) verdict reason status (h_ended env - h_started env)) in
          case result of
            Inl (VerificationErr m) \<Rightarrow>
              (Inr (plain 401 (line ''unauthorized'')),
               st\<lparr>gw_emitter := record ''rejected'' (classify_reason (Some (VerificationErr m))) 0\<rparr>)
          | Inl e \<Rightarrow> (Inl e, st)
          | Inr _ \<Rightarrow>
              case forward route body internal_secret (h_upstream env) of (result, sent) \<Rightarrow>
              let st = st\<lparr>gw_forwarded := gw_forwarded st @ sent\<rparr> in
              case result of
                Inl e \<Rightarrow> (Inl e, st)
              | Inr (response, status) \<Rightarrow>
                  (Inr response, st\<lparr>gw_emitter := record ''accepted'' [] (int status)\<rparr>))"

section \<open>Construction\<close>

text \<open>\<open>build_app\<close> builds the verifier of every route before any traffic: the routes with their
  verifiers, or \<open>SystemExit\<close>.\<close>

fun build_routes :: "registry \<Rightarrow> (pystr \<Rightarrow> pystr) \<Rightarrow> Route list \<Rightarrow> (Route \<times> verifier) list py" where
  "build_routes reg secret_lookup [] = Inr []"
| "build_routes reg secret_lookup (route # rs) =
     (case build_verifier reg route (secret_lookup (route_secret_env route)) of
        Inl e \<Rightarrow>
          if is_value_error e
          then Inl (SystemExitErr (''route '' @ route_path route @ '' (secret env ''
                 @ route_secret_env route @ ''): '' @ exn_message e))
          else Inl e
      | Inr verifier \<Rightarrow>
          py_bind (build_routes reg secret_lookup rs) (\<lambda>table. Inr ((route, verifier) # table)))"

record app =
  app_table :: "(Route \<times> verifier) list"
  app_secret :: bytes
  app_emitter :: emitter

definition build_app :: "Config \<Rightarrow> bytes \<Rightarrow> (pystr \<Rightarrow> pystr) \<Rightarrow> pystr \<Rightarrow> app py" where
  "build_app config internal_secret secret_lookup events_url =
     py_bind (build_routes REGISTRY secret_lookup (routes config)) (\<lambda>table.
       Inr \<lparr>app_table = table, app_secret = internal_secret,
            app_emitter = new_emitter events_url internal_secret\<rparr>)"

text \<open>\<open>create_app\<close>; the loaded table (or the error of loading it) is an argument.\<close>

definition create_app :: "(pystr \<Rightarrow> Config py) \<Rightarrow> environ \<Rightarrow> app py" where
  "create_app load_config env =
     py_bind (load_config (config_path env)) (\<lambda>config.
       let internal_secret = encode_utf8 (getenv_or env ''INTERNAL_SECRET'' []) in
       if internal_secret = [] then Inl (SystemExitErr ''INTERNAL_SECRET not set'')
       else build_app config internal_secret (\<lambda>name. getenv_or env name []) (getenv_or env ''EVENTS_URL'' []))"

section \<open>The upstream\<close>

text \<open>\<open>upstream.py receive\<close>, with the header lookup of the request it gets.\<close>

definition upstream_receive :: "bytes \<Rightarrow> bytes \<Rightarrow> headers \<Rightarrow> response py" where
  "upstream_receive secret body headers =
     (let provider = (case headers PROVIDER_HEADER of None \<Rightarrow> [] | Some v \<Rightarrow> v);
          signature = (case headers HEADER of None \<Rightarrow> [] | Some v \<Rightarrow> v) in
      case verify secret provider body signature of
        Inl (GatewaySignatureErr m) \<Rightarrow> Inr (plain 401 (line ''gateway signature invalid''))
      | Inl e \<Rightarrow> Inl e
      | Inr _ \<Rightarrow> Inr (plain 200 (line ''ok'')))"

definition upstream_create :: "environ \<Rightarrow> bytes py" where
  "upstream_create env =
     (let secret = encode_utf8 (getenv_or env ''INTERNAL_SECRET'' []) in
      if secret = [] then Inl (SystemExitErr ''INTERNAL_SECRET not set'') else Inr secret)"

section \<open>The body cap\<close>

lemma read_chunks_spec:
  "fst (read_chunks n chunks stream) =
     (if n + length (concat stream) \<le> MAX_BODY_BYTES \<or> stream = [] then Some (concat chunks @ concat stream) else None)"
proof (induction stream arbitrary: n chunks)
  case (Cons c stream)
  then show ?case by (auto simp: Let_def)
qed simp

lemma read_capped_body_eq:
  "fst (read_capped_body stream) = (if length (concat stream) \<le> MAX_BODY_BYTES then Some (concat stream) else None)"
  unfolding read_capped_body_def read_chunks_spec by auto

text \<open>What the loop has taken when it stops.\<close>

lemma read_chunks_taken:
  "n \<le> MAX_BODY_BYTES \<Longrightarrow>
     \<exists>taken. stream = taken @ snd (read_chunks n chunks stream)
       \<and> (if n + length (concat stream) \<le> MAX_BODY_BYTES then snd (read_chunks n chunks stream) = []
          else MAX_BODY_BYTES < n + length (concat taken) \<and> n + length (concat (butlast taken)) \<le> MAX_BODY_BYTES)"
proof (induction stream arbitrary: n chunks)
  case (Cons c stream)
  show ?case
  proof (cases "MAX_BODY_BYTES < n + length c")
    case True
    with Cons.prems show ?thesis by (intro exI [of _ "[c]"]) simp
  next
    case False
    let ?r = "snd (read_chunks (n + length c) (chunks @ [c]) stream)"
    from False Cons.IH [of "n + length c" "chunks @ [c]"] obtain taken where t: "stream = taken @ ?r"
      "if n + length c + length (concat stream) \<le> MAX_BODY_BYTES then ?r = []
       else MAX_BODY_BYTES < n + length c + length (concat taken) \<and> n + length c + length (concat (butlast taken)) \<le> MAX_BODY_BYTES"
      by auto
    have "taken \<noteq> []" if "\<not> n + length c + length (concat stream) \<le> MAX_BODY_BYTES" using t(2) that False by auto
    moreover have "snd (read_chunks n chunks (c # stream)) = ?r" using False by (simp add: Let_def)
    ultimately show ?thesis
      using t by (intro exI [of _ "c # taken"]) (auto simp: add.assoc split: if_splits)
  qed
qed simp

text \<open>C38: the capped read returns the exact concatenation of the chunks when it is at most five
  megabytes and nothing otherwise, however the body is cut into chunks. An oversized body is abandoned at
  the chunk that crosses the cap: what was taken from the stream is above the cap, but was not without its last chunk, and the
  rest of the stream is left unread.\<close>

theorem read_capped_body_exact:
  "fst (read_capped_body stream) = (if length (concat stream) \<le> 5 * 2 ^ 20 then Some (concat stream) else None)
   \<and> (\<exists>taken. stream = taken @ snd (read_capped_body stream)
       \<and> (if length (concat stream) \<le> 5 * 2 ^ 20 then snd (read_capped_body stream) = []
          else 5 * 2 ^ 20 < length (concat taken) \<and> length (concat (butlast taken)) \<le> 5 * 2 ^ 20))"
  using read_capped_body_eq [of stream] read_chunks_taken [of 0 stream "[]", OF le0]
  unfolding MAX_BODY_BYTES_def read_capped_body_def [symmetric] add_0 by (rule conjI)

section \<open>What the handler does\<close>

lemma run_verify_raises:
  assumes "run_verify lib env v body headers st = (Inl e, st')"
  shows "(\<exists>m. e = VerificationErr m) \<or> e = OverflowErr \<or> e = UnicodeEncodeErr \<or> (\<exists>m. e = OtherErr m) \<or> (\<exists>m. e = ValueErr m)"
  using assms
  by (auto simp: run_verify_def split: verifier.splits
      dest!: github_errors shopify_errors stripe_verify_errors paypal_verify_errors)

text \<open>The three outcomes of verification, spelled out.\<close>

lemma handler_too_large:
  "MAX_BODY_BYTES < length (concat (req_stream request)) \<Longrightarrow>
     handler lib route v secret env request st = (Inr (plain 413 (line ''body too large'')), st)"
  by (simp add: handler_def read_capped_body_eq)

lemma handler_rejected:
  assumes "length (concat (req_stream request)) \<le> MAX_BODY_BYTES"
    and "run_verify lib (h_verify env) v (concat (req_stream request)) (req_headers request) (gw_paypal st)
      = (Inl (VerificationErr m), certs)"
  shows "handler lib route v secret env request st =
    (Inr (plain 401 (line ''unauthorized'')),
     st\<lparr>gw_paypal := certs, gw_emitter := record_event (gw_emitter st) (h_recorded env) route
        (concat (req_stream request)) (req_client request) ''rejected''
        (classify_reason (Some (VerificationErr m))) 0 (h_ended env - h_started env)\<rparr>)"
  using assms by (simp add: handler_def read_capped_body_eq Let_def)

lemma handler_verified:
  assumes "length (concat (req_stream request)) \<le> MAX_BODY_BYTES"
    and "run_verify lib (h_verify env) v (concat (req_stream request)) (req_headers request) (gw_paypal st)
      = (Inr (), certs)"
  shows "gw_forwarded (snd (handler lib route v secret env request st)) =
      gw_forwarded st @ [forward_request route (concat (req_stream request)) secret]"
  using assms
  by (auto simp: handler_def read_capped_body_eq Let_def forward_def split: upstream_result.splits)

lemma handler_not_forwarded:
  assumes "handler lib route v secret env request st = (r, st')"
    and "MAX_BODY_BYTES < length (concat (req_stream request)) \<or>
      fst (run_verify lib (h_verify env) v (concat (req_stream request)) (req_headers request) (gw_paypal st)) \<noteq> Inr ()"
  shows "gw_forwarded st' = gw_forwarded st"
  using assms
  by (auto simp: handler_def read_capped_body_eq Let_def split: if_splits prod.splits sum.splits pyexn.splits)

text \<open>C1: only verified requests reach the upstream. The handler forwards nothing unless the body is
  within the cap and the provider's verifier accepted it; then it sends exactly one request, to the
  route's upstream, with exactly the bytes received and the route's provider label and signature.\<close>

theorem handler_forwards_iff_verified:
  "gw_forwarded (snd (handler lib route v secret env request st)) = gw_forwarded st @
     (if length (concat (req_stream request)) \<le> MAX_BODY_BYTES
         \<and> fst (run_verify lib (h_verify env) v (concat (req_stream request)) (req_headers request) (gw_paypal st)) = Inr ()
      then [forward_request route (concat (req_stream request)) secret] else [])"
proof -
  let ?run = "run_verify lib (h_verify env) v (concat (req_stream request)) (req_headers request) (gw_paypal st)"
  obtain x certs where run: "?run = (x, certs)" by fastforce
  obtain r st' where h: "handler lib route v secret env request st = (r, st')" by fastforce
  show ?thesis
  proof (cases "length (concat (req_stream request)) \<le> MAX_BODY_BYTES \<and> x = Inr ()")
    case True
    then show ?thesis using handler_verified [of request lib env v st certs route secret] run by simp
  next
    case False
    then show ?thesis using handler_not_forwarded [OF h] run h by auto
  qed
qed

section \<open>The two ends of the gateway signature\<close>

definition header_lookup :: "(pystr \<times> pystr) list \<Rightarrow> headers" where
  "header_lookup hs = map_of hs"

text \<open>C2: end to end: whatever the gateway forwards, an upstream with the same secret accepts; and an
  upstream accepts a body under a label only if its signature is the gateway's MAC of that label and
  body under its secret, in hexadecimal of either case.\<close>

theorem upstream_accepts_forwarded:
  "(case forward_request route body secret of (url, sent, hs) \<Rightarrow>
      sent = body \<and> upstream_receive secret sent (header_lookup hs) = Inr (plain 200 (line ''ok'')))
   \<and> (upstream_receive secret body headers = Inr (plain 200 (line ''ok'')) \<longleftrightarrow>
        py_lower (case headers HEADER of None \<Rightarrow> [] | Some s \<Rightarrow> s)
          = sign secret (case headers PROVIDER_HEADER of None \<Rightarrow> [] | Some p \<Rightarrow> p) body)"
proof -
  have accept: "upstream_receive secret body headers = Inr (plain 200 (line ''ok'')) \<longleftrightarrow>
      verify secret (case headers PROVIDER_HEADER of None \<Rightarrow> [] | Some p \<Rightarrow> p) body
        (case headers HEADER of None \<Rightarrow> [] | Some s \<Rightarrow> s) = Inr ()" for headers body
    using verify_errors
    by (auto simp: upstream_receive_def Let_def plain_def split: sum.splits pyexn.splits)
  show ?thesis
    unfolding accept verify_accepts_only_sign
    by (simp add: forward_request_def header_lookup_def HEADER_def PROVIDER_HEADER_def sign_def)
qed

section \<open>Starting up\<close>

lemma build_app_spec:
  "(returns (build_app config secret secret_lookup url) \<longleftrightarrow>
      list_all (\<lambda>route. route_usable route (secret_lookup (route_secret_env route))) (routes config))
   \<and> (case build_app config secret secret_lookup url of
        Inl e \<Rightarrow> \<exists>m. e = SystemExitErr m
      | Inr app \<Rightarrow> map fst (app_table app) = routes config \<and>
          list_all (\<lambda>(route, v). build_verifier REGISTRY route (secret_lookup (route_secret_env route)) = Inr v)
            (app_table app))"
proof -
  have "(returns (build_routes REGISTRY secret_lookup rs) \<longleftrightarrow>
      list_all (\<lambda>route. route_usable route (secret_lookup (route_secret_env route))) rs)
   \<and> (case build_routes REGISTRY secret_lookup rs of
        Inl e \<Rightarrow> \<exists>m. e = SystemExitErr m
      | Inr table \<Rightarrow> map fst table = rs \<and>
          list_all (\<lambda>(route, v). build_verifier REGISTRY route (secret_lookup (route_secret_env route)) = Inr v) table)"
    for rs
  proof (induction rs)
    case (Cons route rs)
    show ?case
      using Cons.IH build_verifier_spec [of route "secret_lookup (route_secret_env route)"]
      by (cases "build_verifier REGISTRY route (secret_lookup (route_secret_env route))";
          cases "build_routes REGISTRY secret_lookup rs") auto
  qed simp
  from this [of "routes config"] show ?thesis
    by (cases "build_routes REGISTRY secret_lookup (routes config)") (auto simp: build_app_def)
qed

text \<open>C23: a gateway starts only with a usable table: \<open>build_app\<close> returns an app exactly when every
  route is usable with the secret its environment variable holds, the app then has one verifier per
  route, in order, and every other table makes it exit.\<close>

theorem build_app_all_or_nothing:
  "(returns (build_app config secret secret_lookup url) \<longleftrightarrow>
      list_all (\<lambda>route. route_usable route (secret_lookup (route_secret_env route))) (routes config))
   \<and> (case build_app config secret secret_lookup url of
        Inl e \<Rightarrow> \<exists>m. e = SystemExitErr m
      | Inr app \<Rightarrow> map fst (app_table app) = routes config \<and>
          list_all (\<lambda>(route, v). build_verifier REGISTRY route (secret_lookup (route_secret_env route)) = Inr v)
            (app_table app))"
  by (rule build_app_spec)

section \<open>Rejection reasons\<close>

lemma classify_hmac_messages:
  "classify_reason (Some (VerificationErr (''missing '' @ h @ '' header''))) = ''missing header''"
  "classify_reason (Some (VerificationErr ''invalid signature encoding'')) = ''bad encoding''"
  "classify_reason (Some (VerificationErr ''signature mismatch'')) = ''signature mismatch''"
  "classify_reason (Some (VerificationErr ''no matching signature'')) = ''signature mismatch''"
  "classify_reason (Some (VerificationErr ''invalid timestamp'')) = ''bad encoding''"
  "classify_reason (Some (VerificationErr ''timestamp outside replay window'')) = ''stale timestamp''"
proof -
  have "contains ''missing'' (''missing '' @ h @ '' header'')" "contains ''header'' (''missing '' @ h @ '' header'')"
    using contains_middle [of "''missing''" "[]" "'' '' @ h @ '' header''"]
      contains_middle [of "''header''" "''missing '' @ h @ '' ''" "[]"] by simp_all
  then show "classify_reason (Some (VerificationErr (''missing '' @ h @ '' header''))) = ''missing header''"
    by (simp add: classify_reason_def Let_def)
qed (simp_all add: classify_reason_def Let_def)

lemma classify_malformed:
  "classify_reason (Some (VerificationErr (''malformed '' @ GITHUB_HEADER @ '' header''))) = ''bad encoding''"
  "classify_reason (Some (VerificationErr (''malformed '' @ STRIPE_HEADER @ '' header''))) = ''bad encoding''"
  by (simp_all add: classify_reason_def Let_def GITHUB_HEADER_def STRIPE_HEADER_def)

lemma github_reason:
  assumes "github_verify secret body headers = Inl e"
  shows "classify_reason (Some e) =
    (if absent (headers GITHUB_HEADER) then ''missing header''
     else if github_tag_of (the (headers GITHUB_HEADER)) = None then ''bad encoding''
     else ''signature mismatch'')"
proof (cases "headers GITHUB_HEADER")
  case None
  with assms show ?thesis by (auto simp: github_verify_def classify_hmac_messages(1) [simplified])
next
  case (Some h)
  show ?thesis
  proof (cases "h = []")
    case True
    with Some assms show ?thesis by (auto simp: github_verify_def classify_hmac_messages(1) [simplified])
  next
    case False
    with Some assms show ?thesis
      using decode_hex_error [of "drop (length GITHUB_PREFIX) h"]
      by (cases "decode_hex (drop (length GITHUB_PREFIX) h)")
         (auto simp: github_verify_def github_tag_of_def decode_hex_opt_def classify_malformed [simplified]
            classify_hmac_messages(2,3) split: if_splits)
  qed
qed

lemma shopify_reason:
  assumes "shopify_verify secret body headers = Inl e"
  shows "classify_reason (Some e) \<in> {''missing header'', ''bad encoding'', ''signature mismatch''}"
proof -
  have "e \<in> {VerificationErr (''missing '' @ SHOPIFY_HEADER @ '' header''), VerificationErr ''invalid signature encoding'',
      VerificationErr ''signature mismatch''}"
    using assms by (simp add: shopify_verify_def split: option.splits if_split_asm)
  then show ?thesis
    using classify_hmac_messages(1) [of SHOPIFY_HEADER] classify_hmac_messages(2,3)
    by (simp del: append.simps) (elim disjE; simp del: append.simps)
qed

lemma py_bind_eq_Inl: "py_bind m f = Inl e \<longleftrightarrow> m = Inl e \<or> (\<exists>x. m = Inr x \<and> f x = Inl e)"
  by (cases m) auto

lemma stripe_reason:
  assumes "stripe_verify secret w body headers now = Inl (VerificationErr m)"
  shows "classify_reason (Some (VerificationErr m)) \<in> {''missing header'', ''bad encoding'', ''stale timestamp'', ''signature mismatch''}"
proof -
  have "VerificationErr m \<in> {VerificationErr (''missing '' @ STRIPE_HEADER @ '' header''),
      VerificationErr (''malformed '' @ STRIPE_HEADER @ '' header''), VerificationErr ''invalid timestamp'',
      VerificationErr ''timestamp outside replay window'', VerificationErr ''no matching signature''}"
  proof (cases "headers STRIPE_HEADER")
    case (Some h)
    obtain ts sigs where p: "parse_header h = (ts, sigs)" by (cases "parse_header h")
    show ?thesis
    proof (cases "py_int ts")
      case (Inl e')
      with assms py_int_errors [OF Inl] show ?thesis by (auto simp: stripe_verify_def Some p split: if_splits)
    next
      case (Inr n)
      have age: "(if 0 < w then py_bind (float_age now n) (\<lambda>delta. if seconds w < delta
            then Inl (VerificationErr ''timestamp outside replay window'') else Inr ()) else Inr ()) = Inl (VerificationErr m)
          \<Longrightarrow> m = ''timestamp outside replay window''"
        by (cases "float_age now n") (auto dest: float_age_errors split: if_splits)
      have enc: "encode_ascii ts \<noteq> Inl (VerificationErr m)" by (simp add: encode_ascii_def)
      show ?thesis
      proof (cases "h = [] \<or> ts = [] \<or> sigs = []")
        case True
        then consider "h = []" | "h \<noteq> []" "ts = [] \<or> sigs = []" by blast
        then show ?thesis
        proof cases
          case 1
          with assms Some show ?thesis by (simp add: stripe_verify_def)
        next
          case 2
          with assms show ?thesis by (simp add: stripe_verify_def Some p)
        qed
      next
        case False
        let ?A = "if 0 < w then py_bind (float_age now n) (\<lambda>delta. if seconds w < delta
            then Inl (VerificationErr ''timestamp outside replay window'') else Inr ()) else Inr ()"
        have "py_bind ?A (\<lambda>_. py_bind (encode_ascii ts) (\<lambda>t. any_match (hmac_sha256 secret (t @ [0x2E] @ body)) sigs))
            = Inl (VerificationErr m)"
          using assms False by (simp add: stripe_verify_def Some p Inr)
        then consider "?A = Inl (VerificationErr m)" | t where "any_match (hmac_sha256 secret (t @ [0x2E] @ body)) sigs = Inl (VerificationErr m)"
          using enc unfolding py_bind_eq_Inl by blast
        then show ?thesis
        proof cases
          case 1
          then show ?thesis using age by simp
        next
          case 2
          then show ?thesis using any_match_errors by blast
        qed
      qed
    qed
  qed (use assms in \<open>auto simp: stripe_verify_def\<close>)
  then show ?thesis
    using classify_hmac_messages(1) [of STRIPE_HEADER] classify_hmac_messages(4-6) classify_malformed(2)
    by (simp del: append.simps) (elim disjE; simp del: append.simps)
qed

text \<open>The reason recorded for a rejected GitHub webhook tells the truth: \<open>missing header\<close> when
  there is none, \<open>bad encoding\<close> when it is not \<open>sha256=\<close> and pairs of hexadecimal digits, and
  \<open>signature mismatch\<close> when it decodes to another digest.\<close>

theorem github_reason_exact:
  assumes "github_verify secret body headers = Inl e"
  shows "classify_reason (Some e) =
    (if absent (headers GITHUB_HEADER) then ''missing header''
     else if github_tag_of (the (headers GITHUB_HEADER)) = None then ''bad encoding''
     else ''signature mismatch'')"
  by (rule github_reason [OF assms])

theorem github_reason_exact_witness:
  "classify_reason (Some (VerificationErr ''invalid signature encoding'')) = ''bad encoding''"
proof -
  have "github_verify [1] [] (one_header GITHUB_HEADER ''sha256=0'') = Inl (VerificationErr ''invalid signature encoding'')"
    by (simp add: github_verify_def one_header_def GITHUB_PREFIX_def decode_hex_def)
  from github_reason_exact [OF this] show ?thesis
    by (simp add: one_header_def github_tag_of_def GITHUB_PREFIX_def decode_hex_opt_def decode_hex_def)
qed

text \<open>For PayPal the message quotes what the sender wrote, so the sender picks the bucket: any
  \<open>paypal-auth-algo\<close> that mentions \<open>missing\<close> and \<open>header\<close> is recorded as a missing header.\<close>

lemma paypal_reason_spoofed:
  assumes "\<not> absent (headers ''paypal-transmission-id'')" "\<not> absent (headers ''paypal-transmission-time'')"
    "\<not> absent (headers ''paypal-transmission-sig'')" "\<not> absent (headers ''paypal-cert-url'')"
    "headers ''paypal-auth-algo'' = Some a" "py_lower a \<noteq> py_lower AUTH_ALGO"
    "contains ''missing'' a" "contains ''header'' a"
  shows "\<exists>e. paypal_verify lib client t0 t1 wid body headers st = (Inl e, st)
    \<and> classify_reason (Some e) = ''missing header''"
proof -
  have "list_all is_plain ''missing''" "list_all is_plain ''header''"
    by (simp_all add: is_plain_def is_printable_def in_range_def)
  then have "contains ''missing'' (py_repr a)" "contains ''header'' (py_repr a)"
    using assms(7,8) py_repr_contains by blast+
  then have "contains ''missing'' (''unsupported paypal-auth-algo '' @ py_repr a)"
    "contains ''header'' (''unsupported paypal-auth-algo '' @ py_repr a)" by (simp_all only: contains_append2)
  then show ?thesis
    using assms(1-6) by (simp add: paypal_verify_def Let_def repr_opt_def classify_reason_def del: contains.simps append.simps)
qed

end
