(* ===== verification/AuthPrim.thy ===== *)
theory AuthPrim
  imports StdCrypto
begin

text \<open>
  \<open>auth/csrf.py\<close>, \<open>auth/password.py\<close>, \<open>auth/session.py\<close> and \<open>auth/reset.py\<close>. The hasher of \<open>argon2-cffi\<close> is a
  parameter (the hash of a password under the hasher's settings and a salt, and the check of a PHC string, which is \<open>False\<close> on
  every exception the code catches); the bytes the operating system's generator gives are inputs of the
  operations that mint tokens, which are their URL-safe Base64.
\<close>

definition CSRF_HEADER :: pystr where
  "CSRF_HEADER = ''X-CSRF-Token''"

definition CSRF_FORM_FIELD :: pystr where
  "CSRF_FORM_FIELD = ''csrf_token''"

definition check_csrf :: "pystr \<Rightarrow> pystr \<Rightarrow> bool py" where
  "check_csrf want got = (if want = [] \<or> got = [] then Inr False else compare_digest_str want got)"

definition MIN_PASSWORD_LEN :: nat where
  "MIN_PASSWORD_LEN = 12"

definition MAX_PASSWORD_LEN :: nat where
  "MAX_PASSWORD_LEN = 128"

definition validate_password :: "pystr \<Rightarrow> unit py" where
  "validate_password password =
     (if length password < MIN_PASSWORD_LEN
      then Inl (PasswordPolicyErr (''password must be at least '' @ show_nat MIN_PASSWORD_LEN @ '' characters''))
      else if MAX_PASSWORD_LEN < length password
      then Inl (PasswordPolicyErr (''password must be at most '' @ show_nat MAX_PASSWORD_LEN @ '' characters''))
      else Inr ())"

text \<open>What \<open>verify_password\<close> meets in the library: a match, one of the three exceptions, or another
  exception.\<close>

datatype argon_result = ArgonMatch | ArgonMismatch | ArgonRaised pystr

datatype argon_type = Argon2d | Argon2i | Argon2id

record PasswordHasher =
  time_cost :: int
  memory_cost :: int
  parallelism :: int
  hash_len :: int
  salt_len :: int
  hash_type :: argon_type

record argon =
  argon_hash :: "PasswordHasher \<Rightarrow> bytes \<Rightarrow> pystr \<Rightarrow> pystr"
  argon_verify :: "pystr \<Rightarrow> pystr \<Rightarrow> argon_result"

definition ARGON2_TIME_COST :: int where "ARGON2_TIME_COST = 3"
definition ARGON2_MEMORY_KIB :: int where "ARGON2_MEMORY_KIB = 64 * 1024"
definition ARGON2_PARALLELISM :: int where "ARGON2_PARALLELISM = 2"
definition ARGON2_HASH_LEN :: int where "ARGON2_HASH_LEN = 32"
definition ARGON2_SALT_LEN :: int where "ARGON2_SALT_LEN = 16"

definition hasher :: PasswordHasher where
  "hasher = \<lparr>time_cost = ARGON2_TIME_COST, memory_cost = ARGON2_MEMORY_KIB, parallelism = ARGON2_PARALLELISM,
     hash_len = ARGON2_HASH_LEN, salt_len = ARGON2_SALT_LEN, hash_type = Argon2id\<rparr>"

definition hash_password :: "argon \<Rightarrow> bytes \<Rightarrow> pystr \<Rightarrow> pystr" where
  "hash_password lib salt password = argon_hash lib hasher salt password"

definition verify_password :: "argon \<Rightarrow> pystr \<Rightarrow> pystr \<Rightarrow> bool py" where
  "verify_password lib password phc =
     (case argon_verify lib phc password of
        ArgonMatch \<Rightarrow> Inr True | ArgonMismatch \<Rightarrow> Inr False | ArgonRaised m \<Rightarrow> Inl (OtherErr m))"

definition dummy_hash :: "argon \<Rightarrow> bytes \<Rightarrow> pystr" where
  "dummy_hash lib salt = hash_password lib salt ''hookguard-dummy-hash-for-timing-defense''"

definition SESSION_COOKIE_NAME :: pystr where
  "SESSION_COOKIE_NAME = ''hg_session''"

definition SESSION_IDLE_TIMEOUT :: usec where
  "SESSION_IDLE_TIMEOUT = 7 * 86400 * 1000000"

definition SESSION_ABSOLUTE_TIMEOUT :: usec where
  "SESSION_ABSOLUTE_TIMEOUT = 30 * 86400 * 1000000"

definition RESET_TOKEN_TTL :: usec where
  "RESET_TOKEN_TTL = 3600 * 1000000"

definition hash_token :: "pystr \<Rightarrow> bytes" where
  "hash_token token = sha256 (encode_utf8 token)"

section \<open>Tokens\<close>

definition TOKEN_BYTES :: nat where
  "TOKEN_BYTES = 32"

definition url_safe :: "char \<Rightarrow> char" where
  "url_safe c = (if c = CHR ''+'' then CHR ''-'' else if c = CHR ''/'' then CHR ''_'' else c)"

text \<open>\<open>secrets.token_urlsafe\<close> on the bytes of the generator: \<open>urlsafe_b64encode\<close> without its padding.\<close>

definition token_urlsafe :: "nat \<Rightarrow> bytes \<Rightarrow> pystr" where
  "token_urlsafe nbytes random = rev (dropWhile (\<lambda>c. c = CHR ''='') (rev (map url_safe (b64encode (take nbytes random)))))"

definition new_session_token :: "bytes \<Rightarrow> pystr \<times> bytes" where
  "new_session_token random = (let token = token_urlsafe TOKEN_BYTES random in (token, hash_token token))"

definition new_csrf_token :: "bytes \<Rightarrow> pystr" where
  "new_csrf_token random = token_urlsafe TOKEN_BYTES random"

definition new_reset_token :: "bytes \<Rightarrow> pystr \<times> bytes" where
  "new_reset_token random = (let token = token_urlsafe TOKEN_BYTES random in (token, hash_token token))"

text \<open>The characters of a token: nothing a cookie, a form or a query string has to quote.\<close>

definition is_token_char :: "char \<Rightarrow> bool" where
  "is_token_char c \<longleftrightarrow> in_range 65 90 c \<or> in_range 97 122 c \<or> in_range 48 57 c \<or> c = CHR ''-'' \<or> c = CHR ''_''"

definition b64_digit :: "char \<Rightarrow> bool" where
  "b64_digit c \<longleftrightarrow> (\<exists>n < 64. c = b64_char n)"

lemma b64_digit_char [simp]: "n < 64 \<Longrightarrow> b64_digit (b64_char n)"
  by (auto simp: b64_digit_def)

lemma b64_digit_facts:
  assumes "b64_digit c"
  shows "c \<noteq> CHR ''=''" "is_token_char (url_safe c)" "url_safe c \<noteq> CHR ''=''"
proof -
  have "b64_val c \<noteq> None" using assms by (auto simp: b64_digit_def)
  then show "c \<noteq> CHR ''=''" "is_token_char (url_safe c)"
    by (auto simp: b64_val_pad) (auto simp: b64_val_def is_token_char_def url_safe_def split: if_splits)
  then show "url_safe c \<noteq> CHR ''=''" by (auto simp: url_safe_def)
qed

lemma url_safe_inj: "b64_digit c \<Longrightarrow> b64_digit d \<Longrightarrow> url_safe c = url_safe d \<longleftrightarrow> c = d"
proof -
  have "b64_digit c \<Longrightarrow> c \<noteq> CHR ''-'' \<and> c \<noteq> CHR ''_''" for c
  proof
    assume "b64_digit c"
    then have v: "b64_val c \<noteq> None" by (auto simp: b64_digit_def)
    have "b64_val (CHR ''-'') = None" "b64_val (CHR ''_'') = None" by (simp_all add: b64_val_def in_range_def)
    with v show "c \<noteq> CHR ''-''" "c \<noteq> CHR ''_''" by auto
  qed
  then show "b64_digit c \<Longrightarrow> b64_digit d \<Longrightarrow> url_safe c = url_safe d \<longleftrightarrow> c = d"
    by (auto simp: url_safe_def)
qed

text \<open>An encoding is digits, as many as the bits need, and padding.\<close>

lemma b64encode_digits:
  "\<exists>ds. b64encode bs = ds @ replicate ((3 - length bs mod 3) mod 3) (CHR ''='') \<and> list_all b64_digit ds
     \<and> length ds = (8 * length bs + 5) div 6"
proof (induction bs rule: b64encode.induct)
  case (4 a b c r)
  then obtain ds where ds: "b64encode r = ds @ replicate ((3 - length r mod 3) mod 3) (CHR ''='')" "list_all b64_digit ds"
    "length ds = (8 * length r + 5) div 6" by blast
  let ?q = "[b64_char (unat a div 4), b64_char (16 * (unat a mod 4) + unat b div 16),
      b64_char (4 * (unat b mod 16) + unat c div 64), b64_char (unat c mod 64)]"
  have l: "length (a # b # c # r) = 3 + length r" by simp
  have n: "length (a # b # c # r) mod 3 = length r mod 3" "(8 * length (a # b # c # r) + 5) div 6 = 4 + (8 * length r + 5) div 6"
    unfolding l by presburger+
  have "b64encode (a # b # c # r) = (?q @ ds) @ replicate ((3 - length (a # b # c # r) mod 3) mod 3) (CHR ''='')"
    unfolding n by (simp add: ds(1))
  moreover have "list_all b64_digit (?q @ ds)" using ds(2) by simp
  moreover have "length (?q @ ds) = (8 * length (a # b # c # r) + 5) div 6" unfolding n using ds(3) by simp
  ultimately show ?case by blast
next
  case (2 a)
  have "b64encode [a] = [b64_char (unat a div 4), b64_char (16 * (unat a mod 4))] @ replicate 2 (CHR ''='')"
    by (simp add: numeral_2_eq_2)
  then show ?case by (intro exI conjI) (assumption | simp)+
next
  case (3 a b)
  have "b64encode [a, b] = [b64_char (unat a div 4), b64_char (16 * (unat a mod 4) + unat b div 16), b64_char (4 * (unat b mod 16))]
      @ replicate 1 (CHR ''='')" by simp
  then show ?case by (intro exI conjI) (assumption | simp)+
qed simp

lemma token_urlsafe_digits:
  assumes "b64encode (take n random) = ds @ replicate k (CHR ''='')" "list_all b64_digit ds"
  shows "token_urlsafe n random = map url_safe ds"
proof -
  have pad: "dropWhile (\<lambda>c. c = CHR ''='') (replicate k (CHR ''='') @ s) = dropWhile (\<lambda>c. c = CHR ''='') s" for s
    by (induction k) simp_all
  have "rev (map url_safe ds) \<noteq> [] \<Longrightarrow> hd (rev (map url_safe ds)) \<in> set (map url_safe ds)"
    using hd_in_set [of "rev (map url_safe ds)"] by simp
  then have "dropWhile (\<lambda>c. c = CHR ''='') (rev (map url_safe ds)) = rev (map url_safe ds)"
    using assms(2) b64_digit_facts(3) unfolding dropWhile_eq_self_iff by (force simp: list_all_iff)
  then have "dropWhile (\<lambda>c. c = CHR ''='') (replicate k (CHR ''='') @ rev (map url_safe ds)) = rev (map url_safe ds)"
    by (simp only: pad)
  moreover have "rev (map url_safe (ds @ replicate k (CHR ''=''))) = replicate k (CHR ''='') @ rev (map url_safe ds)"
    by (simp add: url_safe_def)
  ultimately show ?thesis by (simp only: token_urlsafe_def assms(1) rev_rev_ident)
qed

text \<open>Tokens have 43 characters that need no quoting, and different random bytes give different tokens.\<close>

lemma token_shape:
  assumes "TOKEN_BYTES \<le> length random"
  shows "length (token_urlsafe TOKEN_BYTES random) = 43 \<and> list_all is_token_char (token_urlsafe TOKEN_BYTES random)"
proof -
  obtain ds where ds: "b64encode (take TOKEN_BYTES random) = ds @ replicate ((3 - length (take TOKEN_BYTES random) mod 3) mod 3) (CHR ''='')"
    "list_all b64_digit ds" "length ds = (8 * length (take TOKEN_BYTES random) + 5) div 6"
    using b64encode_digits by blast
  have "length ds = 43" using ds(3) assms by (simp add: TOKEN_BYTES_def)
  then show ?thesis using token_urlsafe_digits [OF ds(1,2)] ds(2) b64_digit_facts(2) by (auto simp: list_all_iff)
qed

lemma token_inj:
  assumes "TOKEN_BYTES \<le> length r" "TOKEN_BYTES \<le> length r'" "token_urlsafe TOKEN_BYTES r = token_urlsafe TOKEN_BYTES r'"
  shows "take TOKEN_BYTES r = take TOKEN_BYTES r'"
proof -
  obtain ds es where
    ds: "b64encode (take TOKEN_BYTES r) = ds @ replicate ((3 - length (take TOKEN_BYTES r) mod 3) mod 3) (CHR ''='')" "list_all b64_digit ds" and
    es: "b64encode (take TOKEN_BYTES r') = es @ replicate ((3 - length (take TOKEN_BYTES r') mod 3) mod 3) (CHR ''='')" "list_all b64_digit es"
    using b64encode_digits by metis
  have "map url_safe ds = map url_safe es"
    using assms(3) by (simp add: token_urlsafe_digits [OF ds] token_urlsafe_digits [OF es])
  then have "ds = es"
    using ds(2) es(2) url_safe_inj by (induction ds arbitrary: es) (auto simp: Cons_eq_map_conv)
  with ds(1) es(1) assms(1,2) have "b64encode (take TOKEN_BYTES r) = b64encode (take TOKEN_BYTES r')" by simp
  then show ?thesis by (metis b64decode_encode option.inject)
qed

section \<open>Facts\<close>

text \<open>The CSRF check passes exactly for a non-empty ASCII token equal to the session's; an empty token
  on either side never matches, and a request whose token is not ASCII makes the comparison raise.\<close>

theorem check_csrf_exact:
  "(check_csrf want got = Inr True \<longleftrightarrow> want \<noteq> [] \<and> got = want \<and> is_ascii want)
   \<and> (check_csrf want got = Inl TypeErr \<longleftrightarrow> want \<noteq> [] \<and> got \<noteq> [] \<and> \<not> (is_ascii want \<and> is_ascii got))"
  by (auto simp: check_csrf_def compare_digest_str_def)

lemma validate_password_iff: "validate_password p = Inr () \<longleftrightarrow> 12 \<le> length p \<and> length p \<le> 128"
  by (auto simp: validate_password_def MIN_PASSWORD_LEN_def MAX_PASSWORD_LEN_def)

lemma length_hash_token [simp]: "length (hash_token t) = 32"
  by (simp add: hash_token_def)

end
