(* ===== verification/RowTable.thy ===== *)
theory RowTable
  imports PyText
begin

text \<open>
  Tables of SQLite as the store uses them. A table with an \<open>INTEGER PRIMARY KEY\<close> is the list of
  its rows in key order; an insert takes the largest key plus one (there is no \<open>AUTOINCREMENT\<close> in
  the schema, so a key is used again once the rows from it on are gone). What the five such tables
  promise their callers is the contract \<open>rowid_table\<close>; the key/value table has \<open>kv_store\<close>.
\<close>

section \<open>Rowid tables\<close>

definition next_id :: "('r \<Rightarrow> int) \<Rightarrow> 'r list \<Rightarrow> int" where
  "next_id key t = foldr (\<lambda>r m. max (key r) m) t 0 + 1"

definition append_row :: "('r \<Rightarrow> int) \<Rightarrow> (int \<Rightarrow> 'r \<Rightarrow> 'r) \<Rightarrow> 'r \<Rightarrow> 'r list \<Rightarrow> 'r list" where
  "append_row key with_key r t = t @ [with_key (next_id key t) r]"

definition find_key :: "('r \<Rightarrow> int) \<Rightarrow> int \<Rightarrow> 'r list \<Rightarrow> 'r option" where
  "find_key key n t = find (\<lambda>r. key r = n) t"

definition update_where :: "('r \<Rightarrow> bool) \<Rightarrow> ('r \<Rightarrow> 'r) \<Rightarrow> 'r list \<Rightarrow> 'r list" where
  "update_where P f t = map (\<lambda>r. if P r then f r else r) t"

definition delete_where :: "('r \<Rightarrow> bool) \<Rightarrow> 'r list \<Rightarrow> 'r list" where
  "delete_where P t = filter (\<lambda>r. \<not> P r) t"

text \<open>Keys are positive and increasing.\<close>

definition keyed :: "('r \<Rightarrow> int) \<Rightarrow> 'r list \<Rightarrow> bool" where
  "keyed key t \<longleftrightarrow> sorted_wrt (<) (0 # map key t)"

locale rowid_table =
  fixes key :: "'r \<Rightarrow> int" and with_key :: "int \<Rightarrow> 'r \<Rightarrow> 'r"
  assumes key_with_key [simp]: "key (with_key n r) = n"
begin

lemma keyed_Nil: "keyed key []"
  by (simp add: keyed_def)

lemma next_id_upper: "r \<in> set t \<Longrightarrow> key r < next_id key t"
  by (induction t) (auto simp: next_id_def)

lemma next_id_pos: "0 < next_id key t"
  by (induction t) (auto simp: next_id_def)

lemma keyed_append: "keyed key t \<Longrightarrow> keyed key (append_row key with_key r t)"
  using next_id_upper [of _ t] next_id_pos [of t]
  by (auto simp: keyed_def append_row_def sorted_wrt_append)

lemma keyed_delete: "keyed key t \<Longrightarrow> keyed key (delete_where P t)"
  by (auto simp: keyed_def delete_where_def sorted_wrt_map intro: sorted_wrt_filter)

lemma keyed_update:
  assumes "keyed key t" "\<And>r. key (f r) = key r"
  shows "keyed key (update_where P f t)"
proof -
  have "map key (update_where P f t) = map key t" using assms(2) by (simp add: update_where_def)
  with assms(1) show ?thesis by (simp only: keyed_def)
qed

lemma keyed_distinct: "keyed key t \<Longrightarrow> distinct (map key t)"
  by (auto simp: keyed_def strict_sorted_iff)

lemma keyed_inj: "keyed key t \<Longrightarrow> r \<in> set t \<Longrightarrow> r' \<in> set t \<Longrightarrow> key r = key r' \<Longrightarrow> r = r'"
  using keyed_distinct by (metis distinct_map inj_onD)

lemma find_key_iff:
  assumes "keyed key t"
  shows "find_key key n t = Some r \<longleftrightarrow> r \<in> set t \<and> key r = n"
proof
  assume "find_key key n t = Some r"
  then show "r \<in> set t \<and> key r = n" by (auto simp: find_key_def find_Some_iff)
next
  assume r: "r \<in> set t \<and> key r = n"
  then have "find_key key n t \<noteq> None" by (auto simp: find_key_def find_None_iff)
  then obtain r' where r': "find_key key n t = Some r'" by auto
  then have "r' \<in> set t \<and> key r' = n" by (auto simp: find_key_def find_Some_iff)
  with r keyed_inj [OF assms] r' show "find_key key n t = Some r" by metis
qed

lemma find_key_None: "find_key key n t = None \<longleftrightarrow> n \<notin> key ` set t"
  by (auto simp: find_key_def find_None_iff)

lemma find_key_append_new:
  "keyed key t \<Longrightarrow> find_key key (next_id key t) (append_row key with_key r t) = Some (with_key (next_id key t) r)"
  by (subst find_key_iff [OF keyed_append]) (simp_all add: append_row_def)

lemma find_key_append_old:
  "keyed key t \<Longrightarrow> n \<noteq> next_id key t \<Longrightarrow> find_key key n (append_row key with_key r t) = find_key key n t"
proof -
  assume "keyed key t" "n \<noteq> next_id key t"
  have "n \<noteq> key r \<Longrightarrow> find_key key n (t @ [r]) = find_key key n t" for r
    by (induction t) (auto simp: find_key_def)
  with \<open>n \<noteq> next_id key t\<close> show ?thesis by (simp add: append_row_def)
qed

lemma find_key_delete: "keyed key t \<Longrightarrow> find_key key n (delete_where P t) =
    (case find_key key n t of None \<Rightarrow> None | Some r \<Rightarrow> if P r then None else Some r)"
proof -
  assume k: "keyed key t"
  show ?thesis
  proof (cases "find_key key n t")
    case None
    then have "n \<notin> key ` set (delete_where P t)" by (auto simp: find_key_None delete_where_def)
    then have "find_key key n (delete_where P t) = None" by (rule find_key_None [THEN iffD2])
    with None show ?thesis by simp
  next
    case (Some r)
    then have r: "r \<in> set t" "key r = n" using find_key_iff [OF k] by auto
    show ?thesis
    proof (cases "P r")
      case True
      then have "n \<notin> key ` set (delete_where P t)" using r keyed_inj [OF k] by (auto simp: delete_where_def)
      then show ?thesis using Some True by (simp add: find_key_None)
    next
      case False
      then have "find_key key n (delete_where P t) = Some r"
        using r find_key_iff [OF keyed_delete [OF k]] by (auto simp: delete_where_def)
      with Some False show ?thesis by simp
    qed
  qed
qed

lemma find_key_update:
  assumes "\<And>r. key (f r) = key r"
  shows "find_key key n (update_where P f t) = map_option (\<lambda>r. if P r then f r else r) (find_key key n t)"
  using assms by (induction t) (auto simp: find_key_def update_where_def)

text \<open>The key of a deleted tail is handed out again.\<close>

lemma next_id_reuse: "keyed key t \<Longrightarrow>
    next_id key (delete_where (\<lambda>r'. key r' = next_id key t) (append_row key with_key r t)) = next_id key t"
proof -
  assume "keyed key t"
  have "filter (\<lambda>r'. key r' \<noteq> next_id key t) t = t"
    using next_id_upper [of _ t] by (intro filter_True) fastforce
  then show ?thesis by (simp add: delete_where_def append_row_def)
qed

end

section \<open>Key/value tables\<close>

locale kv_store =
  fixes lookup :: "'s \<Rightarrow> pystr \<Rightarrow> pystr option" and put :: "'s \<Rightarrow> pystr \<Rightarrow> pystr \<Rightarrow> 's"
    and remove :: "'s \<Rightarrow> pystr \<Rightarrow> 's"
  assumes lookup_put: "lookup (put s k v) k' = (if k' = k then Some v else lookup s k')"
    and lookup_remove: "lookup (remove s k) k' = (if k' = k then None else lookup s k')"
begin

lemma lookup_put_same [simp]: "lookup (put s k v) k = Some v"
  by (simp add: lookup_put)

lemma last_put_wins: "lookup (put (put s k v) k v') k' = lookup (put s k v') k'"
  by (simp add: lookup_put)

lemma puts_commute: "k \<noteq> k' \<Longrightarrow> lookup (put (put s k v) k' v') j = lookup (put (put s k' v') k v) j"
  by (simp add: lookup_put)

lemma lookup_remove_same [simp]: "lookup (remove s k) k = None"
  by (simp add: lookup_remove)

lemma remove_put: "lookup (remove (put s k v) k) k' = (if k' = k then None else lookup s k')"
  by (simp add: lookup_remove lookup_put)

end

end
