(* ===== verification/StoreModel.thy ===== *)
theory StoreModel
  imports RowTable
begin

text \<open>
  \<open>store/models.py\<close>, \<open>store/_base.py\<close> and the schema \<open>0001_init.sql\<close>: the row types, the
  database as a record of its tables, the schema's constraints as checks that raise
  \<open>IntegrityErr\<close>, \<open>like_escape\<close> with the \<open>LIKE\<close> it is for, and \<open>_executemany\<close>.
  The connection is opened with \<open>isolation_level=None\<close>: every statement commits on its own.
  Text is restricted to code points below 256, as everywhere in this development.
\<close>

section \<open>Rows\<close>

record User =
  user_id :: int
  user_email :: pystr
  user_password_hash :: pystr
  user_role :: pystr
  user_active :: bool
  user_created_at :: int

record Session =
  sess_id :: int
  sess_token_hash :: bytes
  sess_user_id :: int
  sess_csrf_token :: pystr
  sess_created_at :: int
  sess_last_seen_at :: int
  sess_expires_at :: int
  sess_ip :: pystr
  sess_user_agent :: pystr

record Endpoint =
  end_id :: int
  end_path :: pystr
  end_provider :: pystr
  end_upstream_url :: pystr
  end_replay_window :: pystr
  end_secret_env :: pystr
  end_webhook_id :: pystr
  end_active :: bool
  end_created_at :: int
  end_updated_at :: int

record Event =
  evt_id :: int
  evt_received_at :: int
  evt_path :: pystr
  evt_provider :: pystr
  evt_verdict :: pystr
  evt_reason :: pystr
  evt_upstream_status :: int
  evt_latency_ms :: int
  evt_body_bytes :: int
  evt_body_sha256 :: pystr
  evt_remote_ip :: pystr

record AuthEvent =
  aev_id :: int
  aev_at :: int
  aev_user_id :: "int option"
  aev_email :: pystr
  aev_kind :: pystr
  aev_ip :: pystr

text \<open>The key of \<open>event_rollups\<close>: hour, provider, verdict.\<close>

type_synonym bucket = "int \<times> pystr \<times> pystr"

record RollupDelta =
  rd_hour :: int
  rd_provider :: pystr
  rd_verdict :: pystr
  rd_n :: int

record HourlyCounts =
  hc_hour :: int
  hc_accepted :: int
  hc_rejected :: int

record ProviderStats =
  ps_accepted :: int
  ps_rejected :: int

record EventFilter =
  flt_provider :: pystr
  flt_verdict :: pystr
  flt_reason :: pystr
  flt_path :: pystr
  flt_from_ms :: int
  flt_to_ms :: int

definition DEFAULT_RETENTION_DAYS :: int where
  "DEFAULT_RETENTION_DAYS = 30"

section \<open>The database\<close>

record store =
  users :: "User list"
  sessions :: "Session list"
  endpoints :: "Endpoint list"
  events :: "Event list"
  rollups :: "(bucket \<times> int) list"
  auth_events :: "AuthEvent list"
  settings :: "pystr \<rightharpoonup> pystr"

text \<open>The database the schema creates.\<close>

definition empty_store :: store where
  "empty_store = \<lparr>users = [], sessions = [], endpoints = [], events = [], rollups = [],
     auth_events = [], settings = Map.empty\<rparr>"

text \<open>\<open>sqlite3\<close> binds a Python \<open>int\<close> to a signed 64-bit value or raises.\<close>

definition fits_sql :: "int \<Rightarrow> bool" where
  "fits_sql n \<longleftrightarrow> - (2 ^ 63) \<le> n \<and> n < 2 ^ 63"

section \<open>Statements\<close>

text \<open>\<open>conn.executemany\<close> inside \<open>_transaction\<close>. \<open>isolation_level=None\<close> means no \<open>BEGIN\<close> is
  ever sent, so each row commits by itself, and the \<open>rollback\<close> after an error has nothing to undo:
  the state is the one the rows before the error left.\<close>

fun executemany :: "('row \<Rightarrow> store \<Rightarrow> store py) \<Rightarrow> 'row list \<Rightarrow> store \<Rightarrow> unit py \<times> store" where
  "executemany stmt [] st = (Inr (), st)"
| "executemany stmt (row # rows) st =
     (case stmt row st of Inl e \<Rightarrow> (Inl e, st) | Inr st' \<Rightarrow> executemany stmt rows st')"

section \<open>LIKE\<close>

text \<open>\<open>value.replace(...)\<close> three times.\<close>

definition replace_char :: "char \<Rightarrow> pystr \<Rightarrow> pystr \<Rightarrow> pystr" where
  "replace_char c r s = concat (map (\<lambda>x. if x = c then r else [x]) s)"

definition like_escape :: "pystr \<Rightarrow> pystr" where
  "like_escape value =
     replace_char (CHR ''_'') [CHR 0x5C, CHR ''_'']
       (replace_char (CHR ''%'') [CHR 0x5C, CHR ''%'']
         (replace_char (CHR 0x5C) [CHR 0x5C, CHR 0x5C] value))"

text \<open>SQLite's \<open>LIKE\<close> with \<open>ESCAPE '\'\<close>: ASCII letters match without regard to case.\<close>

fun like :: "pystr \<Rightarrow> pystr \<Rightarrow> bool" where
  "like [] s \<longleftrightarrow> s = []"
| "like (p # ps) s \<longleftrightarrow>
     (if p = CHR ''%'' then (\<exists>n \<in> set [0 ..< Suc (length s)]. like ps (drop n s))
      else if p = CHR ''_'' then s \<noteq> [] \<and> like ps (tl s)
      else if p = CHR 0x5C then
        (case ps of [] \<Rightarrow> False
         | q # qs \<Rightarrow> s \<noteq> [] \<and> ascii_fold_char q = ascii_fold_char (hd s) \<and> like qs (tl s))
      else s \<noteq> [] \<and> ascii_fold_char p = ascii_fold_char (hd s) \<and> like ps (tl s))"

definition like_pattern :: "pystr \<Rightarrow> pystr" where
  "like_pattern v = ''%'' @ like_escape v @ ''%''"

text \<open>What escaping does to one character.\<close>

definition escape_char :: "char \<Rightarrow> pystr" where
  "escape_char c = (if c \<in> {CHR 0x5C, CHR ''%'', CHR ''_''} then [CHR 0x5C, c] else [c])"

lemma like_escape_concat: "like_escape v = concat (map escape_char v)"
  by (induction v) (auto simp: like_escape_def replace_char_def escape_char_def)

lemma like_escaped_prefix:
  "like (like_escape v @ ps) s \<longleftrightarrow>
     length v \<le> length s \<and> ascii_fold (take (length v) s) = ascii_fold v \<and> like ps (drop (length v) s)"
proof (induction v arbitrary: s)
  case Nil
  then show ?case by (simp add: like_escape_concat ascii_fold_def)
next
  case (Cons c v)
  then show ?case
    by (cases s) (auto simp: like_escape_concat ascii_fold_def escape_char_def split: if_splits)
qed

lemma like_percent_all: "like ''%'' s"
  by simp

lemma contains_iff_drop:
  "contains sub s \<longleftrightarrow> (\<exists>n. n \<le> length s \<and> startswith (drop n s) sub)"
proof
  assume "contains sub s"
  then obtain a b where "s = a @ sub @ b" by (auto simp: contains_iff)
  then show "\<exists>n. n \<le> length s \<and> startswith (drop n s) sub" by (intro exI [of _ "length a"]) auto
next
  assume "\<exists>n. n \<le> length s \<and> startswith (drop n s) sub"
  then obtain n b where "drop n s = sub @ b" by (auto simp: startswith_iff)
  then have "s = take n s @ sub @ b" by (metis append_take_drop_id)
  then show "contains sub s" by (auto simp: contains_iff)
qed

lemma ascii_fold_drop: "ascii_fold (drop n s) = drop n (ascii_fold s)"
  "ascii_fold (take n s) = take n (ascii_fold s)" "length (ascii_fold s) = length s"
  by (simp_all add: ascii_fold_def drop_map take_map)

lemma like_percent: "like (CHR ''%'' # ps) s \<longleftrightarrow> (\<exists>n \<le> length s. like ps (drop n s))"
  by (auto simp: less_Suc_eq_le simp del: upt_Suc)

lemma like_pattern_contains: "like (like_pattern v) s \<longleftrightarrow> contains (ascii_fold v) (ascii_fold s)"
proof -
  have "like (like_pattern v) s \<longleftrightarrow> (\<exists>n \<le> length s. like (like_escape v @ ''%'') (drop n s))"
    by (simp only: like_pattern_def append.simps like_percent)
  also have "\<dots> \<longleftrightarrow> (\<exists>n \<le> length s. startswith (drop n (ascii_fold s)) (ascii_fold v))"
    by (auto simp only: like_escaped_prefix like_percent_all startswith_def ascii_fold_drop length_drop simp_thms)
       (metis ascii_fold_drop(1,3) length_drop length_take min.absorb_iff2 min.commute)+
  also have "\<dots> \<longleftrightarrow> contains (ascii_fold v) (ascii_fold s)"
    by (simp add: contains_iff_drop ascii_fold_drop)
  finally show ?thesis .
qed

text \<open>A filter value is matched literally. Whatever text the user typed, percent signs, underscores
  and backslashes included, the escaped \<open>LIKE\<close> pattern matches exactly the strings that contain it
  as a substring, ASCII letters compared without regard to case.\<close>

theorem like_escape_literal:
  "like (''%'' @ like_escape v @ ''%'') s \<longleftrightarrow> contains (ascii_fold v) (ascii_fold s)"
  using like_pattern_contains by (simp only: like_pattern_def)

end
