(* ===== verification/StoreUsers.thy ===== *)
theory StoreUsers
  imports StoreModel
begin

text \<open>
  \<open>store/users.py\<close>, \<open>sessions.py\<close>, \<open>settings.py\<close> and \<open>auth_events.py\<close>: each method as a
  function of the database, raising \<open>NotFoundErr\<close> or, for a violated constraint of the schema,
  \<open>IntegrityErr\<close>. Methods that only write return the new database.
\<close>

section \<open>Users\<close>

definition count_users :: "store \<Rightarrow> int" where
  "count_users st = int (length (users st))"

text \<open>\<open>email TEXT UNIQUE COLLATE NOCASE\<close>, \<open>role CHECK (... IN ('admin','member'))\<close>.\<close>

definition create_user :: "pystr \<Rightarrow> pystr \<Rightarrow> pystr \<Rightarrow> int \<Rightarrow> store \<Rightarrow> (int \<times> store) py" where
  "create_user email password_hash role created_at st =
     (if \<exists>u \<in> set (users st). ascii_fold (user_email u) = ascii_fold email
      then Inl (IntegrityErr ''UNIQUE constraint failed: users.email'')
      else if role \<noteq> ''admin'' \<and> role \<noteq> ''member'' then Inl (IntegrityErr ''CHECK constraint failed: role'')
      else let n = next_id user_id (users st) in
        Inr (n, st\<lparr>users := append_row user_id (\<lambda>n u. u\<lparr>user_id := n\<rparr>)
                    \<lparr>user_id = 0, user_email = email, user_password_hash = password_hash, user_role = role,
                     user_active = True, user_created_at = created_at\<rparr> (users st)\<rparr>))"

definition get_user_by_email :: "pystr \<Rightarrow> store \<Rightarrow> User py" where
  "get_user_by_email email st =
     (case find (\<lambda>u. ascii_fold (user_email u) = ascii_fold email) (users st) of
        None \<Rightarrow> Inl (NotFoundErr (''no user with email '' @ py_repr email))
      | Some u \<Rightarrow> Inr u)"

definition get_user_by_id :: "int \<Rightarrow> store \<Rightarrow> User py" where
  "get_user_by_id n st =
     (case find_key user_id n (users st) of
        None \<Rightarrow> Inl (NotFoundErr (''no user with id '' @ show_int n)) | Some u \<Rightarrow> Inr u)"

definition update_password_hash :: "int \<Rightarrow> pystr \<Rightarrow> store \<Rightarrow> store" where
  "update_password_hash n hash st =
     st\<lparr>users := update_where (\<lambda>u. user_id u = n) (\<lambda>u. u\<lparr>user_password_hash := hash\<rparr>) (users st)\<rparr>"

definition list_users :: "store \<Rightarrow> User list" where
  "list_users st = sort_key user_created_at (users st)"

definition set_user_active :: "int \<Rightarrow> bool \<Rightarrow> store \<Rightarrow> store" where
  "set_user_active n active st =
     st\<lparr>users := update_where (\<lambda>u. user_id u = n) (\<lambda>u. u\<lparr>user_active := active\<rparr>) (users st)\<rparr>"

section \<open>Sessions\<close>

text \<open>\<open>token_hash UNIQUE\<close>, \<open>user_id REFERENCES users(id)\<close>.\<close>

definition create_session :: "Session \<Rightarrow> store \<Rightarrow> (int \<times> store) py" where
  "create_session s st =
     (if \<exists>r \<in> set (sessions st). sess_token_hash r = sess_token_hash s
      then Inl (IntegrityErr ''UNIQUE constraint failed: sessions.token_hash'')
      else if sess_user_id s \<notin> user_id ` set (users st) then Inl (IntegrityErr ''FOREIGN KEY constraint failed'')
      else let n = next_id sess_id (sessions st) in
        Inr (n, st\<lparr>sessions := append_row sess_id (\<lambda>n r. r\<lparr>sess_id := n\<rparr>) s (sessions st)\<rparr>))"

definition get_session_by_token_hash :: "bytes \<Rightarrow> store \<Rightarrow> Session py" where
  "get_session_by_token_hash h st =
     (case find (\<lambda>r. sess_token_hash r = h) (sessions st) of
        None \<Rightarrow> Inl (NotFoundErr ''no session for that token'') | Some r \<Rightarrow> Inr r)"

definition touch_session :: "int \<Rightarrow> int \<Rightarrow> store \<Rightarrow> store" where
  "touch_session n last_seen_at st =
     st\<lparr>sessions := update_where (\<lambda>r. sess_id r = n) (\<lambda>r. r\<lparr>sess_last_seen_at := last_seen_at\<rparr>) (sessions st)\<rparr>"

definition delete_session :: "int \<Rightarrow> store \<Rightarrow> store" where
  "delete_session n st = st\<lparr>sessions := delete_where (\<lambda>r. sess_id r = n) (sessions st)\<rparr>"

definition delete_session_by_token_hash :: "bytes \<Rightarrow> store \<Rightarrow> store" where
  "delete_session_by_token_hash h st =
     st\<lparr>sessions := delete_where (\<lambda>r. sess_token_hash r = h) (sessions st)\<rparr>"

definition delete_sessions_for_user_except :: "int \<Rightarrow> int \<Rightarrow> store \<Rightarrow> int \<times> store" where
  "delete_sessions_for_user_except uid keep_id st =
     (int (length (filter (\<lambda>r. sess_user_id r = uid \<and> sess_id r \<noteq> keep_id) (sessions st))),
      st\<lparr>sessions := delete_where (\<lambda>r. sess_user_id r = uid \<and> sess_id r \<noteq> keep_id) (sessions st)\<rparr>)"

definition list_sessions_for_user :: "int \<Rightarrow> store \<Rightarrow> Session list" where
  "list_sessions_for_user uid st =
     sort_key (\<lambda>r. - sess_last_seen_at r) (filter (\<lambda>r. sess_user_id r = uid) (sessions st))"

section \<open>Settings\<close>

definition get_setting :: "pystr \<Rightarrow> store \<Rightarrow> pystr py" where
  "get_setting k st =
     (case settings st k of None \<Rightarrow> Inl (NotFoundErr (''no setting '' @ py_repr k)) | Some v \<Rightarrow> Inr v)"

definition set_setting :: "pystr \<Rightarrow> pystr \<Rightarrow> store \<Rightarrow> store" where
  "set_setting k v st = st\<lparr>settings := (settings st)(k \<mapsto> v)\<rparr>"

definition delete_setting :: "pystr \<Rightarrow> store \<Rightarrow> store" where
  "delete_setting k st = st\<lparr>settings := (settings st)(k := None)\<rparr>"

definition get_retention_days :: "store \<Rightarrow> int" where
  "get_retention_days st =
     (case get_setting ''retention_days'' st of
        Inl _ \<Rightarrow> DEFAULT_RETENTION_DAYS
      | Inr raw \<Rightarrow> (case py_int raw of Inl _ \<Rightarrow> DEFAULT_RETENTION_DAYS | Inr n \<Rightarrow> n))"

definition set_retention_days :: "int \<Rightarrow> store \<Rightarrow> store" where
  "set_retention_days days st = set_setting ''retention_days'' (show_int days) st"

section \<open>The security log\<close>

definition insert_auth_event :: "AuthEvent \<Rightarrow> store \<Rightarrow> store" where
  "insert_auth_event e st =
     st\<lparr>auth_events := append_row aev_id (\<lambda>n r. r\<lparr>aev_id := n\<rparr>) e (auth_events st)\<rparr>"

definition list_auth_events :: "nat \<Rightarrow> store \<Rightarrow> AuthEvent list" where
  "list_auth_events limit st = take limit (sort_key (\<lambda>r. - aev_at r) (rev (auth_events st)))"

section \<open>The contracts\<close>

interpretation user_table: rowid_table user_id "\<lambda>n (u :: User). u\<lparr>user_id := n\<rparr>"
  by unfold_locales simp

interpretation session_table: rowid_table sess_id "\<lambda>n (r :: Session). r\<lparr>sess_id := n\<rparr>"
  by unfold_locales simp

interpretation auth_event_table: rowid_table aev_id "\<lambda>n (r :: AuthEvent). r\<lparr>aev_id := n\<rparr>"
  by unfold_locales simp

interpretation setting_table: kv_store "settings" "\<lambda>st k v. set_setting k v st" "\<lambda>st k. delete_setting k st"
  by unfold_locales (auto simp: set_setting_def delete_setting_def)

section \<open>The schema's invariant\<close>

text \<open>What the schema guarantees of the tables of this theory: keys, unique e-mail addresses without
  regard to case, known roles, unique token hashes, and sessions that belong to a user.\<close>

definition accounts_ok :: "store \<Rightarrow> bool" where
  "accounts_ok st \<longleftrightarrow>
     keyed user_id (users st) \<and> keyed sess_id (sessions st) \<and> keyed aev_id (auth_events st)
     \<and> distinct (map (\<lambda>u. ascii_fold (user_email u)) (users st))
     \<and> (\<forall>u \<in> set (users st). user_role u = ''admin'' \<or> user_role u = ''member'')
     \<and> distinct (map sess_token_hash (sessions st))
     \<and> sess_user_id ` set (sessions st) \<subseteq> user_id ` set (users st)"

lemma accounts_ok_empty: "accounts_ok empty_store"
  by (simp add: accounts_ok_def empty_store_def user_table.keyed_Nil session_table.keyed_Nil auth_event_table.keyed_Nil)

lemma update_where_map: "(\<And>r. g (f r) = g r) \<Longrightarrow> map g (update_where P f t) = map g t"
  by (simp add: update_where_def)

lemma update_where_image: "(\<And>r. g (f r) = g r) \<Longrightarrow> g ` set (update_where P f t) = g ` set t"
  by (metis list.set_map update_where_map)

lemma delete_where_set: "set (delete_where P t) \<subseteq> set t"
  by (auto simp: delete_where_def)

lemma distinct_delete_where: "distinct (map g t) \<Longrightarrow> distinct (map g (delete_where P t))"
  by (induction t) (auto simp: delete_where_def)

lemma create_user_ok [inv_intros]:
  assumes "accounts_ok st" "create_user email hash role at st = Inr (n, st')"
  shows "accounts_ok st'"
proof -
  let ?u = "\<lparr>user_id = n, user_email = email, user_password_hash = hash, user_role = role,
     user_active = True, user_created_at = at\<rparr>"
  have st': "st' = st\<lparr>users := users st @ [?u]\<rparr>" and n: "n = next_id user_id (users st)"
    and fresh: "ascii_fold email \<notin> (\<lambda>u. ascii_fold (user_email u)) ` set (users st)"
    and role: "role = ''admin'' \<or> role = ''member''"
    using assms(2) by (auto simp: create_user_def Let_def append_row_def split: if_splits)
  have "keyed user_id (users st @ [?u])"
    using assms(1) user_table.keyed_append [of "users st" ?u] by (simp add: accounts_ok_def append_row_def n)
  with assms(1) fresh role show ?thesis by (auto simp: accounts_ok_def st')
qed

lemma update_users_ok:
  assumes "accounts_ok st" "\<And>u. user_id (f u) = user_id u" "\<And>u. user_email (f u) = user_email u"
    "\<And>u. user_role (f u) = user_role u"
  shows "accounts_ok (st\<lparr>users := update_where P f (users st)\<rparr>)"
proof -
  let ?t = "update_where P f (users st)"
  have "map (\<lambda>u. ascii_fold (user_email u)) ?t = map (\<lambda>u. ascii_fold (user_email u)) (users st)"
    "user_id ` set ?t = user_id ` set (users st)"
    using assms by (simp_all add: update_where_map update_where_image)
  moreover have "\<forall>u \<in> set ?t. user_role u = ''admin'' \<or> user_role u = ''member''"
    using assms(1,4) by (auto simp: accounts_ok_def update_where_def)
  moreover have "keyed user_id ?t"
    using assms user_table.keyed_update [of "users st" f P] by (simp add: accounts_ok_def)
  ultimately show ?thesis using assms(1) by (simp add: accounts_ok_def)
qed

lemma update_password_hash_ok [inv_intros]: "accounts_ok st \<Longrightarrow> accounts_ok (update_password_hash n h st)"
  unfolding update_password_hash_def by (rule update_users_ok) simp_all

lemma set_user_active_ok [inv_intros]: "accounts_ok st \<Longrightarrow> accounts_ok (set_user_active n b st)"
  unfolding set_user_active_def by (rule update_users_ok) simp_all

lemma create_session_ok [inv_intros]:
  assumes "accounts_ok st" "create_session s st = Inr (n, st')"
  shows "accounts_ok st'"
proof -
  have st': "st' = st\<lparr>sessions := append_row sess_id (\<lambda>n r. r\<lparr>sess_id := n\<rparr>) s (sessions st)\<rparr>"
    and fresh: "sess_token_hash s \<notin> sess_token_hash ` set (sessions st)"
    and fk: "sess_user_id s \<in> user_id ` set (users st)"
    using assms(2) by (auto simp: create_session_def Let_def split: if_splits)
  have k: "keyed sess_id (append_row sess_id (\<lambda>n r. r\<lparr>sess_id := n\<rparr>) s (sessions st))"
    using assms(1) by (intro session_table.keyed_append) (simp add: accounts_ok_def)
  show ?thesis using assms(1) fresh fk k by (auto simp: accounts_ok_def st' append_row_def)
qed

lemma delete_sessions_ok:
  assumes "accounts_ok st"
  shows "accounts_ok (st\<lparr>sessions := delete_where P (sessions st)\<rparr>)"
  using assms session_table.keyed_delete distinct_delete_where [of sess_token_hash "sessions st" P] delete_where_set [of P "sessions st"]
  by (auto simp: accounts_ok_def dest!: subsetD)

lemma session_deletes_ok [inv_intros]:
  "accounts_ok st \<Longrightarrow> accounts_ok (delete_session n st)"
  "accounts_ok st \<Longrightarrow> accounts_ok (delete_session_by_token_hash h st)"
  "accounts_ok st \<Longrightarrow> accounts_ok (snd (delete_sessions_for_user_except u k st))"
  by (simp_all add: delete_session_def delete_session_by_token_hash_def delete_sessions_for_user_except_def
      delete_sessions_ok)

lemma touch_session_ok [inv_intros]: "accounts_ok st \<Longrightarrow> accounts_ok (touch_session n t st)"
proof -
  assume ok: "accounts_ok st"
  let ?f = "\<lambda>r :: Session. r\<lparr>sess_last_seen_at := t\<rparr>" and ?P = "\<lambda>r :: Session. sess_id r = n"
  have "map sess_token_hash (update_where ?P ?f (sessions st)) = map sess_token_hash (sessions st)"
    "sess_user_id ` set (update_where ?P ?f (sessions st)) = sess_user_id ` set (sessions st)"
    by (simp_all add: update_where_map update_where_image)
  with ok session_table.keyed_update [of "sessions st" ?f ?P] show ?thesis
    by (simp add: accounts_ok_def touch_session_def)
qed

lemma settings_ok [inv_intros]:
  "accounts_ok st \<Longrightarrow> accounts_ok (set_setting k v st)"
  "accounts_ok st \<Longrightarrow> accounts_ok (delete_setting k st)"
  by (simp_all add: accounts_ok_def set_setting_def delete_setting_def)

lemma insert_auth_event_ok [inv_intros]: "accounts_ok st \<Longrightarrow> accounts_ok (insert_auth_event e st)"
  using auth_event_table.keyed_append [of "auth_events st" e] by (simp add: accounts_ok_def insert_auth_event_def)

end
