(* ===== verification/SessionMiddleware.thy ===== *)
theory SessionMiddleware
  imports AuthPrim StoreUsers FloatTime GatewayRoute
begin

text \<open>
  \<open>middleware.py\<close>: loading the session of a request, the CSRF check of a request, and the sanitizer of
  redirect targets; and the guards of \<open>deps.py\<close> that rest on them.
\<close>

definition TOUCH_INTERVAL :: usec where
  "TOUCH_INTERVAL = 60 * 1000000"

text \<open>\<open>SessionMiddleware._load\<close>: the user and session of the request, and the new database.\<close>

definition load_session :: "usec \<Rightarrow> pystr option \<Rightarrow> store \<Rightarrow> (User \<times> Session) option \<times> store" where
  "load_session now cookie st =
     (if absent cookie then (None, st)
      else case get_session_by_token_hash (hash_token (the cookie)) st of
        Inl _ \<Rightarrow> (None, st)
      | Inr session \<Rightarrow>
          let expires_at = from_millis (sess_expires_at session);
              last_seen = from_millis (sess_last_seen_at session) in
          if expires_at < now \<or> last_seen + SESSION_IDLE_TIMEOUT < now
          then (None, delete_session (sess_id session) st)
          else
            let st1 = (if TOUCH_INTERVAL < now - last_seen
                       then touch_session (sess_id session) (millis now) st else st) in
            case get_user_by_id (sess_user_id session) st1 of
              Inl _ \<Rightarrow> (None, st1)
            | Inr user \<Rightarrow> if \<not> user_active user then (None, st1) else (Some (user, session), st1))"

text \<open>\<open>check_request_csrf\<close>: the header if it is there and not empty, else the form field.\<close>

definition check_request_csrf :: "headers \<Rightarrow> (pystr \<rightharpoonup> pystr) \<Rightarrow> Session option \<Rightarrow> bool py" where
  "check_request_csrf headers form session =
     (let got = (if absent (headers CSRF_HEADER)
                 then (case form CSRF_FORM_FIELD of None \<Rightarrow> [] | Some v \<Rightarrow> v) else the (headers CSRF_HEADER)) in
      case session of None \<Rightarrow> Inr False | Some s \<Rightarrow> check_csrf (sess_csrf_token s) got)"

definition safe_next :: "pystr option \<Rightarrow> pystr" where
  "safe_next next_path =
     (if absent next_path \<or> \<not> startswith (the next_path) ''/'' \<or> startswith (the next_path) ''//''
      then ''/dashboard''
      else if startswith (the next_path) [CHR ''/'', CHR 0x5C] then ''/dashboard''
      else the next_path)"

section \<open>Guards\<close>

datatype guard_stop = ToLogin pystr | Forbidden403 | CsrfRejected403 | GuardRaised pyexn

definition require_auth :: "pystr \<Rightarrow> User option \<Rightarrow> guard_stop + User" where
  "require_auth path user = (case user of None \<Rightarrow> Inl (ToLogin (''/login?next='' @ path)) | Some u \<Rightarrow> Inr u)"

definition require_admin :: "pystr \<Rightarrow> User option \<Rightarrow> guard_stop + User" where
  "require_admin path user =
     (case require_auth path user of
        Inl r \<Rightarrow> Inl r
      | Inr u \<Rightarrow> if user_role u \<noteq> ''admin'' then Inl Forbidden403 else Inr u)"

definition require_csrf :: "headers \<Rightarrow> (pystr \<rightharpoonup> pystr) \<Rightarrow> Session option \<Rightarrow> guard_stop + Session" where
  "require_csrf headers form session =
     (case check_request_csrf headers form session of
        Inl e \<Rightarrow> Inl (GuardRaised e)
      | Inr ok \<Rightarrow> if ok then Inr (the session) else Inl CsrfRejected403)"

section \<open>Sessions\<close>

text \<open>What the code means by a live session, on exact times.\<close>

definition session_live :: "usec \<Rightarrow> Session \<Rightarrow> bool" where
  "session_live now s \<longleftrightarrow>
     now \<le> sess_expires_at s * 1000 \<and> now \<le> sess_last_seen_at s * 1000 + SESSION_IDLE_TIMEOUT"

definition times_sane :: "Session \<Rightarrow> bool" where
  "times_sane s \<longleftrightarrow> 0 \<le> sess_expires_at s \<and> sess_expires_at s < 2 ^ 31 * 1000
     \<and> 0 \<le> sess_last_seen_at s \<and> sess_last_seen_at s < 2 ^ 31 * 1000"

lemma get_session_Some: "get_session_by_token_hash h st = Inr s \<Longrightarrow> s \<in> set (sessions st) \<and> sess_token_hash s = h"
  by (auto simp: get_session_by_token_hash_def find_Some_iff split: option.splits)

lemma get_session_iff:
  assumes "accounts_ok st"
  shows "get_session_by_token_hash h st = Inr s \<longleftrightarrow> s \<in> set (sessions st) \<and> sess_token_hash s = h"
proof
  assume s: "s \<in> set (sessions st) \<and> sess_token_hash s = h"
  then obtain r where r: "get_session_by_token_hash h st = Inr r"
    by (cases "find (\<lambda>r. sess_token_hash r = h) (sessions st)")
       (auto simp: get_session_by_token_hash_def find_None_iff)
  have "inj_on sess_token_hash (set (sessions st))" using assms by (simp add: accounts_ok_def distinct_map)
  with s get_session_Some [OF r] r show "get_session_by_token_hash h st = Inr s" by (auto simp: inj_on_def)
qed (rule get_session_Some)

lemma get_user_iff:
  assumes "accounts_ok st"
  shows "get_user_by_id n st = Inr u \<longleftrightarrow> u \<in> set (users st) \<and> user_id u = n"
  using user_table.find_key_iff [of "users st" n u] assms
  by (auto simp: get_user_by_id_def accounts_ok_def split: option.splits)

lemma touch_session_users [simp]: "users (touch_session n t st) = users st" "users (delete_session n st) = users st"
  by (simp_all add: touch_session_def delete_session_def)

lemma load_session_ok [inv_intros]: "accounts_ok st \<Longrightarrow> accounts_ok (snd (load_session now cookie st))"
  by (auto simp: load_session_def Let_def touch_session_ok session_deletes_ok split: sum.split)

lemma session_live_millis:
  assumes "list_all times_sane (sessions st)" "r \<in> set (sessions st)"
  shows "(from_millis (sess_expires_at r) < now \<or> from_millis (sess_last_seen_at r) + SESSION_IDLE_TIMEOUT < now)
    \<longleftrightarrow> \<not> session_live now r"
  using assms from_millis_exact by (auto simp: session_live_def times_sane_def list_all_iff)

lemma load_session_who:
  assumes "accounts_ok st" "list_all times_sane (sessions st)"
  shows "fst (load_session now cookie st) = Some (u, s) \<longleftrightarrow>
    (\<exists>token. cookie = Some token \<and> token \<noteq> [] \<and> s \<in> set (sessions st) \<and> sess_token_hash s = hash_token token
       \<and> session_live now s \<and> u \<in> set (users st) \<and> user_id u = sess_user_id s \<and> user_active u)"
    (is "_ \<longleftrightarrow> ?who")
proof (cases "absent cookie")
  case True
  then show ?thesis by (auto simp: load_session_def absent_def split: option.splits)
next
  case False
  then obtain token where t: "cookie = Some token" "token \<noteq> []" by (auto simp: not_absent)
  have users: "get_user_by_id n (touch_session k m st) = get_user_by_id n st" for n k m
    by (simp add: get_user_by_id_def)
  show ?thesis
  proof (cases "get_session_by_token_hash (hash_token token) st")
    case (Inl e)
    then have "\<forall>r \<in> set (sessions st). sess_token_hash r \<noteq> hash_token token"
      using get_session_iff [OF assms(1), of "hash_token token"] by fastforce
    with Inl t show ?thesis by (auto simp: load_session_def)
  next
    case (Inr r)
    then have r: "r \<in> set (sessions st)" "sess_token_hash r = hash_token token"
      using get_session_iff [OF assms(1)] by auto
    have one: "x \<in> set (sessions st) \<and> sess_token_hash x = hash_token token \<longleftrightarrow> x = r" for x
      using get_session_iff [OF assms(1), of "hash_token token" x] Inr by auto
    have "fst (load_session now cookie st) = (if \<not> session_live now r then None
        else case get_user_by_id (sess_user_id r) st of Inl _ \<Rightarrow> None
          | Inr user \<Rightarrow> if \<not> user_active user then None else Some (user, r))"
      using t Inr users session_live_millis [OF assms(2) r(1), of now] by (simp add: load_session_def Let_def split: sum.split)
    then have "fst (load_session now cookie st) = Some (u, s) \<longleftrightarrow>
        s = r \<and> session_live now r \<and> get_user_by_id (sess_user_id r) st = Inr u \<and> user_active u"
      by (auto split: sum.split)
    also have "\<dots> \<longleftrightarrow> s = r \<and> session_live now r \<and> u \<in> set (users st) \<and> user_id u = sess_user_id r \<and> user_active u"
      using get_user_iff [OF assms(1), of "sess_user_id r" u] by simp
    also have "\<dots> \<longleftrightarrow> ?who" using t one [of s] by auto
    finally show ?thesis .
  qed
qed

lemma load_session_expired:
  assumes "accounts_ok st" "list_all times_sane (sessions st)" "s \<in> set (sessions st)" "\<not> session_live now s"
    "token \<noteq> []" "sess_token_hash s = hash_token token"
  shows "s \<notin> set (sessions (snd (load_session now (Some token) st)))"
proof -
  have "get_session_by_token_hash (hash_token token) st = Inr s"
    using get_session_iff [OF assms(1), of "hash_token token" s] assms(3,6) by simp
  then have "load_session now (Some token) st = (None, delete_session (sess_id s) st)"
    using assms(4,5) session_live_millis [OF assms(2,3), of now] by (simp add: load_session_def Let_def)
  then show ?thesis by (auto simp: delete_session_def delete_where_def)
qed

text \<open>C7: who a request is. On a consistent database, a request is attributed to a user exactly when its
  cookie hashes to a stored session that is live (within its absolute cap and used within the last
  seven days) and belongs to an active user; the user and session returned are those. A session found
  expired is deleted on sight.\<close>

theorem load_session_exact:
  assumes "accounts_ok st" "list_all times_sane (sessions st)"
  shows "(fst (load_session now cookie st) = Some (u, s) \<longleftrightarrow>
      (\<exists>token. cookie = Some token \<and> token \<noteq> [] \<and> s \<in> set (sessions st) \<and> sess_token_hash s = hash_token token
         \<and> session_live now s \<and> u \<in> set (users st) \<and> user_id u = sess_user_id s \<and> user_active u))
    \<and> (s \<in> set (sessions st) \<and> \<not> session_live now s \<and> cookie = Some token \<and> token \<noteq> []
         \<and> sess_token_hash s = hash_token token \<longrightarrow> s \<notin> set (sessions (snd (load_session now cookie st))))"
  using load_session_who [OF assms] load_session_expired [OF assms] by blast

theorem load_session_exact_witness:
  "fst (load_session 1700000000000000 (Some ''t'') (empty_store
     \<lparr>users := [\<lparr>user_id = 1, user_email = ''a@x'', user_password_hash = [], user_role = ''admin'', user_active = True, user_created_at = 0\<rparr>],
      sessions := [\<lparr>sess_id = 1, sess_token_hash = hash_token ''t'', sess_user_id = 1, sess_csrf_token = ''c'', sess_created_at = 0,
        sess_last_seen_at = 1700000000000, sess_expires_at = 1800000000000, sess_ip = [], sess_user_agent = []\<rparr>]\<rparr>)) \<noteq> None"
    (is "fst (load_session ?now ?cookie ?st) \<noteq> None")
proof -
  have ok: "accounts_ok ?st"
    by (simp add: accounts_ok_def empty_store_def auth_event_table.keyed_Nil keyed_def)
  have sane: "list_all times_sane (sessions ?st)" by (simp add: times_sane_def)
  have "\<exists>u s. fst (load_session ?now ?cookie ?st) = Some (u, s)"
    unfolding load_session_exact [OF ok sane, THEN conjunct1]
    by (simp add: session_live_def SESSION_IDLE_TIMEOUT_def)
  then show ?thesis by force
qed

text \<open>The redirect target after a login stays on this site. It is a path beginning with one slash that is
  followed by neither a second slash nor a backslash, so that a browser can read no host in it.\<close>

theorem safe_next_local:
  "\<exists>rest. safe_next target = CHR ''/'' # rest \<and> (rest = [] \<or> hd rest \<notin> {CHR ''/'', CHR 0x5C})"
proof (cases "the target")
  case Nil
  then show ?thesis by (auto simp: safe_next_def startswith_def)
next
  case (Cons c cs)
  then show ?thesis by (cases cs) (auto simp: safe_next_def startswith_def)
qed

lemma require_csrf_iff:
  "require_csrf headers form session = Inr s \<longleftrightarrow> session = Some s \<and> check_request_csrf headers form (Some s) = Inr True"
  by (cases session) (auto simp: require_csrf_def check_request_csrf_def Let_def split: sum.split)

lemma require_admin_iff:
  "require_admin path user = Inr u \<longleftrightarrow> user = Some u \<and> user_role u = ''admin''"
  by (auto simp: require_admin_def require_auth_def split: option.split)

end
