(* ===== verification/RateLimit.thy ===== *)
theory RateLimit
  imports Prelude
begin

text \<open>
  \<open>auth/ratelimit.py\<close>: the sliding-window limiter in front of login and signup. The state is the map
  from keys to the times of their hits; a key never seen reads as no hits, as the \<open>defaultdict\<close> does
  (which also stores it).
\<close>

type_synonym hits = "pystr \<rightharpoonup> usec list"

record limiter =
  lim_max :: nat
  lim_window :: usec
  lim_hits :: hits

definition hits_of :: "limiter \<Rightarrow> pystr \<Rightarrow> usec list" where
  "hits_of l key = (case lim_hits l key of None \<Rightarrow> [] | Some hs \<Rightarrow> hs)"

definition new_limiter :: "nat \<Rightarrow> usec \<Rightarrow> limiter" where
  "new_limiter max_hits window = \<lparr>lim_max = max_hits, lim_window = window, lim_hits = Map.empty\<rparr>"

text \<open>\<open>Limiter.allow\<close>: whether the attempt is allowed, the time to wait, the new state. \<open>kept[0]\<close> is
  taken only when there are at least \<open>max\<close> hits; with \<open>max = 0\<close> there may be none, and Python
  raises.\<close>

definition allow :: "pystr \<Rightarrow> usec \<Rightarrow> limiter \<Rightarrow> (bool \<times> usec) py \<times> limiter" where
  "allow key now l =
     (let cutoff = now - lim_window l;
          kept = filter (\<lambda>t. cutoff < t) (hits_of l key) in
      if lim_max l \<le> length kept
      then ((case kept of [] \<Rightarrow> Inl (OtherErr ''IndexError'') | t # _ \<Rightarrow> Inr (False, lim_window l - (now - t))),
            l\<lparr>lim_hits := (lim_hits l)(key \<mapsto> kept)\<rparr>)
      else (Inr (True, 0), l\<lparr>lim_hits := (lim_hits l)(key \<mapsto> kept @ [now])\<rparr>))"

text \<open>\<open>Limiter.prune\<close>: the keys that lost their last live hit go, and only they. The count of removed
  keys is what \<open>prune\<close> returns, over the finite map.\<close>

definition stale :: "limiter \<Rightarrow> usec \<Rightarrow> pystr \<Rightarrow> bool" where
  "stale l now key \<longleftrightarrow>
     (case lim_hits l key of None \<Rightarrow> False | Some hs \<Rightarrow> \<not> list_ex (\<lambda>t. now - lim_window l < t) hs)"

definition prune :: "usec \<Rightarrow> limiter \<Rightarrow> limiter" where
  "prune now l = l\<lparr>lim_hits := (\<lambda>key. if stale l now key then None else lim_hits l key)\<rparr>"

definition prune_count :: "usec \<Rightarrow> limiter \<Rightarrow> nat" where
  "prune_count now l = card {key \<in> dom (lim_hits l). stale l now key}"

definition tracked_keys :: "limiter \<Rightarrow> nat" where
  "tracked_keys l = card (dom (lim_hits l))"

text \<open>The docstring of the module speaks of a fixed window, which would admit \<open>max\<close> attempts at the end of one window and
  \<open>max\<close> more at the start of the next. The one of the class, at most \<open>max\<close> hits within a window, is what the code does:
  with two hits late in one minute, one early in the next is refused.\<close>

lemma no_burst_across_windows:
  "fst (allow ''k'' 61 (snd (allow ''k'' 59 (snd (allow ''k'' 58 (new_limiter 2 60)))))) = Inr (False, 57)"
  by (simp add: allow_def new_limiter_def hits_of_def)

section \<open>Runs\<close>

text \<open>A run of attempts and prunes; the trace lists the attempts that were allowed, with their times.\<close>

datatype limit_step = Attempt pystr usec | Prune usec

fun limit_run :: "limit_step list \<Rightarrow> limiter \<Rightarrow> (pystr \<times> usec) list \<times> limiter" where
  "limit_run [] l = ([], l)"
| "limit_run (Attempt key now # ss) l =
     (case allow key now l of (r, l1) \<Rightarrow>
      case limit_run ss l1 of (tr, l2) \<Rightarrow>
        ((case r of Inr (True, _) \<Rightarrow> [(key, now)] | _ \<Rightarrow> []) @ tr, l2))"
| "limit_run (Prune now # ss) l = limit_run ss (prune now l)"

fun step_time :: "limit_step \<Rightarrow> usec" where
  "step_time (Attempt _ now) = now"
| "step_time (Prune now) = now"

definition live :: "usec \<Rightarrow> usec \<Rightarrow> pystr \<Rightarrow> (pystr \<times> usec) list \<Rightarrow> usec list" where
  "live window now key tr = map snd (filter (\<lambda>(k, t). k = key \<and> now - window < t) tr)"

text \<open>The kept hits are exactly the allowed attempts that are still inside the window.\<close>

definition limiter_matches :: "limiter \<Rightarrow> usec \<Rightarrow> (pystr \<times> usec) list \<Rightarrow> bool" where
  "limiter_matches l now tr \<longleftrightarrow>
     (\<forall>key. filter (\<lambda>t. now - lim_window l < t) (hits_of l key) = live (lim_window l) now key tr)"

lemma filter_window_mono: "now \<le> now' \<Longrightarrow>
    filter (\<lambda>t. now' - w < t) (filter (\<lambda>t. now - w < t) hs) = filter (\<lambda>t. now' - w < (t :: int)) hs"
  by (induction hs) auto

lemma live_later: "now \<le> now' \<Longrightarrow> filter (\<lambda>t. now' - w < t) (live w now key tr) = live w now' key tr"
  by (induction tr) (auto simp: live_def)

lemma matches_later: "limiter_matches l now tr \<Longrightarrow> now \<le> now' \<Longrightarrow> limiter_matches l now' tr"
  unfolding limiter_matches_def using live_later filter_window_mono by metis

lemma matches_prune: "limiter_matches l now tr \<Longrightarrow> limiter_matches (prune now l) now tr"
proof -
  assume m: "limiter_matches l now tr"
  have "filter (\<lambda>t. now - lim_window l < t) (hits_of (prune now l) key)
      = filter (\<lambda>t. now - lim_window l < t) (hits_of l key)" for key
    by (auto simp: prune_def hits_of_def stale_def list_ex_iff filter_empty_conv split: option.split)
  with m show ?thesis by (simp add: limiter_matches_def prune_def)
qed

lemma live_append: "live w now key (tr @ [(k, t)]) = live w now key tr @ (if k = key \<and> now - w < t then [t] else [])"
  by (simp add: live_def)

lemma matches_allow:
  assumes "limiter_matches l now tr" "allow key now l = (r, l')" "0 < lim_window l"
  shows "limiter_matches l' now (tr @ (case r of Inr (True, _) \<Rightarrow> [(key, now)] | _ \<Rightarrow> []))
    \<and> lim_window l' = lim_window l \<and> lim_max l' = lim_max l
    \<and> ((\<exists>d. r = Inr (True, d)) \<longleftrightarrow> length (live (lim_window l) now key tr) < lim_max l)"
proof -
  have kept: "filter (\<lambda>t. now - lim_window l < t) (hits_of l key) = live (lim_window l) now key tr"
    using assms(1) by (simp add: limiter_matches_def)
  have again: "filter (\<lambda>t. now - lim_window l < t) (live (lim_window l) now key tr) = live (lim_window l) now key tr"
    using live_later [of now now "lim_window l" key tr] by simp
  have others: "k \<noteq> key \<Longrightarrow> filter (\<lambda>t. now - lim_window l < t) (hits_of l k) = live (lim_window l) now k tr" for k
    using assms(1) by (simp add: limiter_matches_def)
  show ?thesis
  proof (cases "lim_max l \<le> length (live (lim_window l) now key tr)")
    case True
    with assms(2) kept have "l' = l\<lparr>lim_hits := (lim_hits l)(key \<mapsto> live (lim_window l) now key tr)\<rparr>"
      "\<not> (\<exists>d. r = Inr (True, d))"
      by (auto simp: allow_def Let_def split: list.splits)
    with True others again show ?thesis
      by (auto simp: limiter_matches_def hits_of_def split: sum.splits bool.splits)
  next
    case False
    with assms(2) kept have "l' = l\<lparr>lim_hits := (lim_hits l)(key \<mapsto> live (lim_window l) now key tr @ [now])\<rparr>"
      "r = Inr (True, 0)"
      by (auto simp: allow_def Let_def)
    with False others again assms(3) show ?thesis
      by (auto simp: limiter_matches_def hits_of_def live_append)
  qed
qed

section \<open>The limit\<close>

definition capped :: "usec \<Rightarrow> nat \<Rightarrow> (pystr \<times> usec) list \<Rightarrow> bool" where
  "capped w m tr \<longleftrightarrow> (\<forall>key T. length (filter (\<lambda>(k, t). k = key \<and> T - w < t \<and> t \<le> T) tr) \<le> m)"

lemma capped_snoc:
  assumes "capped w m tr" "\<forall>(k, t) \<in> set tr. t \<le> now" "length (live w now key tr) < m"
  shows "capped w m (tr @ [(key, now)])"
  unfolding capped_def
proof (intro allI)
  fix key' T
  show "length (filter (\<lambda>(k, t). k = key' \<and> T - w < t \<and> t \<le> T) (tr @ [(key, now)])) \<le> m"
  proof (cases "key' = key \<and> T - w < now \<and> now \<le> T")
    case False
    then show ?thesis using assms(1) by (auto simp: capped_def)
  next
    case True
    then have "length (filter (\<lambda>(k, t). k = key' \<and> T - w < t \<and> t \<le> T) tr)
        \<le> length (filter (\<lambda>(k, t). k = key \<and> now - w < t) tr)"
      by (induction tr) auto
    then show ?thesis using assms(3) True by (simp add: live_def)
  qed
qed

lemma limit_run_inv:
  assumes "limit_run ss l = (tr, l')" "limiter_matches l now tr0" "capped (lim_window l) (lim_max l) tr0"
    "\<forall>(k, t) \<in> set tr0. t \<le> now" "sorted (now # map step_time ss)" "0 < lim_window l"
  shows "capped (lim_window l) (lim_max l) (tr0 @ tr) \<and> limiter_matches l' (last (now # map step_time ss)) (tr0 @ tr)
    \<and> lim_window l' = lim_window l \<and> lim_max l' = lim_max l \<and> (\<forall>(k, t) \<in> set (tr0 @ tr). t \<le> last (now # map step_time ss))"
  using assms
proof (induction ss l arbitrary: tr l' now tr0 rule: limit_run.induct)
  case (1 l)
  then show ?case by simp
next
  case (2 key at ss l)
  obtain r l1 where a: "allow key at l = (r, l1)" by fastforce
  obtain tr1 where run: "limit_run ss l1 = (tr1, l')"
    and tr: "tr = (case r of Inr (True, _) \<Rightarrow> [(key, at)] | _ \<Rightarrow> []) @ tr1"
    using "2.prems"(1) a by (auto split: prod.splits)
  let ?one = "case r of Inr (True, _) \<Rightarrow> [(key, at)] | _ \<Rightarrow> []"
  have le: "now \<le> at" using "2.prems"(5) by simp
  have m: "limiter_matches l at tr0" using "2.prems"(2) le by (rule matches_later)
  note step = matches_allow [OF m a "2.prems"(6)]
  have old: "\<forall>(k, t) \<in> set tr0. t \<le> at" using "2.prems"(4) le by fastforce
  have cap: "capped (lim_window l) (lim_max l) (tr0 @ ?one)"
  proof (cases "\<exists>d. r = Inr (True, d)")
    case True
    then show ?thesis using capped_snoc [OF "2.prems"(3) old] step by auto
  next
    case False
    then have "?one = []" by (auto split: sum.splits bool.splits)
    then show ?thesis using "2.prems"(3) by simp
  qed
  have "\<forall>(k, t) \<in> set (tr0 @ ?one). t \<le> at" using old by (auto split: sum.splits bool.splits)
  then show ?case
    using "2.IH" [OF a [symmetric] run, of at "tr0 @ ?one"] step cap "2.prems"(5,6) by (simp add: tr)
next
  case (3 at ss l)
  have le: "now \<le> at" using "3.prems"(5) by simp
  have m: "limiter_matches (prune at l) at tr0"
    using matches_later [OF "3.prems"(2) le] by (rule matches_prune)
  have "\<forall>(k, t) \<in> set tr0. t \<le> at" using "3.prems"(4) le by fastforce
  then show ?case
    using "3.IH" [of tr l' at tr0] m "3.prems" by (simp add: prune_def)
qed

lemma new_limiter_matches: "limiter_matches (new_limiter m w) now []"
  by (simp add: limiter_matches_def new_limiter_def hits_of_def live_def)

text \<open>C30: the limiter limits. Under any sequence of attempts and prunes at non-decreasing times, no
  window-long stretch of time contains more than \<open>max\<close> allowed attempts for one key; and the next
  attempt is allowed exactly when fewer than \<open>max\<close> allowed ones are inside its window: refused
  attempts never count, and pruning never changes an answer. This is the contract the class documents; the
  fixed windows of the module's docstring are not what the code has (\<open>no_burst_across_windows\<close>).\<close>

theorem limiter_exact:
  assumes "limit_run ss (new_limiter m w) = (tr, l)" "sorted (map step_time ss)" "0 < w"
    "\<forall>s \<in> set ss. step_time s \<le> now"
  shows "length (filter (\<lambda>(k, t). k = key \<and> T - w < t \<and> t \<le> T) tr) \<le> m
    \<and> ((\<exists>d l'. allow key now l = (Inr (True, d), l')) \<longleftrightarrow>
        length (filter (\<lambda>(k, t). k = key \<and> now - w < t) tr) < m)"
proof -
  define t0 where "t0 = (case ss of [] \<Rightarrow> now | s # _ \<Rightarrow> step_time s)"
  have srt: "sorted (t0 # map step_time ss)" using assms(2) by (cases ss) (auto simp: t0_def)
  have lst: "last (t0 # map step_time ss) \<le> now"
    using assms(4) by (cases "ss = []") (auto simp: t0_def last_map)
  have inv: "capped w m tr \<and> limiter_matches l (last (t0 # map step_time ss)) tr \<and> lim_window l = w \<and> lim_max l = m"
    using limit_run_inv [OF assms(1) new_limiter_matches, of t0] srt assms(3)
    by (simp add: new_limiter_def capped_def)
  then have m: "limiter_matches l now tr" using lst matches_later by blast
  obtain r l' where a: "allow key now l = (r, l')" by fastforce
  have "(\<exists>d. r = Inr (True, d)) \<longleftrightarrow> length (live w now key tr) < m"
    using matches_allow [OF m a] inv assms(3) by simp
  with inv a show ?thesis by (auto simp: capped_def live_def)
qed

theorem limiter_exact_witness:
  "let (tr, l) = limit_run [Attempt ''k'' 0, Attempt ''k'' 1, Attempt ''k'' 2, Prune 3] (new_limiter 2 10) in
   tr = [(''k'', 0), (''k'', 1)] \<and> (\<exists>d l'. allow ''k'' 10 l = (Inr (True, d), l'))"
proof -
  let ?ss = "[Attempt ''k'' 0, Attempt ''k'' 1, Attempt ''k'' 2, Prune 3]"
  obtain tr l where r: "limit_run ?ss (new_limiter 2 10) = (tr, l)" by fastforce
  have tr: "tr = [(''k'', 0), (''k'', 1)]"
    using r by (simp add: allow_def new_limiter_def hits_of_def Let_def)
  have "\<exists>d l'. allow ''k'' 10 l = (Inr (True, d), l')"
    using limiter_exact [OF r, of 10 "''k''"] by (simp add: tr)
  with r tr show ?thesis by simp
qed

text \<open>A refused client is told when to come back: the wait is positive, at most the window, and after it
  the oldest hit is gone.\<close>

lemma retry_after:
  assumes "allow key now l = (Inr (False, d), l')" "\<forall>t \<in> set (hits_of l key). t \<le> now"
  shows "0 < d \<and> d \<le> lim_window l \<and> (\<exists>t ts. hits_of l' key = t # ts \<and> \<not> now + d - lim_window l < t)"
proof -
  define kept where "kept = filter (\<lambda>t. now - lim_window l < t) (hits_of l key)"
  obtain t ts where k: "kept = t # ts" and d: "d = lim_window l - (now - t)"
    and l': "l' = l\<lparr>lim_hits := (lim_hits l)(key \<mapsto> kept)\<rparr>"
    using assms(1) by (auto simp: allow_def Let_def kept_def [symmetric] split: if_splits list.splits)
  have "t \<in> set kept" by (simp add: k)
  then have "now - lim_window l < t" "t \<le> now" using assms(2) by (auto simp: kept_def)
  then show ?thesis using k d l' by (auto simp: hits_of_def)
qed

end
