(* ===== verification/StoreEndpoints.thy ===== *)
theory StoreEndpoints
  imports StoreModel
begin

text \<open>
  \<open>store/endpoints.py\<close>: the methods on the \<open>endpoints\<close> table, with the constraints of its schema:
  unique paths, a known provider, and per provider either a webhook id or the name of a secret.
\<close>

definition endpoint_check :: "Endpoint \<Rightarrow> bool" where
  "endpoint_check e \<longleftrightarrow>
     (end_provider e = ''stripe'' \<or> end_provider e = ''github'' \<or> end_provider e = ''shopify'' \<or> end_provider e = ''paypal'')
     \<and> (end_provider e = ''paypal'' \<and> end_webhook_id e \<noteq> [] \<and> end_secret_env e = []
        \<or> end_provider e \<noteq> ''paypal'' \<and> end_secret_env e \<noteq> [] \<and> end_webhook_id e = [])"

definition create_endpoint :: "Endpoint \<Rightarrow> store \<Rightarrow> (int \<times> store) py" where
  "create_endpoint e st =
     (if end_path e \<in> end_path ` set (endpoints st)
      then Inl (IntegrityErr ''UNIQUE constraint failed: endpoints.path'')
      else if \<not> endpoint_check e then Inl (IntegrityErr ''CHECK constraint failed'')
      else Inr (next_id end_id (endpoints st),
                st\<lparr>endpoints := append_row end_id (\<lambda>n r. r\<lparr>end_id := n\<rparr>) e (endpoints st)\<rparr>))"

definition get_endpoint_by_id :: "int \<Rightarrow> store \<Rightarrow> Endpoint py" where
  "get_endpoint_by_id n st =
     (case find_key end_id n (endpoints st) of
        None \<Rightarrow> Inl (NotFoundErr (''no endpoint with id '' @ show_int n)) | Some e \<Rightarrow> Inr e)"

definition get_endpoint_by_path :: "pystr \<Rightarrow> store \<Rightarrow> Endpoint py" where
  "get_endpoint_by_path path st =
     (case find (\<lambda>e. end_path e = path) (endpoints st) of
        None \<Rightarrow> Inl (NotFoundErr (''no endpoint at path '' @ py_repr path)) | Some e \<Rightarrow> Inr e)"

definition list_endpoints :: "store \<Rightarrow> Endpoint list" where
  "list_endpoints st = sort_key end_path (endpoints st)"

definition list_active_endpoints :: "store \<Rightarrow> Endpoint list" where
  "list_active_endpoints st = sort_key end_path (filter end_active (endpoints st))"

text \<open>The row \<open>update_endpoint\<close> writes: everything but the key, \<open>active\<close> and \<open>created_at\<close>.\<close>

definition overwrite :: "Endpoint \<Rightarrow> Endpoint \<Rightarrow> Endpoint" where
  "overwrite e r =
     r\<lparr>end_path := end_path e, end_provider := end_provider e, end_upstream_url := end_upstream_url e,
       end_replay_window := end_replay_window e, end_secret_env := end_secret_env e,
       end_webhook_id := end_webhook_id e, end_updated_at := end_updated_at e\<rparr>"

definition update_endpoint :: "Endpoint \<Rightarrow> store \<Rightarrow> store py" where
  "update_endpoint e st =
     (if end_id e \<notin> end_id ` set (endpoints st) then Inr st
      else if \<exists>r \<in> set (endpoints st). end_path r = end_path e \<and> end_id r \<noteq> end_id e
      then Inl (IntegrityErr ''UNIQUE constraint failed: endpoints.path'')
      else if \<not> endpoint_check e then Inl (IntegrityErr ''CHECK constraint failed'')
      else Inr (st\<lparr>endpoints := update_where (\<lambda>r. end_id r = end_id e) (overwrite e) (endpoints st)\<rparr>))"

definition set_endpoint_active :: "int \<Rightarrow> bool \<Rightarrow> int \<Rightarrow> store \<Rightarrow> store" where
  "set_endpoint_active n active updated_at st =
     st\<lparr>endpoints := update_where (\<lambda>r. end_id r = n) (\<lambda>r. r\<lparr>end_active := active, end_updated_at := updated_at\<rparr>)
         (endpoints st)\<rparr>"

definition delete_endpoint :: "int \<Rightarrow> store \<Rightarrow> store" where
  "delete_endpoint n st = st\<lparr>endpoints := delete_where (\<lambda>r. end_id r = n) (endpoints st)\<rparr>"

interpretation endpoint_table: rowid_table end_id "\<lambda>n (r :: Endpoint). r\<lparr>end_id := n\<rparr>"
  by unfold_locales simp

section \<open>The invariant\<close>

definition endpoints_ok :: "store \<Rightarrow> bool" where
  "endpoints_ok st \<longleftrightarrow>
     keyed end_id (endpoints st) \<and> distinct (map end_path (endpoints st))
     \<and> list_all endpoint_check (endpoints st)"

lemma endpoints_ok_empty: "endpoints_ok empty_store"
  by (simp add: endpoints_ok_def empty_store_def endpoint_table.keyed_Nil)

lemma create_endpoint_ok [inv_intros]:
  assumes "endpoints_ok st" "create_endpoint e st = Inr (n, st')"
  shows "endpoints_ok st'"
proof -
  have st': "st' = st\<lparr>endpoints := append_row end_id (\<lambda>n r. r\<lparr>end_id := n\<rparr>) e (endpoints st)\<rparr>"
    and fresh: "end_path e \<notin> end_path ` set (endpoints st)" and ck: "endpoint_check e"
    using assms(2) by (auto simp: create_endpoint_def split: if_splits)
  have "keyed end_id (append_row end_id (\<lambda>n r. r\<lparr>end_id := n\<rparr>) e (endpoints st))"
    using assms(1) by (intro endpoint_table.keyed_append) (simp add: endpoints_ok_def)
  moreover have "endpoint_check (e\<lparr>end_id := k\<rparr>)" for k using ck by (simp add: endpoint_check_def)
  ultimately show ?thesis using assms(1) fresh by (simp add: endpoints_ok_def st' append_row_def)
qed

lemma distinct_update_one:
  assumes "distinct (map g t)" "inj_on k (set t)"
    and "\<forall>r \<in> set t. k r \<noteq> n \<longrightarrow> g r \<noteq> v" "\<And>r. g (f r) = v"
  shows "distinct (map g (update_where (\<lambda>r. k r = n) f t))"
  using assms
proof (induction t)
  case (Cons r t)
  then have IH: "distinct (map g (update_where (\<lambda>r. k r = n) f t))" by simp
  have "g (if k r = n then f r else r) \<notin> g ` set (update_where (\<lambda>r. k r = n) f t)"
  proof (cases "k r = n")
    case True
    then have "\<forall>r' \<in> set t. k r' \<noteq> n" using Cons.prems(1,2) by (auto simp: inj_on_def)
    then have "update_where (\<lambda>r. k r = n) f t = t" by (simp add: update_where_def map_idI)
    then show ?thesis using True Cons.prems(3,4) \<open>\<forall>r' \<in> set t. k r' \<noteq> n\<close> by auto
  next
    case False
    then show ?thesis using Cons.prems by (auto simp: update_where_def)
  qed
  moreover have "update_where (\<lambda>r. k r = n) f (r # t) =
      (if k r = n then f r else r) # update_where (\<lambda>r. k r = n) f t" by (simp add: update_where_def)
  ultimately show ?case using IH by (simp del: if_split)
qed (simp add: update_where_def)

lemma check_overwrite: "endpoint_check (overwrite e r) = endpoint_check e"
  "endpoint_check (r\<lparr>end_active := b, end_updated_at := t\<rparr>) = endpoint_check r"
  by (simp_all add: endpoint_check_def overwrite_def)

lemma update_endpoint_ok [inv_intros]:
  assumes "endpoints_ok st" "update_endpoint e st = Inr st'"
  shows "endpoints_ok st'"
proof (cases "end_id e \<in> end_id ` set (endpoints st)")
  case False
  with assms show ?thesis by (simp add: update_endpoint_def)
next
  case True
  let ?t = "update_where (\<lambda>r. end_id r = end_id e) (overwrite e) (endpoints st)"
  have u: "\<not> (\<exists>r \<in> set (endpoints st). end_path r = end_path e \<and> end_id r \<noteq> end_id e)"
    "endpoint_check e" "st' = st\<lparr>endpoints := ?t\<rparr>"
    using assms(2) True unfolding update_endpoint_def by (simp_all split: if_split_asm)
  then have other: "\<forall>r \<in> set (endpoints st). end_id r \<noteq> end_id e \<longrightarrow> end_path r \<noteq> end_path e" by blast
  note ck = u(2) and st' = u(3)
  have ok: "keyed end_id (endpoints st)" "distinct (map end_path (endpoints st))" "list_all endpoint_check (endpoints st)"
    using assms(1) by (auto simp: endpoints_ok_def)
  have "inj_on end_id (set (endpoints st))" using endpoint_table.keyed_distinct [OF ok(1)] by (simp add: distinct_map)
  then have "distinct (map end_path ?t)"
    by (rule distinct_update_one [OF ok(2), where v = "end_path e"]) (fact other, simp add: overwrite_def)
  moreover have "keyed end_id ?t" using ok(1) by (intro endpoint_table.keyed_update) (simp_all add: overwrite_def)
  moreover have "list_all endpoint_check ?t"
    using ok(3) ck by (auto simp: list_all_iff update_where_def check_overwrite)
  ultimately show ?thesis by (simp add: endpoints_ok_def st')
qed

lemma set_endpoint_active_ok [inv_intros]: "endpoints_ok st \<Longrightarrow> endpoints_ok (set_endpoint_active n b t st)"
proof -
  assume ok: "endpoints_ok st"
  let ?f = "\<lambda>r :: Endpoint. r\<lparr>end_active := b, end_updated_at := t\<rparr>"
  have "map end_path (update_where (\<lambda>r. end_id r = n) ?f (endpoints st)) = map end_path (endpoints st)"
    by (simp add: update_where_def)
  moreover have "list_all endpoint_check (update_where (\<lambda>r. end_id r = n) ?f (endpoints st))"
    using ok by (auto simp: endpoints_ok_def list_all_iff update_where_def check_overwrite)
  ultimately show ?thesis
    using ok endpoint_table.keyed_update [of "endpoints st" ?f] by (simp add: endpoints_ok_def set_endpoint_active_def)
qed

lemma delete_endpoint_ok [inv_intros]: "endpoints_ok st \<Longrightarrow> endpoints_ok (delete_endpoint n st)"
  using endpoint_table.keyed_delete
  by (auto simp: endpoints_ok_def delete_endpoint_def delete_where_def list_all_iff distinct_map_filter)

text \<open>A path names at most one endpoint.\<close>

lemma get_by_path_iff:
  assumes "endpoints_ok st"
  shows "get_endpoint_by_path path st = Inr e \<longleftrightarrow> e \<in> set (endpoints st) \<and> end_path e = path"
proof -
  have inj: "inj_on end_path (set (endpoints st))" using assms by (simp add: endpoints_ok_def distinct_map)
  show ?thesis
  proof (cases "find (\<lambda>e. end_path e = path) (endpoints st)")
    case None
    then have "\<forall>e \<in> set (endpoints st). end_path e \<noteq> path" by (simp add: find_None_iff)
    with None show ?thesis by (auto simp: get_endpoint_by_path_def)
  next
    case (Some x)
    then have "x \<in> set (endpoints st) \<and> end_path x = path" by (auto simp: find_Some_iff)
    with Some inj show ?thesis by (auto simp: get_endpoint_by_path_def inj_on_def)
  qed
qed

end
