(* ===== verification/StoreEvents.thy ===== *)
theory StoreEvents
  imports StoreModel FloatTime
begin

text \<open>
  \<open>store/events.py\<close>: the events and their hourly rollups: the batch insert (row by row, see
  \<open>executemany\<close>), the upsert of the rollups, the prune, the log queries and the aggregates of the
  dashboard. Times are unix milliseconds. Rows that tie in an \<open>ORDER BY\<close> come in key order, which is
  what the schema's indexes give.
\<close>

record Summary =
  sum_accepted :: int
  sum_rejected :: int
  sum_accept_rate :: rat
  sum_p50_latency_ms :: int

definition sum_total :: "Summary \<Rightarrow> int" where
  "sum_total s = sum_accepted s + sum_rejected s"

definition ps_total :: "ProviderStats \<Rightarrow> int" where
  "ps_total s = ps_accepted s + ps_rejected s"

definition ps_accept_rate :: "ProviderStats \<Rightarrow> rat" where
  "ps_accept_rate s = (if ps_total s \<noteq> 0 then rnd (of_int (ps_accepted s) / of_int (ps_total s)) else 0)"

section \<open>Writes\<close>

text \<open>One row of \<open>INSERT INTO events\<close>: the binding of its integers, then \<open>verdict CHECK (...)\<close>.\<close>

definition insert_event_row :: "Event \<Rightarrow> store \<Rightarrow> store py" where
  "insert_event_row e st =
     (if \<not> list_all fits_sql [evt_received_at e, evt_upstream_status e, evt_latency_ms e, evt_body_bytes e]
      then Inl OverflowErr
      else if evt_verdict e \<noteq> ''accepted'' \<and> evt_verdict e \<noteq> ''rejected''
      then Inl (IntegrityErr ''CHECK constraint failed: verdict'')
      else Inr (st\<lparr>events := append_row evt_id (\<lambda>n r. r\<lparr>evt_id := n\<rparr>) e (events st)\<rparr>))"

definition insert_events :: "Event list \<Rightarrow> store \<Rightarrow> unit py \<times> store" where
  "insert_events es st = (if es = [] then (Inr (), st) else executemany insert_event_row es st)"

fun upsert :: "bucket \<Rightarrow> int \<Rightarrow> (bucket \<times> int) list \<Rightarrow> (bucket \<times> int) list" where
  "upsert b n [] = [(b, n)]"
| "upsert b n ((b', m) # t) = (if b' = b then (b', m + n) # t else (b', m) # upsert b n t)"

definition upsert_rollup_row :: "RollupDelta \<Rightarrow> store \<Rightarrow> store py" where
  "upsert_rollup_row d st =
     (if \<not> list_all fits_sql [rd_hour d, rd_n d] then Inl OverflowErr
      else Inr (st\<lparr>rollups := upsert (rd_hour d, rd_provider d, rd_verdict d) (rd_n d) (rollups st)\<rparr>))"

definition upsert_rollups :: "RollupDelta list \<Rightarrow> store \<Rightarrow> unit py \<times> store" where
  "upsert_rollups ds st = (if ds = [] then (Inr (), st) else executemany upsert_rollup_row ds st)"

definition delete_events_older_than :: "int \<Rightarrow> store \<Rightarrow> int \<times> store" where
  "delete_events_older_than cutoff_ms st =
     (int (length (filter (\<lambda>e. evt_received_at e < cutoff_ms) (events st))),
      st\<lparr>events := delete_where (\<lambda>e. evt_received_at e < cutoff_ms) (events st)\<rparr>)"

section \<open>Single-row reads\<close>

definition count_events :: "store \<Rightarrow> int" where
  "count_events st = int (length (events st))"

definition has_any_event :: "store \<Rightarrow> bool" where
  "has_any_event st \<longleftrightarrow> events st \<noteq> []"

definition latest_event :: "store \<Rightarrow> Event py" where
  "latest_event st =
     (case rev (sort_key evt_id (events st)) of [] \<Rightarrow> Inl (NotFoundErr ''no events'') | e # _ \<Rightarrow> Inr e)"

definition latest_event_id :: "store \<Rightarrow> int" where
  "latest_event_id st = next_id evt_id (events st) - 1"

definition rollup_count :: "int \<Rightarrow> pystr \<Rightarrow> pystr \<Rightarrow> store \<Rightarrow> int" where
  "rollup_count hour provider verdict st =
     (case map_of (rollups st) (hour, provider, verdict) of None \<Rightarrow> 0 | Some n \<Rightarrow> n)"

section \<open>Log queries\<close>

definition event_matches :: "EventFilter \<Rightarrow> Event \<Rightarrow> bool" where
  "event_matches f e \<longleftrightarrow>
     (flt_provider f \<noteq> [] \<longrightarrow> evt_provider e = flt_provider f)
     \<and> (flt_verdict f \<noteq> [] \<longrightarrow> evt_verdict e = flt_verdict f)
     \<and> (flt_reason f \<noteq> [] \<longrightarrow> like (''%'' @ like_escape (flt_reason f) @ ''%'') (evt_reason e))
     \<and> (flt_path f \<noteq> [] \<longrightarrow> like (''%'' @ like_escape (flt_path f) @ ''%'') (evt_path e))
     \<and> (0 < flt_from_ms f \<longrightarrow> flt_from_ms f \<le> evt_received_at e)
     \<and> (0 < flt_to_ms f \<longrightarrow> evt_received_at e \<le> flt_to_ms f)"

definition list_events :: "EventFilter \<Rightarrow> nat \<Rightarrow> store \<Rightarrow> Event list" where
  "list_events f limit st = take limit (sort_key (\<lambda>e. - evt_id e) (filter (event_matches f) (events st)))"

definition events_since :: "int \<Rightarrow> nat \<Rightarrow> store \<Rightarrow> Event list" where
  "events_since since_id limit st = take limit (sort_key evt_id (filter (\<lambda>e. since_id < evt_id e) (events st)))"

definition recent_rejected :: "nat \<Rightarrow> store \<Rightarrow> Event list" where
  "recent_rejected limit st =
     take limit (sort_key (\<lambda>e. - evt_received_at e) (filter (\<lambda>e. evt_verdict e = ''rejected'') (events st)))"

section \<open>Aggregates\<close>

text \<open>\<open>SUM(n)\<close> over the buckets of a window that satisfy a condition.\<close>

definition sum_buckets :: "(bucket \<Rightarrow> bool) \<Rightarrow> store \<Rightarrow> int" where
  "sum_buckets P st = sum_list (map snd (filter (\<lambda>(b, n). P b) (rollups st)))"

definition now_hour :: "int \<Rightarrow> int" where
  "now_hour now_unix = now_unix div 3600"

definition start_hour :: "int \<Rightarrow> int \<Rightarrow> int" where
  "start_hour now_unix hours = now_hour now_unix - hours + 1"

definition in_window :: "int \<Rightarrow> int \<Rightarrow> bucket \<Rightarrow> bool" where
  "in_window now_unix hours b \<longleftrightarrow> start_hour now_unix hours \<le> fst b \<and> fst b \<le> now_hour now_unix"

definition LATENCY_SAMPLE_LIMIT :: nat where
  "LATENCY_SAMPLE_LIMIT = 1000"

definition p50_latency_since :: "int \<Rightarrow> store \<Rightarrow> int" where
  "p50_latency_since since_ms st =
     (let rows = take LATENCY_SAMPLE_LIMIT
            (sort_key (\<lambda>e. - evt_received_at e) (filter (\<lambda>e. since_ms \<le> evt_received_at e) (events st)));
          latencies = sort (map evt_latency_ms rows);
          mid = length latencies div 2
      in if rows = [] then 0
         else if length latencies mod 2 = 1 then latencies ! mid else latencies ! (mid - 1))"

definition summary_window :: "int \<Rightarrow> int \<Rightarrow> store \<Rightarrow> Summary" where
  "summary_window now_unix hours st =
     (let accepted = sum_buckets (\<lambda>b. in_window now_unix hours b \<and> snd (snd b) = ''accepted'') st;
          rejected = sum_buckets (\<lambda>b. in_window now_unix hours b \<and> snd (snd b) = ''rejected'') st in
      \<lparr>sum_accepted = accepted, sum_rejected = rejected,
       sum_accept_rate = (if accepted + rejected \<noteq> 0
          then rnd (of_int accepted / of_int (accepted + rejected)) else 0),
       sum_p50_latency_ms = p50_latency_since (start_hour now_unix hours * 3600 * 1000) st\<rparr>)"

definition hourly_counts_window :: "int \<Rightarrow> int \<Rightarrow> store \<Rightarrow> HourlyCounts list" where
  "hourly_counts_window now_unix hours st =
     map (\<lambda>i. let h = start_hour now_unix hours + i in
            \<lparr>hc_hour = h,
             hc_accepted = sum_buckets (\<lambda>b. in_window now_unix hours b \<and> fst b = h \<and> snd (snd b) = ''accepted'') st,
             hc_rejected = sum_buckets (\<lambda>b. in_window now_unix hours b \<and> fst b = h \<and> snd (snd b) = ''rejected'') st\<rparr>)
         [0 .. hours - 1]"

text \<open>The statistics of one provider; \<open>None\<close> when it has no bucket in the window.\<close>

definition provider_stats_window :: "int \<Rightarrow> int \<Rightarrow> store \<Rightarrow> pystr \<Rightarrow> ProviderStats option" where
  "provider_stats_window now_unix hours st provider =
     (if list_ex (\<lambda>(b, n). in_window now_unix hours b \<and> fst (snd b) = provider) (rollups st)
      then Some
        \<lparr>ps_accepted = sum_buckets (\<lambda>b. in_window now_unix hours b \<and> fst (snd b) = provider \<and> snd (snd b) = ''accepted'') st,
         ps_rejected = sum_buckets (\<lambda>b. in_window now_unix hours b \<and> fst (snd b) = provider \<and> snd (snd b) = ''rejected'') st\<rparr>
      else None)"

interpretation event_table: rowid_table evt_id "\<lambda>n (r :: Event). r\<lparr>evt_id := n\<rparr>"
  by unfold_locales simp

end
