(* ===== verification/Batcher.thy ===== *)
theory Batcher
  imports StoreUsers StoreEvents DropOldest
begin

text \<open>
  \<open>batcher.py\<close>: the bounded queue between ingest and the database, the rollup arithmetic, and the
  write of one batch. A tick drains the queue and hands the batch to \<open>_persist\<close>; what is enqueued
  meanwhile goes to the next batch, so one step of the machine is one enqueue or one tick;
  \<open>BackgroundTasks\<close> refines this to the awaits of the task.
\<close>

definition BATCH_QUEUE_SIZE :: nat where
  "BATCH_QUEUE_SIZE = 1024"

definition LAST_INGEST_SETTING :: pystr where
  "LAST_INGEST_SETTING = ''last_ingest_at''"

definition hour_bucket :: "int \<Rightarrow> int" where
  "hour_bucket unix_ms = unix_ms div 1000 div 3600"

definition bucket_of :: "Event \<Rightarrow> bucket" where
  "bucket_of e = (hour_bucket (evt_received_at e), evt_provider e, evt_verdict e)"

definition rollup_deltas :: "Event list \<Rightarrow> RollupDelta list" where
  "rollup_deltas es =
     map (\<lambda>((hour, provider, verdict), n). \<lparr>rd_hour = hour, rd_provider = provider, rd_verdict = verdict, rd_n = n\<rparr>)
       (foldl (\<lambda>counts e. upsert (bucket_of e) 1 counts) [] es)"

record batcher =
  bat_queue :: "Event list"
  bat_dropped :: int

definition new_batcher :: batcher where
  "new_batcher = \<lparr>bat_queue = [], bat_dropped = 0\<rparr>"

definition enqueue :: "batcher \<Rightarrow> Event \<Rightarrow> batcher" where
  "enqueue b e =
     (case put_nowait BATCH_QUEUE_SIZE (bat_queue b) e of
        Some q \<Rightarrow> b\<lparr>bat_queue := q\<rparr>
      | None \<Rightarrow>
          let b1 = (case get_nowait (bat_queue b) of
                      Some (_, q) \<Rightarrow> b\<lparr>bat_queue := q, bat_dropped := bat_dropped b + 1\<rparr> | None \<Rightarrow> b) in
          case put_nowait BATCH_QUEUE_SIZE (bat_queue b1) e of
            Some q \<Rightarrow> b1\<lparr>bat_queue := q\<rparr>
          | None \<Rightarrow> b1\<lparr>bat_dropped := bat_dropped b1 + 1\<rparr>)"

text \<open>\<open>_persist\<close>: each of the three writes has its own \<open>try\<close>; only a failed insert returns.\<close>

definition persist :: "Event list \<Rightarrow> store \<Rightarrow> store" where
  "persist pending st =
     (case insert_events pending st of
        (Inl _, st1) \<Rightarrow> st1
      | (Inr _, st1) \<Rightarrow>
          set_setting LAST_INGEST_SETTING (show_int (evt_received_at (last pending)))
            (snd (upsert_rollups (rollup_deltas pending) st1)))"

definition drain_and_persist :: "batcher \<times> store \<Rightarrow> batcher \<times> store" where
  "drain_and_persist s =
     (case s of (b, st) \<Rightarrow>
        if bat_queue b = [] then (b, st) else (b\<lparr>bat_queue := []\<rparr>, persist (bat_queue b) st))"

datatype batch_step = Enqueue Event | Tick

fun batch_run :: "batch_step list \<Rightarrow> batcher \<times> store \<Rightarrow> batcher \<times> store" where
  "batch_run [] s = s"
| "batch_run (Enqueue e # ss) s = batch_run ss (enqueue (fst s) e, snd s)"
| "batch_run (Tick # ss) s = batch_run ss (drain_and_persist s)"

section \<open>The queue\<close>

lemma enqueue_queue: "bat_queue (enqueue b e) = put_dropping BATCH_QUEUE_SIZE (bat_queue b) e"
  by (auto simp: enqueue_def put_dropping_def Let_def split: option.splits)

interpretation batch_queue: drop_oldest BATCH_QUEUE_SIZE bat_queue enqueue
  by unfold_locales (simp_all add: BATCH_QUEUE_SIZE_def enqueue_queue put_dropping_last_n)

text \<open>Every event offered is queued or counted as dropped.\<close>

lemma enqueue_counts:
  "length (bat_queue b) \<le> BATCH_QUEUE_SIZE \<Longrightarrow>
     int (length (bat_queue (enqueue b e))) + bat_dropped (enqueue b e)
       = int (length (bat_queue b)) + bat_dropped b + 1"
  by (cases "bat_queue b") (auto simp: enqueue_def put_nowait_def get_nowait_def BATCH_QUEUE_SIZE_def Let_def)

section \<open>Inserting\<close>

definition storable :: "Event \<Rightarrow> bool" where
  "storable e \<longleftrightarrow>
     (evt_verdict e = ''accepted'' \<or> evt_verdict e = ''rejected'')
     \<and> list_all fits_sql [evt_received_at e, evt_upstream_status e, evt_latency_ms e, evt_body_bytes e]"

text \<open>The rows the events become, and the table after inserting them.\<close>

definition add_event :: "Event list \<Rightarrow> Event \<Rightarrow> Event list" where
  "add_event t e = append_row evt_id (\<lambda>n r. r\<lparr>evt_id := n\<rparr>) e t"

lemma insert_event_row_iff: "insert_event_row e st =
    (if storable e then Inr (st\<lparr>events := add_event (events st) e\<rparr>)
     else if \<not> list_all fits_sql [evt_received_at e, evt_upstream_status e, evt_latency_ms e, evt_body_bytes e]
       then Inl OverflowErr else Inl (IntegrityErr ''CHECK constraint failed: verdict''))"
  by (auto simp: insert_event_row_def storable_def add_event_def)

text \<open>What one \<open>executemany\<close> leaves: the events up to the first one that cannot be stored.\<close>

lemma insert_events_prefix:
  "snd (insert_events es st) = st\<lparr>events := foldl add_event (events st) (takeWhile storable es)\<rparr>
   \<and> (returns (fst (insert_events es st)) \<longleftrightarrow> list_all storable es)"
proof -
  have "snd (executemany insert_event_row es st) = st\<lparr>events := foldl add_event (events st) (takeWhile storable es)\<rparr>
     \<and> (returns (fst (executemany insert_event_row es st)) \<longleftrightarrow> list_all storable es)"
    by (induction es arbitrary: st) (simp_all add: insert_event_row_iff)
  then show ?thesis by (auto simp: insert_events_def)
qed

lemma add_events_map:
  assumes "\<And>e n. f (e\<lparr>evt_id := n\<rparr>) = f e"
  shows "map f (foldl add_event t es) = map f t @ map f es"
  using assms by (induction es arbitrary: t) (simp_all add: add_event_def append_row_def)

lemma add_events_keyed: "keyed evt_id t \<Longrightarrow> keyed evt_id (foldl add_event t es)"
  by (induction es arbitrary: t) (simp_all add: add_event_def event_table.keyed_append)

section \<open>Rollups\<close>

definition bucket_sum :: "(bucket \<Rightarrow> bool) \<Rightarrow> (bucket \<times> int) list \<Rightarrow> int" where
  "bucket_sum P t = sum_list (map snd (filter (\<lambda>(b, n). P b) t))"

lemma sum_buckets_eq: "sum_buckets P st = bucket_sum P (rollups st)"
  by (simp add: sum_buckets_def bucket_sum_def)

lemma bucket_sum_upsert: "bucket_sum P (upsert b n t) = bucket_sum P t + (if P b then n else 0)"
  by (induction b n t rule: upsert.induct) (auto simp: bucket_sum_def)

definition count_in :: "(bucket \<Rightarrow> bool) \<Rightarrow> Event list \<Rightarrow> int" where
  "count_in P es = int (length (filter (\<lambda>e. P (bucket_of e)) es))"

lemma bucket_sum_counts:
  "bucket_sum P (foldl (\<lambda>c e. upsert (bucket_of e) 1 c) c es) = bucket_sum P c + count_in P es"
  by (induction es arbitrary: c) (simp_all add: bucket_sum_upsert count_in_def)

lemma upsert_pos: "\<forall>(b, n) \<in> set c. 0 < n \<Longrightarrow> 0 < m \<Longrightarrow> \<forall>(b, n) \<in> set (upsert b m c). 0 < n"
  by (induction b m c rule: upsert.induct) auto

lemma counts_pos:
  "\<forall>(b, n) \<in> set c. 0 < n \<Longrightarrow> \<forall>(b, n) \<in> set (foldl (\<lambda>c e. upsert (bucket_of e) 1 c) c es). 0 < n"
proof (induction es arbitrary: c)
  case (Cons e es)
  have "\<forall>(b, n) \<in> set (upsert (bucket_of e) 1 c). 0 < n" by (rule upsert_pos [OF Cons.prems]) simp
  from Cons.IH [OF this] show ?case by simp
qed simp

lemma upsert_keys: "fst ` set (upsert b n c) = insert b (fst ` set c)"
  by (induction b n c rule: upsert.induct) auto

lemma counts_keys: "fst ` set (foldl (\<lambda>c e. upsert (bucket_of e) 1 c) c es) = fst ` set c \<union> bucket_of ` set es"
  by (induction es arbitrary: c) (auto simp: upsert_keys)

lemma bucket_sum_member: "\<forall>(b, n) \<in> set c. 0 < n \<Longrightarrow> (b, n) \<in> set c \<Longrightarrow> n \<le> bucket_sum (\<lambda>_. True) c"
proof (induction c)
  case (Cons x c)
  have "0 \<le> bucket_sum (\<lambda>_. True) c"
    using Cons.prems(1) by (fastforce simp: bucket_sum_def intro!: sum_list_nonneg)
  with Cons show ?case by (auto simp: bucket_sum_def)
qed simp

lemma fits_hour: "fits_sql ms \<Longrightarrow> fits_sql (hour_bucket ms)"
proof -
  assume f: "fits_sql ms"
  have "hour_bucket ms = ms div 3600000" by (simp add: hour_bucket_def zdiv_zmult2_eq [symmetric])
  with f show ?thesis by (auto simp: fits_sql_def) 
qed

lemma upserts_all:
  "list_all (\<lambda>d. fits_sql (rd_hour d) \<and> fits_sql (rd_n d)) ds \<Longrightarrow>
     executemany upsert_rollup_row ds st =
       (Inr (), st\<lparr>rollups := foldl (\<lambda>t d. upsert (rd_hour d, rd_provider d, rd_verdict d) (rd_n d) t) (rollups st) ds\<rparr>)"
  by (induction ds arbitrary: st) (simp_all add: upsert_rollup_row_def)

lemma foldl_upsert_sum:
  "bucket_sum P (foldl (\<lambda>t d. upsert (rd_hour d, rd_provider d, rd_verdict d) (rd_n d) t) t
      (map (\<lambda>((hour, provider, verdict), n). \<lparr>rd_hour = hour, rd_provider = provider, rd_verdict = verdict, rd_n = n\<rparr>) c))
   = bucket_sum P t + bucket_sum P c"
proof (induction c arbitrary: t)
  case (Cons x c)
  have "bucket_sum P (x # c) = (if P (fst x) then snd x else 0) + bucket_sum P c"
    by (cases x) (simp add: bucket_sum_def)
  with Cons show ?case by (cases x) (auto simp: bucket_sum_upsert)
qed (simp add: bucket_sum_def)

lemma deltas_fit:
  assumes "list_all storable es" "int (length es) < 2 ^ 63"
  shows "list_all (\<lambda>d. fits_sql (rd_hour d) \<and> fits_sql (rd_n d)) (rollup_deltas es)"
proof -
  let ?c = "foldl (\<lambda>c e. upsert (bucket_of e) 1 c) [] es"
  have "fits_sql h \<and> fits_sql n" if m: "((h, p, v), n) \<in> set ?c" for h p v n
  proof
    have "(h, p, v) \<in> bucket_of ` set es" using m counts_keys [of "[]" es] by force
    then obtain e where "e \<in> set es" "h = hour_bucket (evt_received_at e)" by (auto simp: bucket_of_def)
    with assms(1) show "fits_sql h" by (auto simp: list_all_iff storable_def fits_hour)
    have pos: "\<forall>(b, n) \<in> set ?c. 0 < n" using counts_pos [of "[]" es] by simp
    have "n \<le> int (length es)"
      using bucket_sum_member [OF pos m] bucket_sum_counts [of "\<lambda>_. True" "[]" es] by (simp add: bucket_sum_def count_in_def)
    moreover have "0 < n" using pos m by auto
    ultimately show "fits_sql n" using assms(2) by (simp add: fits_sql_def)
  qed
  then show ?thesis by (auto simp: rollup_deltas_def list_all_iff)
qed

section \<open>What one batch does\<close>

lemma persist_storable:
  assumes "list_all storable es" "es \<noteq> []" "int (length es) < 2 ^ 63"
  shows "events (persist es st) = foldl add_event (events st) es"
    and "sum_buckets P (persist es st) = sum_buckets P st + count_in P es"
    and "get_setting LAST_INGEST_SETTING (persist es st) = Inr (show_int (evt_received_at (last es)))"
proof -
  let ?st1 = "st\<lparr>events := foldl add_event (events st) es\<rparr>"
  have t: "takeWhile storable es = es"
    using assms(1) takeWhile_eq_all_conv [of storable es] by (simp only: list_all_iff simp_thms)
  have i: "insert_events es st = (Inr (), ?st1)"
    using insert_events_prefix [of es st] assms(1) unfolding t
    by (cases "insert_events es st") (auto simp: returns_iff)
  obtain d ds where "rollup_deltas es = d # ds \<or> rollup_deltas es = []" by (cases "rollup_deltas es") auto
  have u: "upsert_rollups (rollup_deltas es) ?st1 = (Inr (), ?st1\<lparr>rollups :=
      foldl (\<lambda>t d. upsert (rd_hour d, rd_provider d, rd_verdict d) (rd_n d) t) (rollups st) (rollup_deltas es)\<rparr>)"
    using upserts_all [OF deltas_fit [OF assms(1,3)], of ?st1] by (auto simp: upsert_rollups_def)
  show "events (persist es st) = foldl add_event (events st) es"
    "get_setting LAST_INGEST_SETTING (persist es st) = Inr (show_int (evt_received_at (last es)))"
    by (simp_all add: persist_def i u set_setting_def get_setting_def)
  show "sum_buckets P (persist es st) = sum_buckets P st + count_in P es"
  proof -
    have "bucket_sum P [] = 0" by (simp add: bucket_sum_def)
    moreover have "rollups (persist es st) =
        foldl (\<lambda>t d. upsert (rd_hour d, rd_provider d, rd_verdict d) (rd_n d) t) (rollups st) (rollup_deltas es)"
      by (simp add: persist_def i u set_setting_def)
    ultimately show ?thesis
      using bucket_sum_counts [of P "[]" es]
      by (simp only: sum_buckets_eq rollup_deltas_def foldl_upsert_sum add_0_left)
  qed
qed

section \<open>The pipeline\<close>

definition enqueued :: "batch_step list \<Rightarrow> Event list" where
  "enqueued ss = concat (map (\<lambda>s. case s of Enqueue e \<Rightarrow> [e] | Tick \<Rightarrow> []) ss)"

text \<open>The rollups tell of exactly the events in the table.\<close>

definition rollups_match :: "store \<Rightarrow> bool" where
  "rollups_match st \<longleftrightarrow> (\<forall>P. sum_buckets P st = count_in P (events st))"

lemma count_in_add: "count_in P (foldl add_event t es) = count_in P t + count_in P es"
proof -
  have "map bucket_of (foldl add_event t es) = map bucket_of t @ map bucket_of es"
    by (rule add_events_map) (simp add: bucket_of_def)
  moreover have c: "count_in P es = int (length (filter P (map bucket_of es)))" for es
    by (simp add: count_in_def filter_map o_def)
  ultimately show ?thesis unfolding c by (simp only: filter_append length_append of_nat_add)
qed

lemma rollups_match_persist:
  "rollups_match st \<Longrightarrow> list_all storable es \<Longrightarrow> es \<noteq> [] \<Longrightarrow> int (length es) < 2 ^ 63 \<Longrightarrow>
     rollups_match (persist es st)"
  by (simp add: rollups_match_def persist_storable count_in_add)

text \<open>What has come of the events offered so far: the rows and then the queue, each event as it was offered (its id is given by
  the table).\<close>

definition unnumbered :: "Event \<Rightarrow> Event" where
  "unnumbered e = e\<lparr>evt_id := 0\<rparr>"

definition delivered :: "batcher \<Rightarrow> store \<Rightarrow> Event list" where
  "delivered b st = map unnumbered (events st) @ map unnumbered (bat_queue b)"

lemma unnumbered_id [simp]: "unnumbered (e\<lparr>evt_id := n\<rparr>) = unnumbered e"
  by (simp add: unnumbered_def)

lemma delivered_enqueue:
  assumes "length (bat_queue b) \<le> BATCH_QUEUE_SIZE"
  shows "subseq (delivered (enqueue b e) st) (delivered b st @ [unnumbered e])"
proof (cases "length (bat_queue b) = BATCH_QUEUE_SIZE")
  case True
  then obtain x q where q: "bat_queue b = x # q" by (cases "bat_queue b") (auto simp: BATCH_QUEUE_SIZE_def)
  then have "bat_queue (enqueue b e) = q @ [e]" using batch_queue.push_full [OF True, of e] by simp
  then have d: "delivered (enqueue b e) st = map unnumbered (events st) @ (map unnumbered q @ [unnumbered e])"
    "delivered b st @ [unnumbered e] = map unnumbered (events st) @ (unnumbered x # map unnumbered q @ [unnumbered e])"
    by (simp_all add: delivered_def q)
  show ?thesis unfolding d by (intro list_emb_append_mono subseq_order.order_refl list_emb_Cons)
next
  case False
  then have "bat_queue (enqueue b e) = bat_queue b @ [e]" using assms batch_queue.push_room [of b e] by simp
  then show ?thesis by (simp add: delivered_def)
qed

definition pipeline_inv :: "Event list \<Rightarrow> batcher \<times> store \<Rightarrow> bool" where
  "pipeline_inv es s \<longleftrightarrow>
     (case s of (b, st) \<Rightarrow>
        length (bat_queue b) \<le> BATCH_QUEUE_SIZE \<and> list_all storable (bat_queue b)
        \<and> int (length (bat_queue b)) + bat_dropped b + int (length (events st)) = int (length es)
        \<and> subseq (delivered b st) (map unnumbered es)
        \<and> rollups_match st \<and> keyed evt_id (events st))"

lemma pipeline_inv_enqueue [inv_intros]:
  assumes "pipeline_inv es (b, st)" "storable e"
  shows "pipeline_inv (es @ [e]) (enqueue b e, st)"
proof -
  have len: "length (bat_queue b) \<le> BATCH_QUEUE_SIZE" using assms(1) by (simp add: pipeline_inv_def)
  have "set (bat_queue (enqueue b e)) \<subseteq> set (bat_queue b @ [e])"
    using batch_queue.push_contents [OF len, of e] set_drop_subset unfolding last_n_def by metis
  then have "list_all storable (bat_queue (enqueue b e))"
    using assms by (fastforce simp: pipeline_inv_def list_all_iff)
  moreover have "subseq (delivered (enqueue b e) st) (map unnumbered (es @ [e]))"
    using subseq_order.order_trans [OF delivered_enqueue [OF len, of e st]] assms(1) by (simp add: pipeline_inv_def list_emb_append_mono)
  ultimately show ?thesis
    using assms(1) batch_queue.push_bounded [OF len, of e] enqueue_counts [OF len, of e] by (simp add: pipeline_inv_def)
qed

lemma pipeline_inv_tick [inv_intros]:
  assumes "pipeline_inv es (b, st)"
  shows "pipeline_inv es (drain_and_persist (b, st))"
proof (cases "bat_queue b = []")
  case True
  with assms show ?thesis by (simp add: drain_and_persist_def)
next
  case False
  let ?q = "bat_queue b"
  have q: "list_all storable ?q" "int (length ?q) < 2 ^ 63" "rollups_match st" "keyed evt_id (events st)"
    "length ?q \<le> BATCH_QUEUE_SIZE"
    using assms by (auto simp: pipeline_inv_def BATCH_QUEUE_SIZE_def)
  have "length (foldl add_event (events st) ?q) = length (events st) + length ?q"
    using add_events_map [of "\<lambda>_. ()" "events st" ?q] by (metis length_append length_map)
  moreover have "map unnumbered (foldl add_event (events st) ?q) = map unnumbered (events st) @ map unnumbered ?q"
    by (rule add_events_map) simp
  ultimately show ?thesis
    using assms False q
    by (simp add: drain_and_persist_def pipeline_inv_def rollups_match_persist persist_storable(1) add_events_keyed delivered_def)
qed

lemma batch_run_inv:
  "pipeline_inv es s \<Longrightarrow> list_all storable (enqueued ss) \<Longrightarrow> pipeline_inv (es @ enqueued ss) (batch_run ss s)"
proof (induction ss s arbitrary: es rule: batch_run.induct)
  case (2 e ss s)
  then have i: "pipeline_inv (es @ [e]) (enqueue (fst s) e, snd s)" by (simp add: enqueued_def pipeline_inv_enqueue)
  have "enqueued (Enqueue e # ss) = e # enqueued ss" by (simp add: enqueued_def)
  with "2.IH" [OF i] "2.prems"(2) show ?case by simp
next
  case (3 ss s)
  then have "pipeline_inv es (drain_and_persist s)" by (cases s) (simp add: pipeline_inv_tick)
  with 3 show ?case by (simp add: enqueued_def)
qed (simp add: enqueued_def)

text \<open>Whatever the interleaving of arrivals and ticks, the queue holds at most 1024 events, every event received is in the
  queue, counted as dropped, or a row of the table, in the order of their arrival and as they arrived, and the rollups are exactly the counts of the rows.\<close>

lemma batch_pipeline_conserves:
  assumes "list_all storable (enqueued ss)" "batch_run ss (new_batcher, empty_store) = (b, st)"
  shows "length (bat_queue b) \<le> 1024
    \<and> subseq (delivered b st) (map unnumbered (enqueued ss))
    \<and> distinct (map evt_id (events st))
    \<and> int (length (bat_queue b)) + bat_dropped b + int (length (events st)) = int (length (enqueued ss))
    \<and> sum_buckets P st = count_in P (events st)"
proof -
  have "pipeline_inv [] (new_batcher, empty_store)"
    by (simp add: pipeline_inv_def new_batcher_def empty_store_def rollups_match_def sum_buckets_def count_in_def
        event_table.keyed_Nil delivered_def)
  from batch_run_inv [OF this assms(1)] show ?thesis
    unfolding assms(2) by (simp add: pipeline_inv_def rollups_match_def BATCH_QUEUE_SIZE_def event_table.keyed_distinct)
qed

definition sample_row :: "int \<Rightarrow> pystr \<Rightarrow> Event" where
  "sample_row ms verdict =
     \<lparr>evt_id = 0, evt_received_at = ms, evt_path = ''/hook'', evt_provider = ''github'', evt_verdict = verdict,
      evt_reason = [], evt_upstream_status = 200, evt_latency_ms = 1, evt_body_bytes = 2, evt_body_sha256 = [],
      evt_remote_ip = []\<rparr>"

lemma storable_sample: "fits_sql ms \<Longrightarrow> verdict = ''accepted'' \<or> verdict = ''rejected'' \<Longrightarrow> storable (sample_row ms verdict)"
  by (auto simp: storable_def sample_row_def fits_sql_def)

text \<open>One event the schema refuses (a verdict other than \<open>accepted\<close> and \<open>rejected\<close>, or an integer
  of more than 64 bits) spoils its batch, and not atomically: the events queued before it are stored,
  it and all events after it are lost, and nothing of the batch reaches the rollups.\<close>

theorem persist_bad_row:
  assumes "\<not> list_all storable es"
  shows "persist es st = st\<lparr>events := foldl add_event (events st) (takeWhile storable es)\<rparr>"
proof -
  obtain r st1 where i: "insert_events es st = (r, st1)" by fastforce
  with insert_events_prefix [of es st] assms
  have "\<not> returns r" "st1 = st\<lparr>events := foldl add_event (events st) (takeWhile storable es)\<rparr>" by auto
  then show ?thesis by (cases r) (simp_all add: persist_def i)
qed

theorem persist_bad_row_witness:
  "let st = persist [sample_row 0 ''accepted'', sample_row 1 [], sample_row 2 ''accepted''] empty_store in
   map evt_received_at (events st) = [0] \<and> rollups st = []"
proof -
  have "storable (sample_row 0 ''accepted'')" "\<not> storable (sample_row 1 [])"
    by (simp_all add: storable_def sample_row_def fits_sql_def)
  then show ?thesis
    by (subst persist_bad_row)
       (simp_all add: empty_store_def add_event_def append_row_def sample_row_def)
qed

section \<open>The dashboard's numbers\<close>

lemma hourly_split:
  assumes "\<And>b. P b \<Longrightarrow> s \<le> fst b \<and> fst b \<le> s + n - 1"
  shows "sum_list (map (\<lambda>i. bucket_sum (\<lambda>b. P b \<and> fst b = s + i) t) [0 .. n - 1]) = bucket_sum P t"
proof (induction t)
  case (Cons x t)
  obtain b m where x: "x = (b, m)" by fastforce
  have one: "bucket_sum Q (x # t) = (if Q b then m else 0) + bucket_sum Q t" for Q
    by (simp add: x bucket_sum_def)
  have "sum_list (map (\<lambda>i. if P b \<and> fst b = s + i then m else 0) [0 .. n - 1]) = (if P b then m else 0)"
  proof (cases "P b")
    case True
    have d: "distinct [0 .. n - 1]" by simp
    have m: "fst b - s \<in> {0 .. n - 1}" using assms [OF True] by auto
    have "sum_list (map (\<lambda>i. if P b \<and> fst b = s + i then m else 0) [0 .. n - 1])
        = (\<Sum>i \<in> {0 .. n - 1}. if i = fst b - s then m else 0)"
      using True unfolding sum_list_distinct_conv_sum_set [OF d] set_upto by (intro sum.cong) auto
    also have "\<dots> = m" using m by (simp only: sum.delta finite_atLeastAtMost_int if_True)
    finally show ?thesis using True by simp
  qed simp
  then show ?case by (simp add: one sum_list_addf Cons.IH)
qed (simp add: bucket_sum_def)

text \<open>The chart and the cards agree: over any window the hourly accepted and rejected counts, of which
  there is one per hour in ascending order, add up to the summary's; and while the rollups match the
  table, the summary counts exactly the events of the window's hours.\<close>

theorem summary_agrees:
  "sum_list (map hc_accepted (hourly_counts_window now hours st)) = sum_accepted (summary_window now hours st)
   \<and> sum_list (map hc_rejected (hourly_counts_window now hours st)) = sum_rejected (summary_window now hours st)
   \<and> map hc_hour (hourly_counts_window now hours st) = [start_hour now hours .. now_hour now]
   \<and> (rollups_match st \<longrightarrow> sum_accepted (summary_window now hours st) =
        int (length (filter (\<lambda>e. evt_verdict e = ''accepted''
          \<and> start_hour now hours \<le> hour_bucket (evt_received_at e)
          \<and> hour_bucket (evt_received_at e) \<le> now_hour now) (events st))))"
proof -
  have w: "in_window now hours b \<Longrightarrow> start_hour now hours \<le> fst b \<and> fst b \<le> start_hour now hours + hours - 1" for b
    by (auto simp: in_window_def start_hour_def)
  have s: "sum_list (map (\<lambda>i. bucket_sum (\<lambda>b. in_window now hours b \<and> fst b = start_hour now hours + i \<and> Q b) t) [0 .. hours - 1])
      = bucket_sum (\<lambda>b. in_window now hours b \<and> Q b) t" for Q t
    using hourly_split [of "\<lambda>b. in_window now hours b \<and> Q b" "start_hour now hours" hours t] w
    by (simp add: conj_ac)
  have h: "map (\<lambda>i. start_hour now hours + i) [0 .. hours - 1] = [start_hour now hours .. now_hour now]"
    by (rule nth_equalityI) (auto simp: start_hour_def nth_upto)
  have c: "rollups_match st \<Longrightarrow> sum_accepted (summary_window now hours st) =
      count_in (\<lambda>b. in_window now hours b \<and> snd (snd b) = ''accepted'') (events st)"
    by (simp add: summary_window_def Let_def rollups_match_def)
  show ?thesis
    using s [of "\<lambda>b. snd (snd b) = ''accepted''" "rollups st"] s [of "\<lambda>b. snd (snd b) = ''rejected''" "rollups st"] h c
    by (auto simp: hourly_counts_window_def summary_window_def Let_def sum_buckets_eq o_def count_in_def
        in_window_def bucket_of_def conj_ac)
qed

theorem summary_agrees_witness:
  "let st = persist [sample_row 7200000 ''accepted''] empty_store in
   sum_accepted (summary_window 7200 1 st) = 1"
proof -
  have "storable (sample_row 7200000 ''accepted'')" by (simp add: storable_def sample_row_def fits_sql_def)
  then have s: "list_all storable [sample_row 7200000 ''accepted'']" by simp
  have "rollups_match empty_store"
    by (simp add: rollups_match_def sum_buckets_def count_in_def empty_store_def)
  then have "rollups_match (persist [sample_row 7200000 ''accepted''] empty_store)"
    by (rule rollups_match_persist [OF _ s]) simp_all
  moreover have "events (persist [sample_row 7200000 ''accepted''] empty_store) = [sample_row 7200000 ''accepted''\<lparr>evt_id := 1\<rparr>]"
    using persist_storable(1) [OF s, of empty_store] by (simp add: add_event_def append_row_def next_id_def empty_store_def)
  ultimately show ?thesis
    using summary_agrees [of 7200 1 "persist [sample_row 7200000 ''accepted''] empty_store"]
    by (simp add: start_hour_def now_hour_def hour_bucket_def sample_row_def)
qed

end
