(* ===== verification/Views.thy ===== *)
theory Views
  imports CoreEvents Batcher
begin

text \<open>
  \<open>views.py\<close>: the window of the dashboard, the liveness of the gateway, and the formatting of
  what the pages show; with the row types the page handlers build and the values a page's context holds.
  A string that is not latin-1 (the dash of an empty accept rate) is a list of code points.
\<close>

section \<open>Times\<close>

text \<open>\<open>datetime.fromtimestamp(ms / 1000, tz=UTC)\<close> with its three failures: the second does not fit a
  \<open>time_t\<close>, the year does not fit the C library's \<open>int\<close>, the year is not one of \<open>datetime\<close>'s.\<close>

definition year_of :: "usec \<Rightarrow> int" where
  "year_of us = fst (days_to_ymd (us div DAY_US + EPOCH_DAYS))"

definition fromtimestamp :: "int \<Rightarrow> usec py" where
  "fromtimestamp ms =
     (let us = from_millis ms; y = year_of us in
      if 2 ^ 63 \<le> \<bar>us div 1000000\<bar> then Inl OverflowErr
      else if y < 1900 - 2 ^ 31 \<or> 1899 + 2 ^ 31 < y then Inl (OtherErr ''OSError'')
      else if y < 1 \<or> 9999 < y then Inl (ValueErr ''year is out of range'')
      else Inr us)"

definition LIVENESS_WINDOW :: usec where
  "LIVENESS_WINDOW = 60 * 1000000"

definition gateway_connected :: "usec \<Rightarrow> int \<Rightarrow> bool py" where
  "gateway_connected now last_ingest_ms =
     (if last_ingest_ms = 0 then Inr False
      else py_bind (fromtimestamp last_ingest_ms) (\<lambda>t. Inr (now - t \<le> LIVENESS_WINDOW)))"

definition human_ago :: "usec \<Rightarrow> pystr" where
  "human_ago delta =
     (let seconds = int_of_float (seconds delta) in
      if seconds < 60 then show_int seconds @ ''s ago''
      else if seconds < 3600 then show_int (seconds div 60) @ ''m ago''
      else show_int (seconds div 3600) @ ''h ago'')"

text \<open>\<open>strftime(''%Y-%m-%d %H:%M:%S'')\<close>; the C library does not pad the year.\<close>

definition format_timestamp_ms :: "int \<Rightarrow> pystr py" where
  "format_timestamp_ms unix_ms =
     (if unix_ms = 0 then Inr []
      else py_bind (fromtimestamp unix_ms) (\<lambda>t.
        case days_to_ymd (t div DAY_US + EPOCH_DAYS) of (y, m, d) \<Rightarrow>
          let s = t mod DAY_US div 1000000 in
          Inr (show_int y @ ''-'' @ pad 2 m @ ''-'' @ pad 2 d @ '' ''
               @ pad 2 (s div 3600) @ '':'' @ pad 2 (s div 60 mod 60) @ '':'' @ pad 2 (s mod 60))))"

section \<open>The window\<close>

definition WINDOWS :: "pystr \<rightharpoonup> int" where
  "WINDOWS = [''24h'' \<mapsto> 24, ''7d'' \<mapsto> 24 * 7]"

definition DEFAULT_WINDOW :: pystr where
  "DEFAULT_WINDOW = ''24h''"

definition window_from_request :: "(pystr \<rightharpoonup> pystr) \<Rightarrow> int \<times> pystr" where
  "window_from_request query =
     (let requested = (case query ''window'' of None \<Rightarrow> [] | Some v \<Rightarrow> v) in
      case WINDOWS requested of
        Some hours \<Rightarrow> (hours, requested)
      | None \<Rightarrow> (the (WINDOWS DEFAULT_WINDOW), DEFAULT_WINDOW))"

section \<open>The accept rate\<close>

definition codes :: "pystr \<Rightarrow> codepoints" where
  "codes s = map of_char s"

text \<open>For a summary or one provider's statistics: the total and the rate.\<close>

definition format_accept_rate :: "int \<Rightarrow> rat \<Rightarrow> codepoints" where
  "format_accept_rate total_events accept_rate =
     (if total_events = 0 then [8212] else codes (show_int (round_even (rnd (accept_rate * 100))) @ ''%''))"

section \<open>The status strip\<close>

record DashboardStatus =
  dst_connected :: bool
  dst_last_ingest_at :: int
  dst_last_event_ago :: pystr

definition no_signal :: DashboardStatus where
  "no_signal = \<lparr>dst_connected = False, dst_last_ingest_at = 0, dst_last_event_ago = []\<rparr>"

definition dashboard_status :: "store \<Rightarrow> usec \<Rightarrow> DashboardStatus py" where
  "dashboard_status st now =
     (case py_bind (get_setting LAST_INGEST_SETTING st) py_int of
        Inl _ \<Rightarrow> Inr no_signal
      | Inr last_ingest_ms \<Rightarrow>
          py_bind (gateway_connected now last_ingest_ms) (\<lambda>connected.
          py_bind (fromtimestamp last_ingest_ms) (\<lambda>t.
          Inr \<lparr>dst_connected = connected, dst_last_ingest_at = last_ingest_ms,
               dst_last_event_ago = human_ago (now - t)\<rparr>)))"

section \<open>Rows\<close>

record SessionRow =
  srow_id :: int
  srow_created_at :: pystr
  srow_last_seen_at :: pystr
  srow_ip :: pystr
  srow_user_agent :: pystr

record UserRow =
  urow_id :: int
  urow_email :: pystr
  urow_role :: pystr
  urow_active :: bool
  urow_created_at :: pystr

record AuthEventRow =
  arow_at :: pystr
  arow_kind :: pystr
  arow_email :: pystr
  arow_ip :: pystr

record RejectedRow =
  rrow_time :: pystr
  rrow_provider :: pystr
  rrow_path :: pystr
  rrow_reason :: pystr
  rrow_remote_ip :: pystr

record LogRow =
  lrow_id :: int
  lrow_time :: pystr
  lrow_provider :: pystr
  lrow_path :: pystr
  lrow_verdict :: pystr
  lrow_reason :: pystr
  lrow_upstream_status :: int
  lrow_latency_ms :: int
  lrow_body_bytes :: int
  lrow_body_sha256 :: pystr
  lrow_remote_ip :: pystr

record FilterView =
  fv_provider :: pystr
  fv_verdict :: pystr
  fv_reason :: pystr
  fv_path :: pystr
  fv_from_value :: pystr
  fv_to_value :: pystr

text \<open>A guide, its texts in code points, and its card.\<close>

record ProviderGuide =
  pg_id :: pystr
  pg_name :: pystr
  pg_algorithm :: pystr
  pg_headers :: "pystr list"
  pg_secret_source :: codepoints
  pg_config_field :: pystr
  pg_replay_window :: codepoints
  pg_reject_reasons :: "pystr list"
  pg_checklist :: "pystr list"

record ProviderCard =
  card_guide :: ProviderGuide
  card_stats :: ProviderStats
  card_accept_rate :: codepoints
  card_has_traffic :: bool
  card_logs_url :: pystr

text \<open>\<open>[f(x) for x in xs]\<close> where \<open>f\<close> may raise.\<close>

fun py_map :: "('a \<Rightarrow> 'b py) \<Rightarrow> 'a list \<Rightarrow> 'b list py" where
  "py_map f [] = Inr []"
| "py_map f (x # xs) = py_bind (f x) (\<lambda>y. py_bind (py_map f xs) (\<lambda>ys. Inr (y # ys)))"

datatype ctx_val =
    CNone
  | CStr pystr
  | CText codepoints
  | CBool bool
  | CInt int
  | CFloat rat
  | CUser User
  | CEndpoint Endpoint
  | CEndpoints "Endpoint list"
  | CSessions "SessionRow list"
  | CUsers "UserRow list"
  | CAuthEvents "AuthEventRow list"
  | CRejected "RejectedRow list"
  | CLogs "LogRow list"
  | CFilter FilterView
  | CCards "ProviderCard list"

type_synonym ctx = "(pystr \<times> ctx_val) list"

section \<open>Facts\<close>

lemma py_map_Inr: "py_map f xs = Inr ys \<longleftrightarrow> list_all2 (\<lambda>x y. f x = Inr y) xs ys"
  by (induction xs arbitrary: ys) (auto simp: py_bind_eq_Inr list_all2_Cons1)

lemma year_bounds:
  assumes "0 \<le> n"
  shows "1 \<le> fst (days_to_ymd n)" "fst (days_to_ymd n) \<le> n div 365 + 1"
proof -
  define a r1 where ar: "a = n div 146097" "r1 = n mod 146097"
  define b r2 where br: "b = r1 div 36524" "r2 = r1 mod 36524"
  define c r3 where cr: "c = r2 div 1461" "r3 = r2 mod 1461"
  define d r4 where dr: "d = r3 div 365" "r4 = r3 mod 365"
  have nn: "0 \<le> a" "0 \<le> b" "0 \<le> c" "0 \<le> d" "0 \<le> r4" using assms by (simp_all add: ar br cr dr)
  have y: "fst (days_to_ymd n) = (if d = 4 \<or> b = 4 then a * 400 + b * 100 + c * 4 + d else a * 400 + b * 100 + c * 4 + d + 1)"
    by (simp add: days_to_ymd_def Let_def ar br cr dr)
  then show "1 \<le> fst (days_to_ymd n)" using nn by auto
  have "a * 146097 + r1 = n" "b * 36524 + r2 = r1" "c * 1461 + r3 = r2" "d * 365 + r4 = r3"
    unfolding ar br cr dr by simp_all
  with nn have "146000 * a + 36500 * b + 1460 * c + 365 * d \<le> n" by linarith
  then have "365 * (a * 400 + b * 100 + c * 4 + d) \<le> n" by (simp add: distrib_left mult.commute)
  then show "fst (days_to_ymd n) \<le> n div 365 + 1" using y by (auto; linarith)
qed

text \<open>The times the program stores come back exactly.\<close>

lemma fromtimestamp_exact:
  assumes "0 \<le> ms" "ms < 2 ^ 31 * 1000"
  shows "fromtimestamp ms = Inr (ms * 1000)"
proof -
  have d: "0 \<le> ms * 1000 div DAY_US" "ms * 1000 div DAY_US < 24856" using assms by (auto simp: DAY_US_def)
  have "1 \<le> year_of (ms * 1000)" "year_of (ms * 1000) \<le> (ms * 1000 div DAY_US + EPOCH_DAYS) div 365 + 1"
    using year_bounds [of "ms * 1000 div DAY_US + EPOCH_DAYS"] d by (simp_all add: year_of_def EPOCH_DAYS_def)
  moreover have "(ms * 1000 div DAY_US + EPOCH_DAYS) div 365 \<le> 2038" using d by (simp add: EPOCH_DAYS_def)
  ultimately show ?thesis
    using assms from_millis_exact [OF assms] by (simp add: fromtimestamp_def Let_def)
qed

text \<open>The dashboard's window is one of two. The label and the hours are those of the week when the query asks
  for exactly \<open>7d\<close>, and those of the day in every other case, so the request's own text never reaches
  the page.\<close>

theorem window_closed:
  "window_from_request query = (if query ''window'' = Some ''7d'' then (168, ''7d'') else (24, ''24h''))"
  by (auto simp: window_from_request_def WINDOWS_def DEFAULT_WINDOW_def split: option.split)

end
