(* ===== verification/Console.thy ===== *)
theory Console
  imports SessionMiddleware RateLimit StoreEndpoints Views
begin

text \<open>
  What the handlers of the Console share: the request as the middleware hands it over, responses, the
  handle of \<open>deps.py\<close> as a record of what the handlers change, the helpers of \<open>views.py\<close> they call, and
  the conversion of a stopped guard into its response (\<open>_redirect_middleware\<close> of \<open>app.py\<close>). A page is its
  template's name, its status and the context the handler computed; rendering is not modelled. A stream of
  server-sent events is the cursor and the filter it starts with. A handler
  reads the clock a few times within one request; here the readings of one request agree.
\<close>

definition VERSION :: pystr where
  "VERSION = ''1.0.0''"

record request =
  req_user :: "User option"
  req_session :: "Session option"
  req_url_path :: pystr
  req_client :: "pystr option"
  req_headers :: headers
  req_form :: "pystr \<rightharpoonup> pystr"
  req_query :: "pystr \<rightharpoonup> pystr"
  req_path_id :: int

text \<open>A cookie as \<open>Response.set_cookie\<close> gets it; \<open>delete_cookie\<close> gets the name and the path.\<close>

record cookie =
  ck_name :: pystr
  ck_value :: pystr
  ck_max_age :: int
  ck_path :: pystr
  ck_httponly :: bool
  ck_secure :: bool
  ck_samesite :: pystr

datatype cookie_op = KeepCookie | SetCookie cookie | DropCookie pystr pystr

datatype response =
    Redirect303 pystr cookie_op
  | Page pystr nat ctx
  | PlainText nat pystr "(pystr \<times> pystr) list"
  | JsonBody ctx
  | EventStream int EventFilter

record console =
  con_store :: store
  con_allow_signup :: bool
  con_internal_secret :: bytes
  con_data_dir :: pystr
  con_login :: limiter
  con_signup :: limiter
  con_batcher :: "batcher option"

text \<open>A handler: its response, or the exception that becomes a 500, and the console after it.\<close>

type_synonym outcome = "response py \<times> console"

abbreviation set_store :: "store \<Rightarrow> console \<Rightarrow> console" where
  "set_store st c \<equiv> c\<lparr>con_store := st\<rparr>"

definition param :: "(pystr \<rightharpoonup> pystr) \<Rightarrow> pystr \<Rightarrow> pystr \<Rightarrow> pystr" where
  "param m k d = (case m k of None \<Rightarrow> d | Some v \<Rightarrow> v)"

definition normalize_email :: "pystr \<Rightarrow> pystr" where
  "normalize_email email = py_lower (py_strip email)"

definition client_ip :: "request \<Rightarrow> pystr" where
  "client_ip req = (case req_client req of None \<Rightarrow> [] | Some host \<Rightarrow> host)"

definition too_many_requests :: "rat \<Rightarrow> response" where
  "too_many_requests retry_after_seconds =
     PlainText 429 ''Too many attempts. Try again later.''
       [(''Retry-After'', show_int (max 1 (int_of_float retry_after_seconds)))]"

text \<open>\<open>_redirect_middleware\<close>: a guard's \<open>Redirect\<close> becomes its response.\<close>

definition stop_response :: "User option \<Rightarrow> guard_stop \<Rightarrow> response py" where
  "stop_response user stop =
     (case stop of
        ToLogin loc \<Rightarrow> Inr (Redirect303 loc KeepCookie)
      | Forbidden403 \<Rightarrow> Inr (Page ''403.html'' 403 [(''error'', CStr ''Admins only.'')])
      | CsrfRejected403 \<Rightarrow> Inr (PlainText 403 ''invalid or missing CSRF token'' [])
      | GuardRaised e \<Rightarrow> Inl e)"

text \<open>\<open>templating.render\<close>: what a template sees of a name, the context first and then the defaults.\<close>

definition render_defaults :: ctx where
  "render_defaults =
     [(''user'', CNone), (''csrf_token'', CStr []), (''version'', CStr []), (''connected'', CBool False),
      (''last_event_ago'', CStr []), (''nav_active'', CStr []), (''error'', CStr []), (''next'', CStr [])]"

definition template_value :: "ctx \<Rightarrow> pystr \<Rightarrow> ctx_val option" where
  "template_value context name =
     (case map_of context name of Some v \<Rightarrow> Some v | None \<Rightarrow> map_of render_defaults name)"

definition page_context :: "request \<Rightarrow> store \<Rightarrow> usec \<Rightarrow> pystr \<Rightarrow> ctx \<Rightarrow> ctx py" where
  "page_context req st now nav_active extra =
     py_bind (dashboard_status st now) (\<lambda>status.
     Inr (extra @
       [(''user'', (case req_user req of None \<Rightarrow> CNone | Some u \<Rightarrow> CUser u)),
        (''csrf_token'', CStr (case req_session req of None \<Rightarrow> [] | Some s \<Rightarrow> sess_csrf_token s)),
        (''version'', CStr VERSION), (''nav_active'', CStr nav_active),
        (''connected'', CBool (dst_connected status)), (''last_event_ago'', CStr (dst_last_event_ago status))]))"

definition render_page :: "pystr \<Rightarrow> nat \<Rightarrow> ctx py \<Rightarrow> response py" where
  "render_page name status context = py_bind context (\<lambda>x. Inr (Page name status x))"

text \<open>Turning a page into the response: the Jinja2 engine is a parameter, which renders the template of that name
  in the environment's directory under its escaping options, with the values the names have.\<close>

record Environment =
  env_loader :: pystr
  env_default_for_string :: bool
  env_default :: bool
  env_trim_blocks :: bool
  env_lstrip_blocks :: bool
  env_auto_reload :: bool

definition build_environment :: "pystr \<Rightarrow> Environment" where
  "build_environment ui_dir =
     \<lparr>env_loader = ui_dir @ ''/templates'', env_default_for_string = True, env_default = True,
      env_trim_blocks = False, env_lstrip_blocks = False, env_auto_reload = False\<rparr>"

type_synonym jinja = "Environment \<Rightarrow> pystr \<Rightarrow> (pystr \<Rightarrow> ctx_val option) \<Rightarrow> codepoints py"

record HTMLResponse =
  html_content :: codepoints
  html_status_code :: nat
  html_media_type :: pystr

definition render :: "jinja \<Rightarrow> Environment \<Rightarrow> pystr \<Rightarrow> ctx \<Rightarrow> nat \<Rightarrow> HTMLResponse py" where
  "render jinja env name context status_code =
     py_bind (jinja env (''pages/'' @ name) (template_value context)) (\<lambda>text.
       Inr \<lparr>html_content = text, html_status_code = status_code, html_media_type = ''text/html; charset=utf-8''\<rparr>)"

text \<open>Running a handler's body behind its guards: a stopped guard leaves the console as it was.\<close>

definition guarded :: "(guard_stop + 'a) \<Rightarrow> request \<Rightarrow> ('a \<Rightarrow> console \<Rightarrow> outcome) \<Rightarrow> console \<Rightarrow> outcome" where
  "guarded g req body c =
     (case g of Inl stop \<Rightarrow> (stop_response (req_user req) stop, c) | Inr x \<Rightarrow> body x c)"

definition auth_guard :: "request \<Rightarrow> guard_stop + User" where
  "auth_guard req = require_auth (req_url_path req) (req_user req)"

definition admin_guard :: "request \<Rightarrow> guard_stop + User" where
  "admin_guard req = require_admin (req_url_path req) (req_user req)"

definition csrf_guard :: "request \<Rightarrow> guard_stop + Session" where
  "csrf_guard req = require_csrf (req_headers req) (req_form req) (req_session req)"

text \<open>The request as a handler sees it: the middleware has replaced its user and session.\<close>

definition attach :: "request \<Rightarrow> (User \<times> Session) option \<Rightarrow> request" where
  "attach req who = req\<lparr>req_user := map_option fst who, req_session := map_option snd who\<rparr>"

definition SessionMiddleware_call ::
  "usec \<Rightarrow> pystr option \<Rightarrow> request \<Rightarrow> (request \<Rightarrow> console \<Rightarrow> outcome) \<Rightarrow> console \<Rightarrow> outcome" where
  "SessionMiddleware_call now cookie req app c =
     (case load_session now cookie (con_store c) of
        (who, st) \<Rightarrow> app (attach req who) (set_store st c))"

section \<open>Facts\<close>

lemma guarded_Inr [simp]: "guarded (Inr x) req body c = body x c"
  and guarded_Inl [simp]: "guarded (Inl s) req body c = (stop_response (req_user req) s, c)"
  by (simp_all add: guarded_def)

text \<open>What a guarded handler leaves behind, whether or not the guard lets it run.\<close>

lemma guarded_keeps:
  "P c \<Longrightarrow> (\<And>x. g = Inr x \<Longrightarrow> P (snd (body x c))) \<Longrightarrow> P (snd (guarded g req body c))"
  by (cases g) simp_all

lemma auth_guard_iff: "auth_guard req = Inr u \<longleftrightarrow> req_user req = Some u"
  by (auto simp: auth_guard_def require_auth_def split: option.split)

lemma admin_guard_iff: "admin_guard req = Inr u \<longleftrightarrow> req_user req = Some u \<and> user_role u = ''admin''"
  by (simp add: admin_guard_def require_admin_iff)

lemma csrf_guard_iff:
  "csrf_guard req = Inr s \<longleftrightarrow> req_session req = Some s \<and> check_request_csrf (req_headers req) (req_form req) (Some s) = Inr True"
  by (simp add: csrf_guard_def require_csrf_iff)

lemma csrf_guard_Inl: "csrf_guard req = Inl x \<Longrightarrow> x = CsrfRejected403 \<or> (\<exists>e. x = GuardRaised e)"
  by (auto simp: csrf_guard_def require_csrf_def split: sum.splits if_splits)

lemma csrf_guarded_redirect:
  assumes "guarded (csrf_guard req) req body c = (Inr (Redirect303 l k), c')"
  shows "\<exists>s. csrf_guard req = Inr s \<and> body s c = (Inr (Redirect303 l k), c')"
proof (cases "csrf_guard req")
  case (Inl x)
  with assms csrf_guard_Inl [OF Inl] show ?thesis by (auto simp: stop_response_def)
qed (use assms in simp)

text \<open>A handler behind the CSRF guard does nothing without a session and its token.\<close>

lemma guarded_changes:
  "snd (guarded g req body c) \<noteq> c \<Longrightarrow> \<exists>x. g = Inr x"
  by (cases g) auto

lemma normalize_email_idem [simp]: "normalize_email (normalize_email e) = normalize_email e"
proof -
  have "dropWhile is_space (map lower_char s) = map lower_char (dropWhile is_space s)" for s
    by (induction s) (auto simp: lower_char_def is_space_def in_range_def)
  then have "py_strip (map lower_char s) = map lower_char (py_strip s)" for s
    by (simp add: py_strip_def strip_by_def rev_map)
  then show ?thesis using py_lower_idem [of "py_strip e"] by (simp add: normalize_email_def py_lower_def)
qed

text \<open>A page misses no name of the common chrome, whatever its handler passed; what the handler passed comes first.\<close>

lemma chrome_defined: "n \<in> fst ` set render_defaults \<Longrightarrow> template_value context n \<noteq> None"
  by (auto simp: template_value_def weak_map_of_SomeI split: option.splits dest!: map_of_eq_None_iff [THEN iffD1])

lemma render_same_values:
  assumes "map_of context = map_of context'"
  shows "render jinja env name context status = render jinja env name context' status"
proof -
  have "template_value context = template_value context'" by (rule ext) (simp add: template_value_def assms)
  then show ?thesis by (simp add: render_def)
qed

end
