(* ===== verification/OverviewChart.thy ===== *)
theory OverviewChart
  imports StoreEvents
begin

text \<open>
  \<open>overview_chart.py\<close>: the events-per-hour chart as inline SVG. Every number is an \<open>int\<close> or a binary64
  float computed from one, rounded after each operation (\<open>rnd\<close>), and printed with two decimals. A
  double quote of the markup is the constant \<open>dq\<close>.
\<close>

definition CHART_WIDTH :: int where "CHART_WIDTH = 720"
definition CHART_HEIGHT :: int where "CHART_HEIGHT = 160"
definition BAR_GAP :: int where "BAR_GAP = 2"
definition BOTTOM_PAD :: int where "BOTTOM_PAD = 4"
definition PLOT_HEIGHT :: int where "PLOT_HEIGHT = CHART_HEIGHT - BOTTOM_PAD"

abbreviation dq :: char where "dq \<equiv> CHR 0x22"

text \<open>\<open>f''{x:.2f}''\<close>: the value rounded, half to even, to hundredths; a negative value keeps its sign even when it
  rounds to zero.\<close>

definition fixed2 :: "rat \<Rightarrow> pystr" where
  "fixed2 x =
     (let n = nat (round_even (\<bar>x\<bar> * 100)); s = show_nat (n mod 100) in
      (if x < 0 then ''-'' else []) @ show_nat (n div 100) @ ''.'' @ (if length s < 2 then ''0'' @ s else s))"

definition attr :: "pystr \<Rightarrow> pystr \<Rightarrow> pystr" where
  "attr name v = '' '' @ name @ ''='' @ [dq] @ v @ [dq]"

definition svg_open :: "pystr \<Rightarrow> pystr" where
  "svg_open label =
     ''<svg'' @ attr ''viewBox'' (''0 0 '' @ show_int CHART_WIDTH @ '' '' @ show_int CHART_HEIGHT)
     @ attr ''xmlns'' ''http://www.w3.org/2000/svg'' @ attr ''role'' ''img'' @ attr ''aria-label'' label @ ''>''"

definition rect :: "rat \<Rightarrow> rat \<Rightarrow> rat \<Rightarrow> rat \<Rightarrow> pystr \<Rightarrow> pystr \<Rightarrow> pystr" where
  "rect x y w h fill title =
     ''<rect'' @ attr ''x'' (fixed2 x) @ attr ''y'' (fixed2 y) @ attr ''width'' (fixed2 w) @ attr ''height'' (fixed2 h)
     @ attr ''fill'' fill @ ''><title>'' @ title @ ''</title></rect>''"

text \<open>The geometry of one bucket's bars.\<close>

definition bar_width :: "nat \<Rightarrow> rat" where
  "bar_width n = max 1 (rnd (rnd (of_int CHART_WIDTH / of_nat n) - of_int BAR_GAP))"

definition bar_x :: "nat \<Rightarrow> nat \<Rightarrow> rat" where
  "bar_x n i = rnd (of_nat i * rnd (bar_width n + of_int BAR_GAP))"

definition bar_height :: "int \<Rightarrow> int \<Rightarrow> rat" where
  "bar_height max_total count = rnd (rnd (of_int count / of_int max_total) * of_int PLOT_HEIGHT)"

definition bucket_bars :: "nat \<Rightarrow> int \<Rightarrow> nat \<Rightarrow> HourlyCounts \<Rightarrow> pystr list" where
  "bucket_bars n max_total i b =
     (let x = bar_x n i;
          accepted_h = bar_height max_total (hc_accepted b);
          rejected_h = bar_height max_total (hc_rejected b);
          accepted_y = rnd (of_int PLOT_HEIGHT - accepted_h);
          rejected_y = rnd (accepted_y - rejected_h) in
      (if hc_accepted b \<noteq> 0
       then [rect x accepted_y (bar_width n) accepted_h ''var(--ok)''
               (''hour '' @ show_int (hc_hour b) @ '': '' @ show_int (hc_accepted b) @ '' accepted'')] else [])
      @ (if hc_rejected b \<noteq> 0
         then [rect x rejected_y (bar_width n) rejected_h ''var(--reject)''
                 (''hour '' @ show_int (hc_hour b) @ '': '' @ show_int (hc_rejected b) @ '' rejected'')] else []))"

definition max_total :: "HourlyCounts list \<Rightarrow> int" where
  "max_total bs = max 1 (foldr (\<lambda>b m. max (hc_accepted b + hc_rejected b) m) (tl bs) (hc_accepted (hd bs) + hc_rejected (hd bs)))"

definition chart_label :: "HourlyCounts list \<Rightarrow> pystr" where
  "chart_label bs =
     ''Events per hour over '' @ show_int (int (length bs)) @ '' hours: ''
     @ show_int (sum_list (map hc_accepted bs)) @ '' accepted, '' @ show_int (sum_list (map hc_rejected bs)) @ '' rejected total''"

definition render_hourly_chart :: "HourlyCounts list \<Rightarrow> pystr" where
  "render_hourly_chart bs =
     (if bs = [] then svg_open ''No event data for this window'' @ ''</svg>''
      else svg_open (chart_label bs) @ ''<title>'' @ chart_label bs @ ''</title>''
        @ concat (concat (map (\<lambda>(i, b). bucket_bars (length bs) (max_total bs) i b) (enumerate 0 bs))) @ ''</svg>'')"

section \<open>Soundness of the bypass of autoescaping\<close>

text \<open>The template inserts the chart without escaping. What makes that safe is that numbers print as digits, signs
  and points only, so that the markup is the fixed one.\<close>

definition numeric :: "char \<Rightarrow> bool" where
  "numeric c \<longleftrightarrow> is_digit c \<or> c = CHR ''-'' \<or> c = CHR ''.''"

lemma show_nat_numeric: "list_all numeric (show_nat n)"
  using show_nat_digits [of n] by (auto simp: list_all_iff numeric_def)

lemma show_int_numeric: "list_all numeric (show_int i)"
  by (auto simp: show_int_def show_nat_numeric) (simp add: numeric_def)

lemma fixed2_numeric: "list_all numeric (fixed2 x)"
  by (auto simp: fixed2_def Let_def show_nat_numeric) (auto simp: numeric_def is_digit_def in_range_def)

text \<open>The number of opening angle brackets, as a measure of the markup in a text.\<close>

definition brackets :: "pystr \<Rightarrow> nat" where
  "brackets s = length (filter (\<lambda>c. c = CHR ''<'') s)"

definition quotes :: "pystr \<Rightarrow> nat" where
  "quotes s = length (filter (\<lambda>c. c = dq) s)"

lemma brackets_append [simp]: "brackets (s @ t) = brackets s + brackets t" "quotes (s @ t) = quotes s + quotes t"
  by (simp_all add: brackets_def quotes_def)

lemma numeric_no_markup: "list_all numeric s \<Longrightarrow> brackets s = 0 \<and> quotes s = 0"
  by (induction s) (auto simp: brackets_def quotes_def numeric_def is_digit_def in_range_def)

lemma shown_no_markup [simp]:
  "brackets (show_int i) = 0" "quotes (show_int i) = 0" "brackets (fixed2 x) = 0" "quotes (fixed2 x) = 0"
  using numeric_no_markup [OF show_int_numeric] numeric_no_markup [OF fixed2_numeric] by simp_all

lemma brackets_Cons [simp]: "brackets (c # s) = (if c = CHR ''<'' then 1 else 0) + brackets s" "brackets [] = 0"
  "quotes (c # s) = (if c = dq then 1 else 0) + quotes s" "quotes [] = 0"
  by (simp_all add: brackets_def quotes_def)

lemma rect_markup: "brackets (rect x y w h fill title) = 4 + brackets fill + brackets title"
  "quotes (rect x y w h fill title) = 10 + quotes fill + quotes title"
  by (simp_all add: rect_def attr_def)

text \<open>How many bars a window has: one for each count that is not zero.\<close>

definition bar_count :: "HourlyCounts list \<Rightarrow> nat" where
  "bar_count bs = length (filter (\<lambda>b. hc_accepted b \<noteq> 0) bs) + length (filter (\<lambda>b. hc_rejected b \<noteq> 0) bs)"

text \<open>The unescaped chart holds no markup but its own. Whatever the counts, the output has exactly the angle
  brackets of one \<open>svg\<close> element, its title and four per bar, and the double quotes of their
  attributes, one bar for each count that is not zero: no number can open a tag or close an attribute.\<close>

theorem chart_markup_fixed:
  "brackets (render_hourly_chart bs) = (if bs = [] then 2 else 4 + 4 * bar_count bs)
   \<and> quotes (render_hourly_chart bs) = (if bs = [] then 8 else 8 + 10 * bar_count bs)"
proof -
  have bars: "brackets (concat (bucket_bars n m i b)) = 4 * ((if hc_accepted b \<noteq> 0 then 1 else 0) + (if hc_rejected b \<noteq> 0 then 1 else 0))
      \<and> quotes (concat (bucket_bars n m i b)) = 10 * ((if hc_accepted b \<noteq> 0 then 1 else 0) + (if hc_rejected b \<noteq> 0 then 1 else 0))"
    for n m i b
    by (simp add: bucket_bars_def Let_def rect_markup)
  have all: "brackets (concat (concat (map (\<lambda>(i, b). bucket_bars n m i b) (enumerate k bs)))) = 4 * bar_count bs
      \<and> quotes (concat (concat (map (\<lambda>(i, b). bucket_bars n m i b) (enumerate k bs)))) = 10 * bar_count bs" for n m k
  proof (induction bs arbitrary: k)
    case (Cons b bs)
    from Cons [of "Suc k"] bars [of n m k b] show ?case by (simp add: bar_count_def)
  qed (simp add: bar_count_def)
  have label: "brackets (chart_label bs) = 0" "quotes (chart_label bs) = 0" by (simp_all add: chart_label_def)
  show ?thesis using all [of "length bs" "max_total bs" 0] label by (simp add: render_hourly_chart_def svg_open_def attr_def)
qed

end
