(* ===== verification/DashboardRoutes.thy ===== *)
theory DashboardRoutes
  imports Console OverviewChart
begin

text \<open>
  The read-only pages: \<open>routes/dashboard.py\<close> (the overview and the JSON its cards poll),
  \<open>routes/providers.py\<close> with the catalog of \<open>providers_catalog.py\<close>, and \<open>routes/public.py\<close>. None of
  them changes the console.
\<close>

section \<open>The overview\<close>

definition RECENT_REJECTED_LIMIT :: nat where
  "RECENT_REJECTED_LIMIT = 10"

text \<open>\<open>int(now.timestamp())\<close>\<close>

definition now_unix :: "usec \<Rightarrow> int" where
  "now_unix now = int_of_float (seconds now)"

definition rejected_row :: "Event \<Rightarrow> RejectedRow py" where
  "rejected_row e =
     py_bind (format_timestamp_ms (evt_received_at e)) (\<lambda>time.
     Inr \<lparr>rrow_time = time, rrow_provider = evt_provider e, rrow_path = evt_path e, rrow_reason = evt_reason e,
          rrow_remote_ip = evt_remote_ip e\<rparr>)"

definition overview_numbers :: "usec \<Rightarrow> int \<Rightarrow> store \<Rightarrow> ctx py" where
  "overview_numbers now hours st =
     (let summary = summary_window (now_unix now) hours st in
      py_bind (py_map rejected_row (recent_rejected RECENT_REJECTED_LIMIT st)) (\<lambda>rows.
      Inr [(''accepted'', CInt (sum_accepted summary)), (''rejected'', CInt (sum_rejected summary)),
           (''accept_rate_pct'', CText (format_accept_rate (sum_total summary) (sum_accept_rate summary))),
           (''p50_latency_ms'', CStr (show_int (sum_p50_latency_ms summary) @ ''ms'')),
           (''chart_svg'', CStr (render_hourly_chart (hourly_counts_window (now_unix now) hours st))),
           (''recent_rejected'', CRejected rows)]))"

definition handle_overview :: "usec \<Rightarrow> request \<Rightarrow> console \<Rightarrow> outcome" where
  "handle_overview now req =
     guarded (auth_guard req) req (\<lambda>_ c.
       let st = con_store c; (hours, window) = window_from_request (req_query req); has_any = has_any_event st in
       (render_page ''overview.html'' 200
          (py_bind (if has_any then overview_numbers now hours st else Inr []) (\<lambda>numbers.
           page_context req st now ''overview'' ([(''window'', CStr window), (''has_any_event'', CBool has_any)] @ numbers))), c))"

definition handle_stats_summary :: "usec \<Rightarrow> request \<Rightarrow> console \<Rightarrow> outcome" where
  "handle_stats_summary now req =
     guarded (auth_guard req) req (\<lambda>_ c.
       let (hours, window) = window_from_request (req_query req);
           summary = summary_window (now_unix now) hours (con_store c) in
       (Inr (JsonBody [(''accepted'', CInt (sum_accepted summary)), (''rejected'', CInt (sum_rejected summary)),
          (''accept_rate'', CFloat (sum_accept_rate summary)), (''p50_latency_ms'', CInt (sum_p50_latency_ms summary)),
          (''window'', CStr window)]), c))"

section \<open>The catalog of providers\<close>

definition guide_stripe :: ProviderGuide where
  "guide_stripe =
     \<lparr>pg_id = ''stripe'', pg_name = ''Stripe'',
      pg_algorithm = ''HMAC-SHA256, hex, over '' @ [CHR 0x22] @ ''<timestamp>.<raw body>'' @ [CHR 0x22],
      pg_headers = [''Stripe-Signature''],
      pg_secret_source = codes ''Stripe Dashboard '' @ [8594] @ codes '' Developers '' @ [8594] @ codes '' Webhooks ''
        @ [8594] @ codes '' the endpoint's signing secret (whsec_'' @ [8230] @ codes '').'',
      pg_config_field = ''secret_env'',
      pg_replay_window = codes ''5m by default '' @ [8212]
        @ codes '' Stripe is the one provider that signs a timestamp, so a stale-but-valid signature is still rejected.'',
      pg_reject_reasons = [''missing header'', ''bad encoding'', ''stale timestamp'', ''signature mismatch''],
      pg_checklist = []\<rparr>"

definition guide_github :: ProviderGuide where
  "guide_github =
     \<lparr>pg_id = ''github'', pg_name = ''GitHub'',
      pg_algorithm = ''HMAC-SHA256, hex, over the raw body, sha256= prefixed'',
      pg_headers = [''X-Hub-Signature-256''],
      pg_secret_source = codes ''The secret you typed when you created the webhook (repo/org '' @ [8594]
        @ codes '' Settings '' @ [8594] @ codes '' Webhooks). GitHub never shows it again.'',
      pg_config_field = ''secret_env'',
      pg_replay_window = codes ''None '' @ [8212] @ codes '' GitHub sends no timestamp, so there is nothing to age out.'',
      pg_reject_reasons = [''missing header'', ''bad encoding'', ''signature mismatch''],
      pg_checklist = []\<rparr>"

definition guide_shopify :: ProviderGuide where
  "guide_shopify =
     \<lparr>pg_id = ''shopify'', pg_name = ''Shopify'',
      pg_algorithm = ''HMAC-SHA256, base64, over the raw body'',
      pg_headers = [''X-Shopify-Hmac-SHA256''],
      pg_secret_source = codes ''Your Shopify app's webhook signing secret (Partner Dashboard '' @ [8594] @ codes '' app ''
        @ [8594] @ codes '' API credentials).'',
      pg_config_field = ''secret_env'',
      pg_replay_window = codes ''None '' @ [8212] @ codes '' Shopify sends no timestamp.'',
      pg_reject_reasons = [''missing header'', ''bad encoding'', ''signature mismatch''],
      pg_checklist = []\<rparr>"

definition guide_paypal :: ProviderGuide where
  "guide_paypal =
     \<lparr>pg_id = ''paypal'', pg_name = ''PayPal'',
      pg_algorithm = ''RSA-SHA256 (asymmetric) over '' @ [CHR 0x22] @ ''id|time|webhookId|crc32(body)'' @ [CHR 0x22],
      pg_headers = [''paypal-transmission-sig'', ''paypal-transmission-id'', ''paypal-transmission-time'', ''paypal-cert-url'', ''paypal-auth-algo''],
      pg_secret_source = codes ''No shared secret. PayPal signs with its own key; the gateway fetches the certificate named by paypal-cert-url, pins the host to *.paypal.com over HTTPS, and validates the chain to a trusted root before trusting it.'',
      pg_config_field = ''webhook_id'',
      pg_replay_window = codes ''None '' @ [8212]
        @ codes '' the transmission time is signed but PayPal defines no staleness rule the gateway enforces.'',
      pg_reject_reasons = [''missing header'', ''unsupported algorithm'', ''cert host rejected'', ''cert chain invalid'', ''bad encoding'', ''signature mismatch''],
      pg_checklist = [''Set webhook_id to your webhook subscription ID from the PayPal Developer dashboard (replace WH-CHANGE-ME). It is config, not a secret.'',
        ''Send one event from the PayPal sandbox webhook simulator through the deployed gateway and confirm it returns 200.'',
        ''Do this before trusting real traffic: PayPal has no official library in either language, so unlike the HMAC providers its live cert-fetch path is not covered by the differential harness.'']\<rparr>"

definition PROVIDER_CATALOG :: "ProviderGuide list" where
  "PROVIDER_CATALOG = [guide_stripe, guide_github, guide_shopify, guide_paypal]"

section \<open>The providers page\<close>

definition provider_card :: "(pystr \<rightharpoonup> ProviderStats) \<Rightarrow> ProviderGuide \<Rightarrow> ProviderCard" where
  "provider_card stats guide =
     (let provider_stats = (case stats (pg_id guide) of None \<Rightarrow> \<lparr>ps_accepted = 0, ps_rejected = 0\<rparr> | Some s \<Rightarrow> s) in
      \<lparr>card_guide = guide, card_stats = provider_stats,
       card_accept_rate = format_accept_rate (ps_total provider_stats) (ps_accept_rate provider_stats),
       card_has_traffic = (0 < ps_total provider_stats),
       card_logs_url = ''/dashboard/logs?provider='' @ pg_id guide\<rparr>)"

definition handle_providers :: "usec \<Rightarrow> request \<Rightarrow> console \<Rightarrow> outcome" where
  "handle_providers now req =
     guarded (auth_guard req) req (\<lambda>_ c.
       let (hours, window) = window_from_request (req_query req);
           stats = provider_stats_window (now_unix now) hours (con_store c) in
       (render_page ''providers.html'' 200
          (page_context req (con_store c) now ''providers''
             [(''providers'', CCards (map (provider_card stats) PROVIDER_CATALOG)), (''window'', CStr window)]), c))"

section \<open>Public pages\<close>

definition version_ctx :: ctx where
  "version_ctx = [(''version'', CStr VERSION)]"

definition handle_landing :: "console \<Rightarrow> outcome" where
  "handle_landing c = (Inr (Page ''landing.html'' 200 version_ctx), c)"

definition handle_playground :: "console \<Rightarrow> outcome" where
  "handle_playground c = (Inr (Page ''playground.html'' 200 version_ctx), c)"

definition handle_healthz :: "console \<Rightarrow> outcome" where
  "handle_healthz c = (Inr (JsonBody [(''status'', CStr ''ok''), (''version'', CStr VERSION)]), c)"

definition handle_login_form :: "request \<Rightarrow> console \<Rightarrow> outcome" where
  "handle_login_form req c =
     (Inr (Page ''login.html'' 200 [(''version'', CStr VERSION), (''next'', CStr (safe_next (req_query req ''next''))),
        (''allow_signup'', CBool (con_allow_signup c))]), c)"

definition handle_signup_form :: "console \<Rightarrow> outcome" where
  "handle_signup_form c =
     (if \<not> con_allow_signup c
      then (Inr (Page ''403.html'' 403 [(''version'', CStr VERSION), (''error'', CStr ''Ask your admin for an invite.'')]), c)
      else (Inr (Page ''signup.html'' 200 version_ctx), c))"

definition handle_not_found :: "request \<Rightarrow> console \<Rightarrow> outcome" where
  "handle_not_found req c =
     (Inr (Page ''404.html'' 404 [(''version'', CStr VERSION),
        (''user'', case req_user req of None \<Rightarrow> CNone | Some u \<Rightarrow> CUser u)]), c)"

section \<open>Facts\<close>

lemma dashboard_handlers_snd [simp]:
  "snd (handle_overview now req c) = c" "snd (handle_stats_summary now req c) = c" "snd (handle_providers now req c) = c"
  by (auto simp: handle_overview_def handle_stats_summary_def handle_providers_def guarded_def Let_def
      split: sum.split prod.split)

lemma public_handlers_snd [simp]:
  "snd (handle_landing c) = c" "snd (handle_playground c) = c" "snd (handle_healthz c) = c"
  "snd (handle_login_form req c) = c" "snd (handle_signup_form c) = c" "snd (handle_not_found req c) = c"
  by (simp_all add: handle_landing_def handle_playground_def handle_healthz_def handle_login_form_def
      handle_signup_form_def handle_not_found_def)

end
