(* ===== verification/AuthRoutes.thy ===== *)
theory AuthRoutes
  imports Console StrictHex
begin

text \<open>
  \<open>routes/auth.py\<close>: login, signup, logout and the password reset, with the \<open>reset-password\<close> command of
  \<open>__main__.py\<close> that mints the reset token. Each handler is a function of the request and the console.
  The random values a request draws are the fields of \<open>fresh\<close>; the password hasher is the parameter
  \<open>argon\<close> of \<open>AuthPrim\<close>.
\<close>

definition LOGIN_OK :: pystr where "LOGIN_OK = ''login_ok''"
definition LOGIN_FAIL :: pystr where "LOGIN_FAIL = ''login_fail''"
definition LOGOUT :: pystr where "LOGOUT = ''logout''"
definition PASSWORD_CHANGE :: pystr where "PASSWORD_CHANGE = ''pw_change''"
definition SESSION_REVOKE :: pystr where "SESSION_REVOKE = ''session_revoke''"
definition USER_CREATE :: pystr where "USER_CREATE = ''user_create''"

definition GENERIC_AUTH_ERROR :: pystr where
  "GENERIC_AUTH_ERROR = ''Invalid email or password.''"

text \<open>What a handler draws from the operating system's generator: the bytes of a session or reset token, of a
  CSRF token, and the salt of a password.\<close>

record fresh =
  fresh_token_bytes :: bytes
  fresh_csrf_bytes :: bytes
  fresh_salt :: bytes

definition fresh_token :: "fresh \<Rightarrow> pystr" where
  "fresh_token fr = token_urlsafe TOKEN_BYTES (fresh_token_bytes fr)"

definition fresh_csrf :: "fresh \<Rightarrow> pystr" where
  "fresh_csrf fr = new_csrf_token (fresh_csrf_bytes fr)"

lemma fresh_folds [simp]:
  "new_session_token (fresh_token_bytes fr) = (fresh_token fr, hash_token (fresh_token fr))"
  "new_reset_token (fresh_token_bytes fr) = (fresh_token fr, hash_token (fresh_token fr))"
  "new_csrf_token (fresh_csrf_bytes fr) = fresh_csrf fr"
  by (simp_all add: new_session_token_def new_reset_token_def fresh_token_def fresh_csrf_def Let_def)

text \<open>\<open>_record\<close>.\<close>

definition record_event :: "usec \<Rightarrow> pystr \<Rightarrow> pystr \<Rightarrow> pystr \<Rightarrow> int option \<Rightarrow> store \<Rightarrow> store" where
  "record_event now kind email ip uid st =
     insert_auth_event
       \<lparr>aev_id = 0, aev_at = millis now, aev_user_id = uid, aev_email = email, aev_kind = kind, aev_ip = ip\<rparr> st"

definition session_cookie :: "pystr \<Rightarrow> cookie" where
  "session_cookie token =
     \<lparr>ck_name = SESSION_COOKIE_NAME, ck_value = token, ck_max_age = SESSION_ABSOLUTE_TIMEOUT div 1000000, ck_path = ''/'',
      ck_httponly = True, ck_secure = True, ck_samesite = ''lax''\<rparr>"

text \<open>\<open>_start_session\<close>: the cookie it sets, after storing the session.\<close>

definition start_session :: "fresh \<Rightarrow> usec \<Rightarrow> request \<Rightarrow> int \<Rightarrow> store \<Rightarrow> (cookie_op \<times> store) py" where
  "start_session fr now req uid st =
     (let (token, token_hash) = new_session_token (fresh_token_bytes fr) in
      case create_session
             \<lparr>sess_id = 0, sess_token_hash = token_hash, sess_user_id = uid, sess_csrf_token = new_csrf_token (fresh_csrf_bytes fr),
              sess_created_at = millis now, sess_last_seen_at = millis now,
              sess_expires_at = millis (now + SESSION_ABSOLUTE_TIMEOUT), sess_ip = client_ip req,
              sess_user_agent = (case req_headers req ''user-agent'' of None \<Rightarrow> [] | Some v \<Rightarrow> v)\<rparr> st of
        Inl e \<Rightarrow> Inl e
      | Inr (_, st') \<Rightarrow> Inr (SetCookie (session_cookie token), st'))"

text \<open>The redirect that carries the new session, the last step of login and signup.\<close>

definition redirect_with_session :: "pystr \<Rightarrow> fresh \<Rightarrow> usec \<Rightarrow> request \<Rightarrow> int \<Rightarrow> console \<Rightarrow> outcome" where
  "redirect_with_session loc fr now req uid c =
     (case start_session fr now req uid (con_store c) of
        Inl e \<Rightarrow> (Inl e, c)
      | Inr (cookie, st) \<Rightarrow> (Inr (Redirect303 loc cookie), set_store st c))"

definition login_rejected :: "console \<Rightarrow> pystr \<Rightarrow> response" where
  "login_rejected c next_path =
     Page ''login.html'' 200
       [(''version'', CStr VERSION), (''error'', CStr GENERIC_AUTH_ERROR), (''next'', CStr next_path),
        (''allow_signup'', CBool (con_allow_signup c))]"

definition handle_login :: "argon \<Rightarrow> fresh \<Rightarrow> usec \<Rightarrow> request \<Rightarrow> console \<Rightarrow> outcome" where
  "handle_login lib fr now req c =
     (let email = normalize_email (param (req_form req) ''email'' []);
          password = param (req_form req) ''password'' [];
          ip = client_ip req;
          next_path = safe_next (Some (param (req_form req) ''next'' [])) in
      case allow (ip @ ''|'' @ email) now (con_login c) of
        (Inl e, lm) \<Rightarrow> (Inl e, c\<lparr>con_login := lm\<rparr>)
      | (Inr (allowed, retry_after), lm) \<Rightarrow>
          let c1 = c\<lparr>con_login := lm\<rparr> in
          if \<not> allowed then (Inr (too_many_requests (seconds retry_after)), c1)
          else
            case get_user_by_email email (con_store c1) of
              Inl _ \<Rightarrow>
                (case verify_password lib password (dummy_hash lib (fresh_salt fr)) of
                   Inl e \<Rightarrow> (Inl e, c1)
                 | Inr _ \<Rightarrow> (Inr (login_rejected c1 next_path),
                             set_store (record_event now LOGIN_FAIL email ip None (con_store c1)) c1))
            | Inr user \<Rightarrow>
                case (if \<not> user_active user then Inr False
                      else verify_password lib password (user_password_hash user)) of
                  Inl e \<Rightarrow> (Inl e, c1)
                | Inr ok \<Rightarrow>
                    if \<not> ok
                    then (Inr (login_rejected c1 next_path),
                          set_store (record_event now LOGIN_FAIL email ip (Some (user_id user)) (con_store c1)) c1)
                    else redirect_with_session next_path fr now req (user_id user)
                           (set_store (record_event now LOGIN_OK email ip (Some (user_id user)) (con_store c1)) c1))"

definition signup_rejected :: "pystr \<Rightarrow> response" where
  "signup_rejected message =
     Page ''signup.html'' 200 [(''version'', CStr VERSION), (''error'', CStr message)]"

definition signup_closed :: response where
  "signup_closed =
     Page ''403.html'' 403 [(''version'', CStr VERSION), (''error'', CStr ''Ask your admin for an invite.'')]"

definition handle_signup :: "argon \<Rightarrow> fresh \<Rightarrow> usec \<Rightarrow> request \<Rightarrow> console \<Rightarrow> outcome" where
  "handle_signup lib fr now req c =
     (if \<not> con_allow_signup c then (Inr signup_closed, c)
      else
        let ip = client_ip req in
        case allow ip now (con_signup c) of
          (Inl e, lm) \<Rightarrow> (Inl e, c\<lparr>con_signup := lm\<rparr>)
        | (Inr (allowed, retry_after), lm) \<Rightarrow>
            let c1 = c\<lparr>con_signup := lm\<rparr> in
            if \<not> allowed then (Inr (too_many_requests (seconds retry_after)), c1)
            else
              let email = normalize_email (param (req_form req) ''email'' []);
                  password = param (req_form req) ''password'' [];
                  confirm = param (req_form req) ''password_confirm'' [] in
              if email = [] \<or> password \<noteq> confirm then (Inr (signup_rejected GENERIC_AUTH_ERROR), c1)
              else
                case validate_password password of
                  Inl e \<Rightarrow> (Inr (signup_rejected (exn_message e)), c1)
                | Inr _ \<Rightarrow>
                    case get_user_by_email email (con_store c1) of
                      Inr _ \<Rightarrow> (Inr (signup_rejected GENERIC_AUTH_ERROR), c1)
                    | Inl _ \<Rightarrow>
                        let role = (if count_users (con_store c1) = 0 then ''admin'' else ''member'') in
                        case create_user email (hash_password lib (fresh_salt fr) password) role (millis now) (con_store c1) of
                          Inl _ \<Rightarrow> (Inr (signup_rejected GENERIC_AUTH_ERROR), c1)
                        | Inr (uid, st) \<Rightarrow>
                            redirect_with_session ''/dashboard'' fr now req uid
                              (set_store (record_event now USER_CREATE email ip (Some uid) st) c1))"

definition handle_logout :: "usec \<Rightarrow> request \<Rightarrow> console \<Rightarrow> outcome" where
  "handle_logout now req =
     guarded (csrf_guard req) req (\<lambda>session c.
       (Inr (Redirect303 ''/'' (DropCookie SESSION_COOKIE_NAME ''/'')),
        set_store (record_event now LOGOUT
          (case req_user req of None \<Rightarrow> [] | Some u \<Rightarrow> user_email u) (client_ip req) (Some (sess_user_id session))
          (delete_session (sess_id session) (con_store c))) c))"

section \<open>Password reset\<close>

definition reset_key :: "int \<Rightarrow> pystr" where
  "reset_key uid = ''pwreset:'' @ show_int uid"

text \<open>\<open>_consume_reset_token\<close>: whether the token is good, and the database with it burnt.\<close>

definition consume_reset_token :: "usec \<Rightarrow> int \<Rightarrow> pystr \<Rightarrow> store \<Rightarrow> bool \<times> store" where
  "consume_reset_token now uid token st =
     (case get_setting (reset_key uid) st of
        Inl _ \<Rightarrow> (False, st)
      | Inr stored \<Rightarrow>
          (case partition_ch (CHR '':'') stored of (digest_hex, _, expires_raw) \<Rightarrow>
           case (py_fromhex digest_hex, py_int expires_raw) of
             (Some stored_digest, Inr expires_at_ms) \<Rightarrow>
               if of_int expires_at_ms < rnd (seconds now * 1000) then (False, delete_setting (reset_key uid) st)
               else if \<not> compare_digest (hash_token token) stored_digest then (False, st)
               else (True, delete_setting (reset_key uid) st)
           | _ \<Rightarrow> (False, st)))"

definition handle_reset_password_form :: "request \<Rightarrow> console \<Rightarrow> outcome" where
  "handle_reset_password_form req c =
     (let token = param (req_query req) ''token'' []; uid = param (req_query req) ''uid'' [] in
      if token = [] \<or> uid = [] then (Inr (Page ''404.html'' 404 [(''version'', CStr VERSION)]), c)
      else (Inr (Page ''reset_password.html'' 200
             [(''version'', CStr VERSION), (''reset_token'', CStr token), (''reset_uid'', CStr uid)]), c))"

definition reset_rejected :: "request \<Rightarrow> pystr \<Rightarrow> response" where
  "reset_rejected req message =
     Page ''reset_password.html'' 400
       [(''version'', CStr VERSION), (''error'', CStr message),
        (''reset_token'', CStr (param (req_form req) ''token'' [])), (''reset_uid'', CStr (param (req_form req) ''uid'' []))]"

definition handle_reset_password :: "argon \<Rightarrow> fresh \<Rightarrow> usec \<Rightarrow> request \<Rightarrow> console \<Rightarrow> outcome" where
  "handle_reset_password lib fr now req c =
     (let token = param (req_form req) ''token'' [];
          password = param (req_form req) ''password'' [];
          confirm = param (req_form req) ''password_confirm'' [] in
      case py_int (param (req_form req) ''uid'' []) of
        Inl _ \<Rightarrow> (Inr (reset_rejected req ''Invalid reset link.''), c)
      | Inr uid \<Rightarrow>
          case consume_reset_token now uid token (con_store c) of
            (ok, st1) \<Rightarrow>
              if \<not> ok then (Inr (reset_rejected req ''This reset link is invalid or has expired.''), set_store st1 c)
              else if password \<noteq> confirm then (Inr (reset_rejected req ''Passwords do not match.''), set_store st1 c)
              else
                case validate_password password of
                  Inl e \<Rightarrow> (Inr (reset_rejected req (exn_message e)), set_store st1 c)
                | Inr _ \<Rightarrow>
                    let st2 = update_password_hash uid (hash_password lib (fresh_salt fr) password) st1;
                        st3 = snd (delete_sessions_for_user_except uid 0 st2);
                        st4 = record_event now PASSWORD_CHANGE [] (client_ip req) (Some uid) st3 in
                    (Inr (Redirect303 ''/login'' KeepCookie), set_store st4 c))"

text \<open>\<open>_reset_password\<close> of \<open>__main__.py\<close>: the token it prints and the database after it; \<open>None\<close> when there is
  no such user.\<close>

definition cli_reset_password :: "fresh \<Rightarrow> usec \<Rightarrow> pystr \<Rightarrow> store \<Rightarrow> (pystr \<times> int) py \<times> store" where
  "cli_reset_password fr now email st =
     (case get_user_by_email (py_lower (py_strip email)) st of
        Inl _ \<Rightarrow> (Inl (SystemExitErr (''no such user: '' @ email)), st)
      | Inr user \<Rightarrow>
          (case new_reset_token (fresh_token_bytes fr) of (token, token_hash) \<Rightarrow>
             (Inr (token, user_id user),
              set_setting (reset_key (user_id user))
                (hex_encode token_hash @ '':'' @ show_int (millis (now + RESET_TOKEN_TTL))) st)))"

section \<open>Facts\<close>

text \<open>The row \<open>_start_session\<close> stores.\<close>

definition new_session :: "fresh \<Rightarrow> usec \<Rightarrow> request \<Rightarrow> int \<Rightarrow> Session" where
  "new_session fr now req uid =
     \<lparr>sess_id = 0, sess_token_hash = hash_token (fresh_token fr), sess_user_id = uid, sess_csrf_token = fresh_csrf fr,
      sess_created_at = millis now, sess_last_seen_at = millis now,
      sess_expires_at = millis (now + SESSION_ABSOLUTE_TIMEOUT), sess_ip = client_ip req,
      sess_user_agent = (case req_headers req ''user-agent'' of None \<Rightarrow> [] | Some v \<Rightarrow> v)\<rparr>"

definition add_session :: "Session \<Rightarrow> store \<Rightarrow> store" where
  "add_session s st = st\<lparr>sessions := append_row sess_id (\<lambda>n r. r\<lparr>sess_id := n\<rparr>) s (sessions st)\<rparr>"

lemma bex_image: "(\<exists>r \<in> A. f r = x) \<longleftrightarrow> x \<in> f ` A"
  by auto

lemma start_session_iff:
  "start_session fr now req uid st = Inr (cookie, st') \<longleftrightarrow>
     cookie = SetCookie (session_cookie (fresh_token fr)) \<and> st' = add_session (new_session fr now req uid) st
     \<and> hash_token (fresh_token fr) \<notin> sess_token_hash ` set (sessions st) \<and> uid \<in> user_id ` set (users st)"
  by (simp add: start_session_def create_session_def new_session_def add_session_def Let_def
      bex_image) auto

lemma start_session_Inl: "start_session fr now req uid st = Inl e \<Longrightarrow>
    hash_token (fresh_token fr) \<in> sess_token_hash ` set (sessions st) \<or> uid \<notin> user_id ` set (users st)"
  using start_session_iff [of fr now req uid st] by (metis sum.distinct(1))

lemma start_session_ok: "accounts_ok st \<Longrightarrow> start_session fr now req uid st = Inr (cookie, st') \<Longrightarrow> accounts_ok st'"
  by (auto simp: start_session_def Let_def intro: create_session_ok split: sum.splits)

lemma record_event_simps [simp]:
  "users (record_event now k e ip u st) = users st" "sessions (record_event now k e ip u st) = sessions st"
  "settings (record_event now k e ip u st) = settings st" "endpoints (record_event now k e ip u st) = endpoints st"
  "events (record_event now k e ip u st) = events st" "rollups (record_event now k e ip u st) = rollups st"
  by (simp_all add: record_event_def insert_auth_event_def)

lemma record_event_ok [inv_intros]: "accounts_ok st \<Longrightarrow> accounts_ok (record_event now k e ip u st)"
  by (simp add: record_event_def insert_auth_event_ok)

lemma redirect_with_session_ok:
  "accounts_ok (con_store c) \<Longrightarrow> accounts_ok (con_store (snd (redirect_with_session loc fr now req uid c)))"
  by (auto simp: redirect_with_session_def intro: start_session_ok split: sum.split)

lemma redirect_with_session_simps [simp]:
  "users (con_store (snd (redirect_with_session loc fr now req uid c))) = users (con_store c)"
  "settings (con_store (snd (redirect_with_session loc fr now req uid c))) = settings (con_store c)"
  "endpoints (con_store (snd (redirect_with_session loc fr now req uid c))) = endpoints (con_store c)"
  by (auto simp: redirect_with_session_def start_session_iff add_session_def split: sum.split)

lemma redirect_with_session_resp:
  "fst (redirect_with_session loc fr now req uid c) = Inr r \<Longrightarrow> r = Redirect303 loc (SetCookie (session_cookie (fresh_token fr)))"
  by (auto simp: redirect_with_session_def start_session_iff split: sum.splits)

lemma get_user_by_email_Some:
  "get_user_by_email email st = Inr u \<Longrightarrow> u \<in> set (users st) \<and> ascii_fold (user_email u) = ascii_fold email"
  by (auto simp: get_user_by_email_def find_Some_iff split: option.splits)

lemma get_user_by_email_iff:
  assumes "accounts_ok st"
  shows "get_user_by_email email st = Inr u \<longleftrightarrow> u \<in> set (users st) \<and> ascii_fold (user_email u) = ascii_fold email"
proof
  assume u: "u \<in> set (users st) \<and> ascii_fold (user_email u) = ascii_fold email"
  then obtain r where r: "get_user_by_email email st = Inr r"
    by (cases "find (\<lambda>u. ascii_fold (user_email u) = ascii_fold email) (users st)")
       (auto simp: get_user_by_email_def find_None_iff)
  have "inj_on (\<lambda>u. ascii_fold (user_email u)) (set (users st))" using assms by (simp add: accounts_ok_def distinct_map)
  with u get_user_by_email_Some [OF r] r show "get_user_by_email email st = Inr u" by (auto simp: inj_on_def)
qed (rule get_user_by_email_Some)

text \<open>The handlers keep the schema's invariant.\<close>

lemma handle_login_ok [inv_intros]:
  "accounts_ok (con_store c) \<Longrightarrow> accounts_ok (con_store (snd (handle_login lib fr now req c)))"
  by (auto simp: handle_login_def Let_def record_event_ok intro!: redirect_with_session_ok split: sum.split prod.split)

lemma handle_signup_ok [inv_intros]:
  "accounts_ok (con_store c) \<Longrightarrow> accounts_ok (con_store (snd (handle_signup lib fr now req c)))"
  by (auto simp: handle_signup_def Let_def record_event_ok intro!: redirect_with_session_ok record_event_ok
      intro: create_user_ok split: sum.split prod.split)

lemma handle_logout_ok [inv_intros]:
  "accounts_ok (con_store c) \<Longrightarrow> accounts_ok (con_store (snd (handle_logout now req c)))"
  by (auto simp: handle_logout_def guarded_def record_event_ok session_deletes_ok split: sum.split)

lemma consume_reset_token_ok: "accounts_ok st \<Longrightarrow> accounts_ok (snd (consume_reset_token now uid tok st))"
  by (auto simp: consume_reset_token_def Let_def settings_ok split: sum.split option.split prod.split)

lemma handle_reset_password_ok [inv_intros]:
  assumes "accounts_ok (con_store c)"
  shows "accounts_ok (con_store (snd (handle_reset_password lib fr now req c)))"
proof (cases "py_int (param (req_form req) ''uid'' [])")
  case (Inr uid)
  obtain ok st1 where c: "consume_reset_token now uid (param (req_form req) ''token'' []) (con_store c) = (ok, st1)"
    by (cases "consume_reset_token now uid (param (req_form req) ''token'' []) (con_store c)")
  with consume_reset_token_ok [OF assms, of now uid "param (req_form req) ''token'' []"] have "accounts_ok st1" by simp
  with Inr c show ?thesis
    by (simp add: handle_reset_password_def Let_def record_event_ok session_deletes_ok update_password_hash_ok split: sum.split)
qed (simp add: handle_reset_password_def Let_def assms)

section \<open>Login\<close>

definition login_email :: "request \<Rightarrow> pystr" where
  "login_email req = normalize_email (param (req_form req) ''email'' [])"

definition login_next :: "request \<Rightarrow> pystr" where
  "login_next req = safe_next (Some (param (req_form req) ''next'' []))"

definition login_admitted :: "usec \<Rightarrow> request \<Rightarrow> console \<Rightarrow> bool" where
  "login_admitted now req c \<longleftrightarrow> (\<exists>d. fst (allow (client_ip req @ ''|'' @ login_email req) now (con_login c)) = Inr (True, d))"

text \<open>The user a login proves to be.\<close>

definition proves :: "argon \<Rightarrow> request \<Rightarrow> store \<Rightarrow> User \<Rightarrow> bool" where
  "proves lib req st u \<longleftrightarrow> u \<in> set (users st) \<and> ascii_fold (user_email u) = ascii_fold (login_email req) \<and> user_active u
     \<and> argon_verify lib (user_password_hash u) (param (req_form req) ''password'' []) = ArgonMatch"

lemma verify_password_True: "verify_password lib p h = Inr True \<longleftrightarrow> argon_verify lib h p = ArgonMatch"
  by (simp add: verify_password_def split: argon_result.split)

lemma login_not_admitted:
  assumes "\<not> login_admitted now req c"
  shows "con_store (snd (handle_login lib fr now req c)) = con_store c
    \<and> (\<forall>l k. fst (handle_login lib fr now req c) \<noteq> Inr (Redirect303 l k))"
  using assms
  by (cases "allow (client_ip req @ ''|'' @ login_email req) now (con_login c)"; cases "fst (allow (client_ip req @ ''|'' @ login_email req) now (con_login c))")
     (auto simp: handle_login_def Let_def login_admitted_def login_email_def too_many_requests_def)

lemma login_proved:
  assumes "login_admitted now req c" "accounts_ok (con_store c)" "proves lib req (con_store c) u"
  shows "\<exists>lm. handle_login lib fr now req c = redirect_with_session (login_next req) fr now req (user_id u)
      (c\<lparr>con_login := lm, con_store := record_event now LOGIN_OK (login_email req) (client_ip req) (Some (user_id u)) (con_store c)\<rparr>)"
proof -
  obtain d lm where a: "allow (client_ip req @ ''|'' @ login_email req) now (con_login c) = (Inr (True, d), lm)"
    using assms(1) by (auto simp: login_admitted_def) (metis prod.collapse)
  have u: "get_user_by_email (login_email req) (con_store c) = Inr u" "user_active u"
    "verify_password lib (param (req_form req) ''password'' []) (user_password_hash u) = Inr True"
    using assms(2,3) by (auto simp: proves_def get_user_by_email_iff verify_password_True)
  show ?thesis using a u by (auto simp: handle_login_def Let_def login_email_def login_next_def)
qed

lemma login_unproved:
  assumes "accounts_ok (con_store c)" "\<nexists>u. proves lib req (con_store c) u"
  shows "sessions (con_store (snd (handle_login lib fr now req c))) = sessions (con_store c)
    \<and> users (con_store (snd (handle_login lib fr now req c))) = users (con_store c)
    \<and> (\<forall>l k. fst (handle_login lib fr now req c) \<noteq> Inr (Redirect303 l k))"
proof -
  have no: "get_user_by_email (login_email req) (con_store c) = Inr u \<Longrightarrow> user_active u \<Longrightarrow>
      verify_password lib (param (req_form req) ''password'' []) (user_password_hash u) \<noteq> Inr True" for u
    using assms by (auto simp: proves_def get_user_by_email_iff verify_password_True)
  have no': "get_user_by_email (login_email req) (con_store c) = Inr u \<Longrightarrow> user_active u \<Longrightarrow>
      verify_password lib (param (req_form req) ''password'' []) (user_password_hash u) = Inr b \<Longrightarrow> \<not> b" for u b
    using no by (cases b) auto
  show ?thesis
    using no'
    by (auto simp: handle_login_def Let_def login_email_def too_many_requests_def login_rejected_def
        split: sum.splits prod.splits if_splits)
qed

text \<open>All a login touches: the limiter, the sessions, and at most one line of the audit log, about this attempt.\<close>

definition login_key :: "request \<Rightarrow> pystr" where
  "login_key req = client_ip req @ ''|'' @ login_email req"

definition login_touches :: "request \<Rightarrow> usec \<Rightarrow> console \<Rightarrow> console \<Rightarrow> bool" where
  "login_touches req now c c' \<longleftrightarrow>
     (\<exists>ss evs. c' = c\<lparr>con_login := snd (allow (login_key req) now (con_login c)),
          con_store := (con_store c)\<lparr>sessions := ss, auth_events := auth_events (con_store c) @ evs\<rparr>\<rparr>
        \<and> length evs \<le> 1 \<and> list_all (\<lambda>a. aev_email a = login_email req \<and> aev_kind a \<in> {LOGIN_OK, LOGIN_FAIL}) evs)"

lemma record_event_append:
  "record_event now k email ip uid st = st\<lparr>auth_events := auth_events st @
     [\<lparr>aev_id = next_id aev_id (auth_events st), aev_at = millis now, aev_user_id = uid, aev_email = email, aev_kind = k, aev_ip = ip\<rparr>]\<rparr>"
  by (simp add: record_event_def insert_auth_event_def append_row_def)

lemma login_touches_limiter:
  "snd (allow (login_key req) now (con_login c)) = lm \<Longrightarrow> login_touches req now c (c\<lparr>con_login := lm\<rparr>)"
  unfolding login_touches_def by (intro exI [of _ "sessions (con_store c)"] exI [of _ "[]"]) simp

lemma login_touches_record:
  "snd (allow (login_key req) now (con_login c)) = lm \<Longrightarrow> k \<in> {LOGIN_OK, LOGIN_FAIL} \<Longrightarrow>
     login_touches req now c (c\<lparr>con_login := lm, con_store := (record_event now k (login_email req) ip uid (con_store c))\<lparr>sessions := ss\<rparr>\<rparr>)"
  unfolding login_touches_def record_event_append
  by (intro exI [of _ ss] exI [of _ "[\<lparr>aev_id = next_id aev_id (auth_events (con_store c)), aev_at = millis now, aev_user_id = uid,
      aev_email = login_email req, aev_kind = k, aev_ip = ip\<rparr>]"]) auto

lemma login_frame: "login_touches req now c (snd (handle_login lib fr now req c))"
proof -
  obtain r lm where a: "allow (login_key req) now (con_login c) = (r, lm)" by fastforce
  then have lm: "snd (allow (login_key req) now (con_login c)) = lm" by simp
  note t1 = login_touches_limiter [OF lm]
  have t2: "k \<in> {LOGIN_OK, LOGIN_FAIL} \<Longrightarrow>
      login_touches req now c (set_store (record_event now k (login_email req) ip uid (con_store c)) (c\<lparr>con_login := lm\<rparr>))" for k ip uid
    using login_touches_record [where k = k and ip = ip and uid = uid and ss = "sessions (con_store c)", OF lm] by (simp add: record_event_append)
  have t3: "login_touches req now c (snd (redirect_with_session loc fr now req uid
      (set_store (record_event now LOGIN_OK (login_email req) ip who (con_store c)) (c\<lparr>con_login := lm\<rparr>))))" for loc uid ip who
  proof (cases "start_session fr now req uid (record_event now LOGIN_OK (login_email req) ip who (con_store c))")
    case (Inl e)
    then show ?thesis using t2 [of LOGIN_OK ip who] by (simp add: redirect_with_session_def)
  next
    case (Inr r)
    then obtain k st' where s: "r = (k, st')" by (cases r)
    then have "st' = (record_event now LOGIN_OK (login_email req) ip who (con_store c))\<lparr>sessions := sessions st'\<rparr>"
      using Inr by (auto simp: start_session_iff add_session_def)
    then show ?thesis using Inr s login_touches_record [where k = LOGIN_OK and ip = ip and uid = who and ss = "sessions st'", OF lm]
      by (simp add: redirect_with_session_def)
  qed
  show ?thesis
    using t1 t2 t3 a [unfolded login_key_def]
    by (auto simp: handle_login_def Let_def login_email_def [symmetric] split: sum.split prod.split)
qed

lemma login_sessions:
  assumes "accounts_ok (con_store c)" "hash_token (fresh_token fr) \<notin> sess_token_hash ` set (sessions (con_store c))"
  shows "((\<exists>loc k. fst (handle_login lib fr now req c) = Inr (Redirect303 loc k))
       \<longleftrightarrow> login_admitted now req c \<and> (\<exists>u. proves lib req (con_store c) u))
    \<and> (\<forall>loc k. fst (handle_login lib fr now req c) = Inr (Redirect303 loc k)
         \<longrightarrow> loc = login_next req \<and> k = SetCookie (session_cookie (fresh_token fr))
           \<and> (\<exists>u. proves lib req (con_store c) u
               \<and> sessions (con_store (snd (handle_login lib fr now req c)))
                 = sessions (add_session (new_session fr now req (user_id u)) (con_store c))))
    \<and> ((\<forall>loc k. fst (handle_login lib fr now req c) \<noteq> Inr (Redirect303 loc k))
         \<longrightarrow> sessions (con_store (snd (handle_login lib fr now req c))) = sessions (con_store c))
    \<and> users (con_store (snd (handle_login lib fr now req c))) = users (con_store c)"
proof (cases "login_admitted now req c \<and> (\<exists>u. proves lib req (con_store c) u)")
  case True
  then obtain u lm where u: "proves lib req (con_store c) u" and
    h: "handle_login lib fr now req c = redirect_with_session (login_next req) fr now req (user_id u)
      (c\<lparr>con_login := lm, con_store := record_event now LOGIN_OK (login_email req) (client_ip req) (Some (user_id u)) (con_store c)\<rparr>)"
    using login_proved [OF _ assms(1)] by blast
  let ?st = "record_event now LOGIN_OK (login_email req) (client_ip req) (Some (user_id u)) (con_store c)"
  have "start_session fr now req (user_id u) ?st = Inr (SetCookie (session_cookie (fresh_token fr)), add_session (new_session fr now req (user_id u)) ?st)"
    using assms(2) u by (auto simp: start_session_iff proves_def)
  then have "handle_login lib fr now req c = (Inr (Redirect303 (login_next req) (SetCookie (session_cookie (fresh_token fr)))),
      c\<lparr>con_login := lm, con_store := add_session (new_session fr now req (user_id u)) ?st\<rparr>)"
    by (simp add: h redirect_with_session_def)
  with True u show ?thesis by (auto simp: add_session_def)
next
  case False
  then show ?thesis using login_not_admitted [of now req c lib fr] login_unproved [OF assms(1), of lib req fr now] by auto
qed

text \<open>C8: who gets a session by logging in. On a consistent database, and with a session token that was never used,
  the answer is a redirect with a session cookie exactly when the rate limiter admits the attempt and
  some active user has the given address (ASCII case aside) and password. The cookie is then the fresh
  token and the target is the sanitized one, and the only
  session ever added is one of such a user, under the hash of the fresh token. Nothing else changes but the limiter, which has
  judged the attempt, and the audit log, which gains at most one line, of this address and outcome: users, routes, events, rollups, settings and
  the ingest queue stay as they are.\<close>

theorem login_exact:
  assumes "accounts_ok (con_store c)" "hash_token (fresh_token fr) \<notin> sess_token_hash ` set (sessions (con_store c))"
  shows "((\<exists>loc k. fst (handle_login lib fr now req c) = Inr (Redirect303 loc k))
       \<longleftrightarrow> login_admitted now req c \<and> (\<exists>u. proves lib req (con_store c) u))
    \<and> (\<forall>loc k. fst (handle_login lib fr now req c) = Inr (Redirect303 loc k)
         \<longrightarrow> loc = login_next req \<and> k = SetCookie (session_cookie (fresh_token fr))
           \<and> (\<exists>u. proves lib req (con_store c) u
               \<and> sessions (con_store (snd (handle_login lib fr now req c)))
                 = sessions (add_session (new_session fr now req (user_id u)) (con_store c))))
    \<and> ((\<forall>loc k. fst (handle_login lib fr now req c) \<noteq> Inr (Redirect303 loc k))
         \<longrightarrow> sessions (con_store (snd (handle_login lib fr now req c))) = sessions (con_store c))
    \<and> users (con_store (snd (handle_login lib fr now req c))) = users (con_store c)
    \<and> (\<exists>ss evs. snd (handle_login lib fr now req c) =
          c\<lparr>con_login := snd (allow (login_key req) now (con_login c)),
            con_store := (con_store c)\<lparr>sessions := ss, auth_events := auth_events (con_store c) @ evs\<rparr>\<rparr>
        \<and> length evs \<le> 1 \<and> list_all (\<lambda>a. aev_email a = login_email req \<and> aev_kind a \<in> {LOGIN_OK, LOGIN_FAIL}) evs)"
  using login_sessions [OF assms, of lib now req] login_frame [of req now c lib fr]
  unfolding login_touches_def by blast

text \<open>C29: the login form tells nobody which addresses have accounts. Two attempts with the same form that both
  end in a page rather than a redirect get the same page, whatever users, passwords and deactivations the
  database held, provided the rate limiter was in the same state.\<close>

theorem login_reveals_nothing:
  assumes "fst (handle_login lib fr now req c) = Inr r" "fst (handle_login lib' fr' now req (set_store st c)) = Inr r'"
    and "\<And>loc k. r \<noteq> Redirect303 loc k" "\<And>loc k. r' \<noteq> Redirect303 loc k"
  shows "r = r'"
proof -
  have page: "r = (if login_admitted now req c then login_rejected c (login_next req)
      else too_many_requests (seconds (case fst (allow (client_ip req @ ''|'' @ login_email req) now (con_login c)) of
        Inr (_, d) \<Rightarrow> d | Inl _ \<Rightarrow> 0)))"
    if "fst (handle_login lib fr now req c) = Inr r" "\<And>loc k. r \<noteq> Redirect303 loc k" for lib fr c r
    using that
    by (auto simp: handle_login_def Let_def login_email_def login_next_def login_rejected_def login_admitted_def
        dest!: redirect_with_session_resp split: sum.splits prod.splits if_splits)
  show ?thesis
    using page [OF assms(1,3)] page [OF assms(2,4)] by (simp add: login_admitted_def login_rejected_def)
qed

text \<open>A concrete installation, for the witnesses: one active user, a hasher that keeps the password as it is.\<close>

definition demo_argon :: argon where
  "demo_argon = \<lparr>argon_hash = (\<lambda>hasher salt p. p), argon_verify = (\<lambda>h p. if h = p then ArgonMatch else ArgonMismatch)\<rparr>"

definition demo_user :: User where
  "demo_user = \<lparr>user_id = 1, user_email = ''a@x'', user_password_hash = ''correct horse'', user_role = ''admin'',
     user_active = True, user_created_at = 0\<rparr>"

definition demo_console :: console where
  "demo_console = \<lparr>con_store = empty_store\<lparr>users := [demo_user]\<rparr>, con_allow_signup = False,
     con_internal_secret = [], con_data_dir = ''.'', con_login = new_limiter 10 900000000, con_signup = new_limiter 5 3600000000,
     con_batcher = None\<rparr>"

definition demo_fresh :: fresh where
  "demo_fresh = \<lparr>fresh_token_bytes = replicate 32 0, fresh_csrf_bytes = replicate 32 1, fresh_salt = []\<rparr>"

definition demo_login :: "pystr \<Rightarrow> pystr \<Rightarrow> request" where
  "demo_login email password =
     \<lparr>req_user = None, req_session = None, req_url_path = ''/login'', req_client = Some ''h'', req_headers = Map.empty,
      req_form = [''email'' \<mapsto> email, ''password'' \<mapsto> password, ''next'' \<mapsto> ''//evil''], req_query = Map.empty,
      req_path_id = 0\<rparr>"

lemma demo_store_ok: "accounts_ok (con_store demo_console)"
  by (simp add: accounts_ok_def demo_console_def demo_user_def empty_store_def session_table.keyed_Nil
      auth_event_table.keyed_Nil keyed_def)

lemma demo_emails: "normalize_email ''a@x'' = ''a@x''" "normalize_email ''b@x'' = ''b@x''"
  by code_simp+

lemma demo_fold: "ascii_fold ''a@x'' = ''a@x''" "ascii_fold ''b@x'' = ''b@x''"
  by code_simp+

theorem login_exact_witness:
  "(\<exists>loc k. fst (handle_login demo_argon demo_fresh 1800000000000000 (demo_login ''a@x'' ''correct horse'') demo_console)
      = Inr (Redirect303 loc k))
   \<and> (\<nexists>loc k. fst (handle_login demo_argon demo_fresh 1800000000000000 (demo_login ''a@x'' ''wrong'') demo_console)
      = Inr (Redirect303 loc k))"
proof -
  let ?c = "demo_console" and ?now = "1800000000000000 :: int"
  have new: "hash_token (fresh_token demo_fresh) \<notin> sess_token_hash ` set (sessions (con_store ?c))"
    by (simp add: demo_console_def empty_store_def)
  note ex = login_exact [OF demo_store_ok new, of demo_argon ?now, THEN conjunct1]
  have "login_admitted ?now (demo_login ''a@x'' p) ?c" for p
    by (simp add: login_admitted_def demo_console_def new_limiter_def allow_def hits_of_def)
  moreover have "proves demo_argon (demo_login ''a@x'' ''correct horse'') (con_store ?c) demo_user"
    by (simp add: proves_def demo_console_def demo_user_def demo_login_def demo_argon_def login_email_def param_def demo_emails)
  moreover have "\<not> proves demo_argon (demo_login ''a@x'' ''wrong'') (con_store ?c) u" for u
    by (auto simp: proves_def demo_console_def demo_user_def demo_login_def demo_argon_def param_def)
  ultimately show ?thesis using ex [of "demo_login ''a@x'' ''correct horse''"] ex [of "demo_login ''a@x'' ''wrong''"] by blast
qed

theorem login_reveals_nothing_witness:
  "fst (handle_login demo_argon demo_fresh 1800000000000000 (demo_login ''a@x'' ''wrong'') demo_console)
   = fst (handle_login demo_argon demo_fresh 1800000000000000 (demo_login ''a@x'' ''wrong'') (set_store empty_store demo_console))"
proof -
  let ?now = "1800000000000000 :: int" and ?r = "demo_login ''a@x'' ''wrong''"
  let ?p = "login_rejected demo_console (login_next ?r)"
  have a: "fst (handle_login demo_argon demo_fresh ?now ?r demo_console) = Inr ?p"
    by (simp add: handle_login_def Let_def demo_console_def new_limiter_def allow_def hits_of_def demo_login_def param_def
        demo_emails demo_user_def get_user_by_email_def verify_password_def demo_argon_def login_rejected_def login_next_def)
  obtain q where b: "fst (handle_login demo_argon demo_fresh ?now ?r (set_store empty_store demo_console)) = Inr q"
    and q: "\<And>loc k. q \<noteq> Redirect303 loc k"
    by (simp add: handle_login_def Let_def demo_console_def new_limiter_def allow_def hits_of_def demo_login_def param_def
        demo_emails demo_user_def get_user_by_email_def verify_password_def demo_argon_def login_rejected_def empty_store_def)
  have "?p = q" by (rule login_reveals_nothing [OF a b _ q]) (simp add: login_rejected_def)
  with a b show ?thesis by simp
qed

section \<open>The life of a session\<close>

lemma add_session_set:
  "set (sessions (add_session s st)) = insert (s\<lparr>sess_id := next_id sess_id (sessions st)\<rparr>) (set (sessions st))"
  by (simp add: add_session_def append_row_def)

text \<open>C9: the cookie a login hands out is the user's. After a login with a fresh token on a consistent database whose
  session times are sane, any later request bearing that cookie within seven days is attributed to a
  user who proved their password, until something else changes the database. The cookie is out of reach of
  scripts, is only sent over TLS, and its value is 43 characters that no header or query has to quote.\<close>

theorem login_then_load:
  assumes "accounts_ok (con_store c)" "list_all times_sane (sessions (con_store c))"
    and "hash_token (fresh_token fr) \<notin> sess_token_hash ` set (sessions (con_store c))" "TOKEN_BYTES \<le> length (fresh_token_bytes fr)"
    and "1099511628 * 1000000 \<le> now" "now + SESSION_ABSOLUTE_TIMEOUT < 2 ^ 31 * 1000000"
    and "handle_login lib fr now req c = (Inr (Redirect303 loc (SetCookie k)), c')"
    and "now \<le> later" "later \<le> now + SESSION_IDLE_TIMEOUT - 1000"
  shows "(\<exists>u s. proves lib req (con_store c) u \<and> fst (load_session later (Some (ck_value k)) (con_store c')) = Some (u, s)
       \<and> sess_csrf_token s = fresh_csrf fr)
    \<and> ck_name k = SESSION_COOKIE_NAME \<and> ck_httponly k \<and> ck_secure k
    \<and> length (ck_value k) = 43 \<and> list_all is_token_char (ck_value k)"
proof -
  obtain u where u: "proves lib req (con_store c) u" and k: "k = session_cookie (fresh_token fr)"
    and ss: "sessions (con_store c') = sessions (add_session (new_session fr now req (user_id u)) (con_store c))"
    and us: "users (con_store c') = users (con_store c)"
    using login_sessions [OF assms(1,3), of lib now req] assms(7) by auto
  let ?tok = "fresh_token fr"
  have shape: "length ?tok = 43 \<and> list_all is_token_char ?tok" unfolding fresh_token_def by (rule token_shape [OF assms(4)])
  let ?s = "(new_session fr now req (user_id u))\<lparr>sess_id := next_id sess_id (sessions (con_store c))\<rparr>"
  have t0: "millis now = now div 1000" by (rule millis_exact) (use assms(5,6) in \<open>auto simp: SESSION_ABSOLUTE_TIMEOUT_def\<close>)
  have t1: "millis (now + SESSION_ABSOLUTE_TIMEOUT) = (now + SESSION_ABSOLUTE_TIMEOUT) div 1000"
    by (rule millis_exact) (use assms(5,6) in \<open>auto simp: SESSION_ABSOLUTE_TIMEOUT_def\<close>)
  have d: "x div 1000 * 1000 \<le> x" "x < x div 1000 * 1000 + 1000" for x :: int by linarith+
  have v: "SESSION_ABSOLUTE_TIMEOUT = 2592000000000" "SESSION_IDLE_TIMEOUT = 604800000000"
    by (simp_all add: SESSION_ABSOLUTE_TIMEOUT_def SESSION_IDLE_TIMEOUT_def)
  have new: "times_sane ?s" "session_live later ?s"
    using assms(5,6,8,9) d [of now] d [of "now + SESSION_ABSOLUTE_TIMEOUT"] unfolding times_sane_def session_live_def
    by (simp_all add: new_session_def t0 t1) ((intro conjI)?; use v in linarith)+
  have sane: "list_all times_sane (sessions (con_store c'))"
    using assms(2) new(1) ss add_session_set by (auto simp: list_all_iff)
  have ok: "accounts_ok (con_store c')" using handle_login_ok [OF assms(1), of lib fr now req] assms(7) by simp
  have "?s \<in> set (sessions (con_store c'))" "sess_token_hash ?s = hash_token ?tok" "sess_user_id ?s = user_id u"
    by (simp_all add: ss add_session_set new_session_def)
  moreover have "u \<in> set (users (con_store c'))" "user_active u" using u us by (auto simp: proves_def)
  moreover have "sess_csrf_token ?s = fresh_csrf fr" by (simp add: new_session_def)
  ultimately show ?thesis using load_session_who [OF ok sane, of later "Some ?tok" u ?s] u new(2) shape
    by (auto simp: k session_cookie_def)
qed

theorem login_then_load_witness:
  "\<exists>u s. proves demo_argon (demo_login ''a@x'' ''correct horse'') (con_store demo_console) u
     \<and> fst (load_session 1800000100000000 (Some (fresh_token demo_fresh))
         (con_store (snd (handle_login demo_argon demo_fresh 1800000000000000 (demo_login ''a@x'' ''correct horse'') demo_console))))
       = Some (u, s) \<and> sess_csrf_token s = fresh_csrf demo_fresh"
proof -
  let ?c = "demo_console" and ?now = "1800000000000000 :: int" and ?r = "demo_login ''a@x'' ''correct horse''"
  let ?h = "handle_login demo_argon demo_fresh ?now ?r ?c"
  have new: "hash_token (fresh_token demo_fresh) \<notin> sess_token_hash ` set (sessions (con_store ?c))"
    and sane: "list_all times_sane (sessions (con_store ?c))"
    by (simp_all add: demo_console_def empty_store_def)
  have "fst ?h = Inr (Redirect303 ''/dashboard'' (SetCookie (session_cookie (fresh_token demo_fresh))))"
    by (simp add: handle_login_def Let_def demo_console_def new_limiter_def allow_def hits_of_def demo_login_def param_def
        demo_emails demo_user_def get_user_by_email_def verify_password_def demo_argon_def redirect_with_session_def
        start_session_def create_session_def empty_store_def safe_next_def)
  then have h: "?h = (Inr (Redirect303 ''/dashboard'' (SetCookie (session_cookie (fresh_token demo_fresh)))), snd ?h)" by (metis prod.collapse)
  show ?thesis
    using login_then_load [OF demo_store_ok sane new _ _ _ h, of 1800000100000000]
    by (simp add: TOKEN_BYTES_def demo_fresh_def SESSION_ABSOLUTE_TIMEOUT_def SESSION_IDLE_TIMEOUT_def session_cookie_def)
qed

text \<open>logging out ends the session. When the logout handler answers with its redirect, the request carried the
  session's CSRF token; the session's row is gone, so its cookie no longer belongs to anyone, and every
  other session is still there.\<close>

lemma logout_ends_session:
  assumes "accounts_ok (con_store c)" "s \<in> set (sessions (con_store c))" "req_session req = Some s"
    and "handle_logout now req c = (Inr (Redirect303 loc k), c')" "hash_token token = sess_token_hash s"
  shows "check_request_csrf (req_headers req) (req_form req) (Some s) = Inr True
    \<and> set (sessions (con_store c')) = set (sessions (con_store c)) - {s}
    \<and> fst (load_session later (Some token) (con_store c')) = None"
proof -
  obtain s' where g: "csrf_guard req = Inr s'"
    using csrf_guarded_redirect [OF assms(4) [unfolded handle_logout_def]] by (elim exE conjE) (rule that)
  then have s': "s' = s" "check_request_csrf (req_headers req) (req_form req) (Some s) = Inr True"
    using assms(3) by (auto simp: csrf_guard_iff)
  have ss: "sessions (con_store c') = delete_where (\<lambda>r. sess_id r = sess_id s) (sessions (con_store c))"
    using assms(4) g s' by (auto simp: handle_logout_def delete_session_def)
  have "inj_on sess_id (set (sessions (con_store c)))"
    using assms(1) session_table.keyed_distinct by (auto simp: accounts_ok_def distinct_map)
  then have set: "set (sessions (con_store c')) = set (sessions (con_store c)) - {s}"
    using assms(2) by (auto simp: ss delete_where_def inj_on_def)
  have "inj_on sess_token_hash (set (sessions (con_store c)))" using assms(1) by (simp add: accounts_ok_def distinct_map)
  then have "\<forall>r \<in> set (sessions (con_store c')). sess_token_hash r \<noteq> hash_token token"
    using assms(2,5) set by (auto simp: inj_on_def)
  then obtain e where e: "get_session_by_token_hash (hash_token token) (con_store c') = Inl e"
    using get_session_Some by (cases "get_session_by_token_hash (hash_token token) (con_store c')") fastforce+
  have "fst (load_session later (Some token) (con_store c')) = None" by (simp add: load_session_def e)
  with set s'(2) show ?thesis by blast
qed

definition demo_session :: Session where
  "demo_session = \<lparr>sess_id = 1, sess_token_hash = hash_token ''t'', sess_user_id = 1, sess_csrf_token = ''c'',
     sess_created_at = 1800000000000, sess_last_seen_at = 1800000000000, sess_expires_at = 1802592000000,
     sess_ip = ''h'', sess_user_agent = []\<rparr>"

definition demo_signed_in :: console where
  "demo_signed_in = set_store (empty_store\<lparr>users := [demo_user], sessions := [demo_session]\<rparr>) demo_console"

definition demo_request :: "(pystr \<times> pystr) list \<Rightarrow> request" where
  "demo_request form =
     \<lparr>req_user = Some demo_user, req_session = Some demo_session, req_url_path = ''/'', req_client = Some ''h'',
      req_headers = Map.empty, req_form = map_of form, req_query = Map.empty, req_path_id = 1\<rparr>"

lemma demo_signed_in_ok: "accounts_ok (con_store demo_signed_in)"
  by (simp add: accounts_ok_def demo_signed_in_def demo_user_def demo_session_def empty_store_def
      auth_event_table.keyed_Nil keyed_def)

lemma demo_csrf: "csrf_guard (demo_request ((''csrf_token'', ''c'') # form)) = Inr demo_session"
  by (simp add: csrf_guard_iff demo_request_def check_request_csrf_def Let_def CSRF_FORM_FIELD_def demo_session_def
      check_csrf_def compare_digest_str_def is_ascii_def in_range_def)


section \<open>Password reset\<close>

lemma show_nat_length: "n < 10 ^ k \<Longrightarrow> 0 < k \<Longrightarrow> length (show_nat n) \<le> k"
proof (induction n arbitrary: k rule: show_nat.induct)
  case (1 n)
  show ?case
  proof (cases "n < 10")
    case False
    obtain j where k: "k = Suc j" using "1.prems" by (cases k) auto
    with False "1.prems" have j: "0 < j" by (cases j) auto
    have "n div 10 < 10 ^ j" using "1.prems" k by (simp add: less_mult_imp_div_less)
    with "1.IH" [OF False, of j] k j False show ?thesis by (subst show_nat.simps) simp
  qed (use "1.prems" in \<open>simp add: show_nat.simps\<close>)
qed

lemma py_int_millis: "0 \<le> n \<Longrightarrow> n < 10 ^ 15 \<Longrightarrow> py_int (show_int n) = Inr n"
proof -
  assume n: "0 \<le> n" "n < 10 ^ 15"
  then have "nat n < 10 ^ 15" by (simp add: nat_less_iff)
  then have "length (show_nat (nat n)) \<le> 15" by (rule show_nat_length) simp
  with n show ?thesis by (intro py_int_show_int) (simp add: show_int_def max_str_digits_def)
qed

lemma show_int_inj: "show_int i = show_int j \<longleftrightarrow> i = j"
proof -
  have "show_nat n \<noteq> CHR ''-'' # t" for n t
    using show_nat_digits [of n] by (cases "show_nat n") (auto simp: is_digit_def in_range_def)
  then have "show_nat n \<noteq> CHR ''-'' # t" "CHR ''-'' # t \<noteq> show_nat n" for n t by metis+
  then show ?thesis using show_nat_inj by (auto simp: show_int_def nat_eq_iff2 split: if_splits)
qed

lemma hex_no_colon: "CHR '':'' \<notin> set (hex_encode b)"
proof -
  have "hex_digit n \<noteq> CHR '':''" if "n < 16" for n
  proof -
    have "\<forall>n \<in> set [0 ..< 16]. hex_digit n \<noteq> CHR '':''" by code_simp
    with that show ?thesis by auto
  qed
  then show ?thesis by (auto simp: hex_encode_def hex_byte_def dest!: sym [of "CHR '':''"])
qed

lemma clock_millis:
  assumes "1099511628 * 1000000 \<le> us" "us < 2 ^ 31 * 1000000"
  shows "of_int n < rnd (seconds us * 1000) \<longleftrightarrow> (if rnd (seconds us * 1000) = of_int (us div 1000) then n < us div 1000 else n \<le> us div 1000)"
proof -
  define x where "x = rnd (seconds us * 1000)"
  have m: "int_of_float x = us div 1000" using millis_exact [OF assms] by (simp add: millis_def x_def)
  have "0 < us div 1000" using assms(1) by simp
  have "\<not> x < 0"
  proof
    assume "x < 0"
    then have "0 \<le> \<lfloor>- x\<rfloor>" by simp
    with m \<open>x < 0\<close> \<open>0 < us div 1000\<close> show False by (simp add: int_of_float_def)
  qed
  with m have f: "\<lfloor>x\<rfloor> = us div 1000" by (simp add: int_of_float_def)
  show ?thesis unfolding x_def [symmetric] using f by (auto simp: floor_eq_iff; linarith)
qed

text \<open>C24: a reset link works once, for its user, for an hour. The operator's command prints a token; presented
  before the hour is over (to the millisecond) it is accepted, and only it, up to a SHA-256 collision; from a
  millisecond after the hour on, nothing is accepted. After an accepted token no token is, and the tokens
  of other users are untouched.\<close>

theorem reset_token_life:
  assumes "cli_reset_password fr now email st = (Inr (token, uid), st')"
    and "1099511628 * 1000000 \<le> now" "now + RESET_TOKEN_TTL + 1000 < 2 ^ 31 * 1000000" "now \<le> later" "later < 2 ^ 31 * 1000000"
  shows "(later \<le> now + RESET_TOKEN_TTL - 1000 \<longrightarrow>
      (fst (consume_reset_token later uid token' st') \<longleftrightarrow> hash_token token' = hash_token token))
    \<and> (now + RESET_TOKEN_TTL + 1000 \<le> later \<longrightarrow> \<not> fst (consume_reset_token later uid token' st'))
    \<and> (fst (consume_reset_token later uid token' st') \<longrightarrow>
        \<not> fst (consume_reset_token later' uid token'' (snd (consume_reset_token later uid token' st'))))
    \<and> (uid' \<noteq> uid \<longrightarrow> settings (snd (consume_reset_token later uid token' st')) (reset_key uid') = settings st (reset_key uid'))"
proof -
  let ?e = "(now + RESET_TOKEN_TTL) div 1000"
  have v: "RESET_TOKEN_TTL = 3600000000" by (simp add: RESET_TOKEN_TTL_def)
  have m: "millis (now + RESET_TOKEN_TTL) = ?e" using assms(2,3) v by (intro millis_exact) simp_all
  have st': "st' = set_setting (reset_key uid) (hex_encode (hash_token token) @ '':'' @ show_int ?e) st"
    using assms(1) m by (auto simp: cli_reset_password_def split: sum.splits)
  have p: "py_int (show_int ?e) = Inr ?e" using assms(2,3) v by (intro py_int_millis) simp_all
  have h: "py_fromhex (hex_encode b) = Some b" for b using lower_hex_decodes [OF py_lower_hex_encode] by blast
  have split: "partition_ch (CHR '':'') (hex_encode b @ '':'' @ s) = (hex_encode b, True, s)" for b s
    using partition_ch_append [OF hex_no_colon] by simp
  have c: "consume_reset_token later uid token' st' =
      (if of_int ?e < rnd (seconds later * 1000) then (False, delete_setting (reset_key uid) st')
       else if hash_token token' \<noteq> hash_token token then (False, st') else (True, delete_setting (reset_key uid) st'))"
    by (simp add: consume_reset_token_def st' get_setting_def set_setting_def split [simplified] h p compare_digest_def)
  have early: "later \<le> now + RESET_TOKEN_TTL - 1000 \<Longrightarrow> \<not> of_int ?e < rnd (seconds later * 1000)"
    using clock_millis [of later ?e] assms(2,4,5) by (auto split: if_splits)
  have late: "now + RESET_TOKEN_TTL + 1000 \<le> later \<Longrightarrow> of_int ?e < rnd (seconds later * 1000)"
    using clock_millis [of later ?e] assms(2,4,5) by (auto split: if_splits)
  have key: "reset_key uid' = reset_key uid \<longleftrightarrow> uid' = uid" by (simp add: reset_key_def show_int_inj)
  have used: "\<not> fst (consume_reset_token later' uid token'' (delete_setting (reset_key uid) st'))"
    by (simp add: consume_reset_token_def get_setting_def delete_setting_def)
  have other: "uid' \<noteq> uid \<Longrightarrow> settings st' (reset_key uid') = settings st (reset_key uid')"
    by (simp add: st' set_setting_def key)
  show ?thesis
    unfolding c using early late used other by (auto simp: delete_setting_def key)
qed

theorem reset_token_life_witness:
  "fst (consume_reset_token 1800000100000000 1 (fresh_token demo_fresh) (snd (cli_reset_password demo_fresh 1800000000000000 '' A@x'' (con_store demo_console))))
   \<and> \<not> fst (consume_reset_token 1800003700000000 1 (fresh_token demo_fresh) (snd (cli_reset_password demo_fresh 1800000000000000 '' A@x'' (con_store demo_console))))"
proof -
  have n: "py_lower (py_strip '' A@x'') = ''a@x''" by code_simp
  have c: "cli_reset_password demo_fresh 1800000000000000 '' A@x'' (con_store demo_console)
      = (Inr (fresh_token demo_fresh, 1), snd (cli_reset_password demo_fresh 1800000000000000 '' A@x'' (con_store demo_console)))"
    by (simp add: cli_reset_password_def n get_user_by_email_def demo_console_def demo_user_def)
  show ?thesis
    using reset_token_life [OF c, of 1800000100000000 "fresh_token demo_fresh"] reset_token_life [OF c, of 1800003700000000 "fresh_token demo_fresh"]
    by (simp add: RESET_TOKEN_TTL_def)
qed

definition reset_uid :: "request \<Rightarrow> int py" where
  "reset_uid req = py_int (param (req_form req) ''uid'' [])"

definition new_password :: "request \<Rightarrow> pystr" where
  "new_password req = param (req_form req) ''password'' []"

text \<open>What a completed password reset does. When the handler redirects, the form carried a token accepted for
  that user and a password that meets the policy, typed twice; the user's stored hash is that of the new
  password, every session of the user is gone (row ids start at 1), the token is burnt, and no other user
  and no session of another user has changed. Without the redirect no user and no session changes.\<close>

theorem reset_password_effect:
  "(if \<exists>loc k. fst (handle_reset_password lib fr now req c) = Inr (Redirect303 loc k)
    then \<exists>n. reset_uid req = Inr n
       \<and> fst (consume_reset_token now n (param (req_form req) ''token'' []) (con_store c))
       \<and> param (req_form req) ''password_confirm'' [] = new_password req
       \<and> 12 \<le> length (new_password req) \<and> length (new_password req) \<le> 128
       \<and> users (con_store (snd (handle_reset_password lib fr now req c)))
         = map (\<lambda>u. if user_id u = n
            then u\<lparr>user_password_hash := hash_password lib (fresh_salt fr) (new_password req)\<rparr> else u) (users (con_store c))
       \<and> sessions (con_store (snd (handle_reset_password lib fr now req c)))
         = filter (\<lambda>s. sess_user_id s \<noteq> n \<or> sess_id s = 0) (sessions (con_store c))
       \<and> settings (con_store (snd (handle_reset_password lib fr now req c))) = (settings (con_store c))(reset_key n := None)
    else users (con_store (snd (handle_reset_password lib fr now req c))) = users (con_store c)
       \<and> sessions (con_store (snd (handle_reset_password lib fr now req c))) = sessions (con_store c))"
proof (cases "reset_uid req")
  case (Inl e)
  then show ?thesis by (simp add: reset_uid_def handle_reset_password_def reset_rejected_def)
next
  case (Inr n)
  let ?h = "handle_reset_password lib fr now req c" and ?t = "param (req_form req) ''token'' []"
  obtain ok st1 where c: "consume_reset_token now n ?t (con_store c) = (ok, st1)"
    by (cases "consume_reset_token now n ?t (con_store c)")
  have st1: "users st1 = users (con_store c)" "sessions st1 = sessions (con_store c)"
    "ok \<Longrightarrow> settings st1 = (settings (con_store c))(reset_key n := None)"
    using c by (auto simp: consume_reset_token_def delete_setting_def split: sum.splits option.splits prod.splits if_splits)
  let ?good = "ok \<and> param (req_form req) ''password_confirm'' [] = new_password req \<and> validate_password (new_password req) = Inr ()"
  let ?st = "record_event now PASSWORD_CHANGE [] (client_ip req) (Some n) (snd (delete_sessions_for_user_except n 0
      (update_password_hash n (hash_password lib (fresh_salt fr) (new_password req)) st1)))"
  show ?thesis
  proof (cases ?good)
    case True
    then have "?h = (Inr (Redirect303 ''/login'' KeepCookie), set_store ?st c)"
      using Inr c by (simp add: handle_reset_password_def reset_uid_def new_password_def)
    with True st1 c Inr show ?thesis
      by (simp add: validate_password_iff update_password_hash_def delete_sessions_for_user_except_def
          update_where_def delete_where_def)
  next
    case False
    then have "\<nexists>loc k. fst ?h = Inr (Redirect303 loc k)" "con_store (snd ?h) = st1"
      using Inr c by (auto simp: handle_reset_password_def reset_uid_def new_password_def reset_rejected_def Let_def
        split: sum.splits)
    with st1 show ?thesis by simp
  qed
qed

section \<open>Signup\<close>

definition signup_admitted :: "usec \<Rightarrow> request \<Rightarrow> console \<Rightarrow> bool" where
  "signup_admitted now req c \<longleftrightarrow> con_allow_signup c \<and> (\<exists>d. fst (allow (client_ip req) now (con_signup c)) = Inr (True, d))"

definition signup_form_ok :: "request \<Rightarrow> bool" where
  "signup_form_ok req \<longleftrightarrow> login_email req \<noteq> [] \<and> param (req_form req) ''password_confirm'' [] = new_password req
     \<and> 12 \<le> length (new_password req) \<and> length (new_password req) \<le> 128"

text \<open>The row a signup adds.\<close>

definition signup_user :: "argon \<Rightarrow> fresh \<Rightarrow> usec \<Rightarrow> request \<Rightarrow> store \<Rightarrow> User" where
  "signup_user lib fr now req st =
     \<lparr>user_id = next_id user_id (users st), user_email = login_email req,
      user_password_hash = hash_password lib (fresh_salt fr) (new_password req),
      user_role = (if users st = [] then ''admin'' else ''member''), user_active = True, user_created_at = millis now\<rparr>"

lemma signup_adds:
  assumes "signup_admitted now req c" "signup_form_ok req" "accounts_ok (con_store c)"
    "ascii_fold (login_email req) \<notin> (\<lambda>u. ascii_fold (user_email u)) ` set (users (con_store c))"
  shows "users (con_store (snd (handle_signup lib fr now req c)))
    = users (con_store c) @ [signup_user lib fr now req (con_store c)]"
proof -
  obtain d lm where a: "con_allow_signup c" "allow (client_ip req) now (con_signup c) = (Inr (True, d), lm)"
    using assms(1) by (auto simp: signup_admitted_def) (metis prod.collapse)
  have form: "normalize_email (param (req_form req) ''email'' []) = login_email req" "login_email req \<noteq> []"
    "param (req_form req) ''password_confirm'' [] = new_password req" "param (req_form req) ''password'' [] = new_password req"
    "validate_password (new_password req) = Inr ()"
    using assms(2) by (auto simp: signup_form_ok_def login_email_def new_password_def validate_password_iff)
  obtain e where e: "get_user_by_email (login_email req) (con_store c) = Inl e"
    using get_user_by_email_iff [OF assms(3), of "login_email req"] assms(4)
    by (cases "get_user_by_email (login_email req) (con_store c)") (auto, metis imageI)
  have free: "\<not> (\<exists>u \<in> set (users (con_store c)). ascii_fold (user_email u) = ascii_fold (login_email req))"
    using assms(4) by (metis (no_types, lifting) imageI)
  have n: "count_users (con_store c) = 0 \<longleftrightarrow> users (con_store c) = []" by (simp add: count_users_def)
  have "\<exists>st. create_user (login_email req) (hash_password lib (fresh_salt fr) (new_password req))
      (if count_users (con_store c) = 0 then ''admin'' else ''member'') (millis now) (con_store c)
        = Inr (next_id user_id (users (con_store c)), st)
      \<and> users st = users (con_store c) @ [signup_user lib fr now req (con_store c)]"
    using free by (simp add: create_user_def n signup_user_def append_row_def Let_def)
  then obtain st where "create_user (login_email req) (hash_password lib (fresh_salt fr) (new_password req))
      (if count_users (con_store c) = 0 then ''admin'' else ''member'') (millis now) (con_store c)
        = Inr (next_id user_id (users (con_store c)), st)"
    "users st = users (con_store c) @ [signup_user lib fr now req (con_store c)]" by blast
  with a assms(2) form e show ?thesis by (simp add: handle_signup_def Let_def)
qed

text \<open>C27: who can sign up, and as what. An account is added exactly when signup is open, the limiter admits the
  request, the form is complete with a password within the policy, and the address (ASCII case aside) is
  not taken. The new account is an active one with the normalized address; it is an administrator only
  when there was no account at all, else a member. Existing accounts never change.\<close>

theorem signup_exact:
  assumes "accounts_ok (con_store c)"
  shows "users (con_store (snd (handle_signup lib fr now req c))) =
    (if signup_admitted now req c \<and> signup_form_ok req
        \<and> ascii_fold (login_email req) \<notin> (\<lambda>u. ascii_fold (user_email u)) ` set (users (con_store c))
     then users (con_store c) @ [signup_user lib fr now req (con_store c)] else users (con_store c))"
proof (cases "signup_admitted now req c")
  case False
  then show ?thesis
    by (cases "allow (client_ip req) now (con_signup c)"; cases "fst (allow (client_ip req) now (con_signup c))")
       (auto simp: handle_signup_def Let_def signup_admitted_def)
next
  case True
  then obtain d lm where a: "con_allow_signup c" "allow (client_ip req) now (con_signup c) = (Inr (True, d), lm)"
    by (auto simp: signup_admitted_def) (metis prod.collapse)
  show ?thesis
  proof (cases "signup_form_ok req")
    case False
    with a True show ?thesis
      by (auto simp: handle_signup_def signup_form_ok_def login_email_def new_password_def validate_password_iff [symmetric]
          Let_def split: sum.split)
  next
    case form: True
    then have form': "normalize_email (param (req_form req) ''email'' []) = login_email req" "login_email req \<noteq> []"
      "param (req_form req) ''password_confirm'' [] = new_password req" "param (req_form req) ''password'' [] = new_password req"
      "validate_password (new_password req) = Inr ()"
      by (auto simp: signup_form_ok_def login_email_def new_password_def validate_password_iff)
    show ?thesis
    proof (cases "ascii_fold (login_email req) \<in> (\<lambda>u. ascii_fold (user_email u)) ` set (users (con_store c))")
      case taken: True
      then obtain u where "get_user_by_email (login_email req) (con_store c) = Inr u"
        using get_user_by_email_iff [OF assms, of "login_email req"] by (metis imageE)
      with a True form form' taken show ?thesis by (simp add: handle_signup_def)
    next
      case False
      with signup_adds [OF True form assms False] True form show ?thesis by simp
    qed
  qed
qed

definition demo_signup :: request where
  "demo_signup = demo_request [(''email'', '' B@x ''), (''password'', ''correct horse''), (''password_confirm'', ''correct horse'')]"

theorem signup_exact_witness:
  "map user_role (users (con_store (snd (handle_signup demo_argon demo_fresh 1800000000000000 demo_signup
     (demo_console\<lparr>con_allow_signup := True\<rparr>))))) = [''admin'', ''member'']"
proof -
  let ?c = "demo_console\<lparr>con_allow_signup := True\<rparr>"
  have e: "normalize_email '' B@x '' = ''b@x''" by code_simp
  have ok: "accounts_ok (con_store ?c)" using demo_store_ok by simp
  have "signup_admitted 1800000000000000 demo_signup ?c" "signup_form_ok demo_signup" "login_email demo_signup = ''b@x''"
    by (simp_all add: signup_admitted_def demo_console_def new_limiter_def allow_def hits_of_def signup_form_ok_def
        login_email_def demo_signup_def demo_request_def param_def new_password_def e)
  then show ?thesis
    using signup_exact [OF ok, of demo_argon demo_fresh 1800000000000000 demo_signup]
    by (simp add: demo_fold demo_console_def demo_user_def signup_user_def)
qed

end
