(* ===== verification/SettingsRoutes.thy ===== *)
theory SettingsRoutes
  imports AuthRoutes
begin

text \<open>
  \<open>routes/settings.py\<close>: the settings page, the password change, the revocation of sessions, the
  retention setting and the administration of users. Every handler runs its guards in the code's order:
  who is signed in, then the CSRF token. The page is computed from the database after the action.
\<close>

definition AUTH_LOG_LIMIT :: nat where
  "AUTH_LOG_LIMIT = 50"

section \<open>The page\<close>

definition session_row :: "Session \<Rightarrow> SessionRow py" where
  "session_row s =
     py_bind (format_timestamp_ms (sess_created_at s)) (\<lambda>created.
     py_bind (format_timestamp_ms (sess_last_seen_at s)) (\<lambda>seen.
     Inr \<lparr>srow_id = sess_id s, srow_created_at = created, srow_last_seen_at = seen, srow_ip = sess_ip s,
          srow_user_agent = sess_user_agent s\<rparr>))"

definition user_row :: "User \<Rightarrow> UserRow py" where
  "user_row u =
     py_bind (format_timestamp_ms (user_created_at u)) (\<lambda>created.
     Inr \<lparr>urow_id = user_id u, urow_email = user_email u, urow_role = user_role u, urow_active = user_active u,
          urow_created_at = created\<rparr>)"

definition auth_event_row :: "AuthEvent \<Rightarrow> AuthEventRow py" where
  "auth_event_row e =
     py_bind (format_timestamp_ms (aev_at e)) (\<lambda>time.
     Inr \<lparr>arow_at = time, arow_kind = aev_kind e, arow_email = aev_email e, arow_ip = aev_ip e\<rparr>)"

definition settings_context :: "request \<Rightarrow> User \<Rightarrow> console \<Rightarrow> ctx \<Rightarrow> ctx py" where
  "settings_context req user c messages =
     py_bind (py_map session_row (list_sessions_for_user (user_id user) (con_store c))) (\<lambda>sessions.
     py_bind (py_map auth_event_row (list_auth_events AUTH_LOG_LIMIT (con_store c))) (\<lambda>events.
     py_bind (if user_role user = ''admin'' then py_map user_row (list_users (con_store c)) else Inr []) (\<lambda>users.
     Inr ((''users'', CUsers users) # messages @
       [(''sessions'', CSessions sessions),
        (''current_session_id'', CInt (case req_session req of None \<Rightarrow> 0 | Some s \<Rightarrow> sess_id s)),
        (''retention_days'', CInt (get_retention_days (con_store c))),
        (''data_dir'', CStr (con_data_dir c)),
        (''auth_events'', CAuthEvents events)]))))"

definition render_settings :: "usec \<Rightarrow> request \<Rightarrow> User \<Rightarrow> ctx \<Rightarrow> console \<Rightarrow> outcome" where
  "render_settings now req user messages c =
     (render_page ''settings.html'' 200
        (py_bind (settings_context req user c messages) (page_context req (con_store c) now ''settings'')), c)"

definition handle_settings :: "usec \<Rightarrow> request \<Rightarrow> console \<Rightarrow> outcome" where
  "handle_settings now req = guarded (auth_guard req) req (\<lambda>user. render_settings now req user [])"

section \<open>Actions\<close>

definition handle_password_change :: "argon \<Rightarrow> fresh \<Rightarrow> usec \<Rightarrow> request \<Rightarrow> console \<Rightarrow> outcome" where
  "handle_password_change lib fr now req =
     guarded (auth_guard req) req (\<lambda>user. guarded (csrf_guard req) req (\<lambda>session c.
       let current = param (req_form req) ''current_password'' [];
           new = param (req_form req) ''new_password'' [];
           confirm = param (req_form req) ''new_password_confirm'' [];
           refuse = (\<lambda>m. render_settings now req user [(''password_error'', CStr m)] c) in
       case verify_password lib current (user_password_hash user) of
         Inl e \<Rightarrow> (Inl e, c)
       | Inr ok \<Rightarrow>
           if \<not> ok then refuse ''Current password is incorrect.''
           else if new \<noteq> confirm then refuse ''New passwords do not match.''
           else case validate_password new of
             Inl e \<Rightarrow> refuse (exn_message e)
           | Inr _ \<Rightarrow>
               render_settings now req user [(''password_ok'', CStr ''Password changed. Other sessions were signed out.'')]
                 (set_store
                   (record_event now PASSWORD_CHANGE (user_email user) (client_ip req) (Some (user_id user))
                     (snd (delete_sessions_for_user_except (user_id user) (sess_id session)
                       (update_password_hash (user_id user) (hash_password lib (fresh_salt fr) new) (con_store c))))) c)))"

definition to_settings :: "store \<Rightarrow> console \<Rightarrow> outcome" where
  "to_settings st c = (Inr (Redirect303 ''/dashboard/settings'' KeepCookie), set_store st c)"

text \<open>The path parameter is an \<open>int\<close> already (the router's \<open>:int\<close> convertor), so \<open>int\<close> of it cannot
  fail.\<close>

definition handle_session_revoke :: "usec \<Rightarrow> request \<Rightarrow> console \<Rightarrow> outcome" where
  "handle_session_revoke now req =
     guarded (auth_guard req) req (\<lambda>user. guarded (csrf_guard req) req (\<lambda>_ c.
       let target = req_path_id req in
       if list_ex (\<lambda>s. sess_id s = target) (list_sessions_for_user (user_id user) (con_store c))
       then to_settings (record_event now SESSION_REVOKE (user_email user) (client_ip req) (Some (user_id user))
              (delete_session target (con_store c))) c
       else to_settings (con_store c) c))"

definition handle_session_revoke_others :: "usec \<Rightarrow> request \<Rightarrow> console \<Rightarrow> outcome" where
  "handle_session_revoke_others now req =
     guarded (auth_guard req) req (\<lambda>user. guarded (csrf_guard req) req (\<lambda>session c.
       to_settings (record_event now SESSION_REVOKE (user_email user) (client_ip req) (Some (user_id user))
         (snd (delete_sessions_for_user_except (user_id user) (sess_id session) (con_store c)))) c))"

definition handle_retention_change :: "usec \<Rightarrow> request \<Rightarrow> console \<Rightarrow> outcome" where
  "handle_retention_change now req =
     guarded (auth_guard req) req (\<lambda>user. guarded (csrf_guard req) req (\<lambda>_ c.
       let refuse = (\<lambda>m. render_settings now req user [(''retention_error'', CStr m)] c) in
       case py_int (param (req_form req) ''retention_days'' []) of
         Inl _ \<Rightarrow> refuse ''Retention must be a whole number of days.''
       | Inr days \<Rightarrow>
           if days < 1 then refuse ''Retention must be at least one day.''
           else render_settings now req user [] (set_store (set_retention_days days (con_store c)) c)))"

definition handle_user_create :: "argon \<Rightarrow> fresh \<Rightarrow> usec \<Rightarrow> request \<Rightarrow> console \<Rightarrow> outcome" where
  "handle_user_create lib fr now req =
     guarded (admin_guard req) req (\<lambda>admin. guarded (csrf_guard req) req (\<lambda>_ c.
       let email = normalize_email (param (req_form req) ''email'' []);
           password = param (req_form req) ''password'' [];
           role = param (req_form req) ''role'' ''member'';
           refuse = (\<lambda>m. render_settings now req admin [(''user_error'', CStr m)] c) in
       if email = [] then refuse ''Email is required.''
       else if role \<noteq> ''admin'' \<and> role \<noteq> ''member'' then refuse ''Unknown role.''
       else case validate_password password of
         Inl e \<Rightarrow> refuse (exn_message e)
       | Inr _ \<Rightarrow>
           case create_user email (hash_password lib (fresh_salt fr) password) role (millis now) (con_store c) of
             Inl (IntegrityErr _) \<Rightarrow> refuse ''A user with that email already exists.''
           | Inl e \<Rightarrow> (Inl e, c)
           | Inr (uid, st) \<Rightarrow> to_settings (record_event now USER_CREATE email (client_ip req) (Some uid) st) c))"

definition handle_user_deactivate :: "usec \<Rightarrow> request \<Rightarrow> console \<Rightarrow> outcome" where
  "handle_user_deactivate now req =
     guarded (admin_guard req) req (\<lambda>admin. guarded (csrf_guard req) req (\<lambda>_ c.
       let target_id = req_path_id req in
       case get_user_by_id target_id (con_store c) of
         Inl _ \<Rightarrow> to_settings (con_store c) c
       | Inr target \<Rightarrow>
           if target_id = user_id admin
           then render_settings now req admin [(''user_error'', CStr ''You cannot deactivate your own account.'')] c
           else to_settings (set_user_active target_id (\<not> user_active target) (con_store c)) c))"

section \<open>Facts\<close>

lemma render_settings_snd [simp]: "snd (render_settings now req user messages c) = c"
  by (simp add: render_settings_def)

lemma to_settings_snd [simp]: "snd (to_settings st c) = set_store st c"
  by (simp add: to_settings_def)

lemma handle_settings_snd [simp]: "snd (handle_settings now req c) = c"
  by (auto simp: handle_settings_def guarded_def split: sum.split)

lemma user_neq_simps [simp]: "users (snd (delete_sessions_for_user_except u k st)) = users st"
  "users (delete_session n st) = users st" "users (set_setting k' v st) = users st"
  by (simp_all add: delete_sessions_for_user_except_def delete_session_def set_setting_def)

lemma guarded_accounts:
  "accounts_ok (con_store c) \<Longrightarrow> (\<And>x. accounts_ok (con_store c) \<Longrightarrow> accounts_ok (con_store (snd (body x c))))
    \<Longrightarrow> accounts_ok (con_store (snd (guarded g req body c)))"
  by (cases g) simp_all

lemmas store_keeps = record_event_ok session_deletes_ok settings_ok update_password_hash_ok set_user_active_ok

lemma handle_password_change_ok [inv_intros]:
  "accounts_ok (con_store c) \<Longrightarrow> accounts_ok (con_store (snd (handle_password_change lib fr now req c)))"
  unfolding handle_password_change_def
  by (intro guarded_accounts) (simp_all add: Let_def store_keeps split: sum.split)

lemma handle_session_revoke_ok [inv_intros]:
  "accounts_ok (con_store c) \<Longrightarrow> accounts_ok (con_store (snd (handle_session_revoke now req c)))"
  unfolding handle_session_revoke_def
  by (intro guarded_accounts) (simp_all add: Let_def store_keeps)

lemma handle_session_revoke_others_ok [inv_intros]:
  "accounts_ok (con_store c) \<Longrightarrow> accounts_ok (con_store (snd (handle_session_revoke_others now req c)))"
  unfolding handle_session_revoke_others_def
  by (intro guarded_accounts) (simp_all add: store_keeps)

lemma handle_retention_change_ok [inv_intros]:
  "accounts_ok (con_store c) \<Longrightarrow> accounts_ok (con_store (snd (handle_retention_change now req c)))"
  unfolding handle_retention_change_def
  by (intro guarded_accounts) (simp_all add: Let_def set_retention_days_def store_keeps split: sum.split)

lemma handle_user_create_ok [inv_intros]:
  "accounts_ok (con_store c) \<Longrightarrow> accounts_ok (con_store (snd (handle_user_create lib fr now req c)))"
  unfolding handle_user_create_def
  by (intro guarded_accounts)
     (auto simp: Let_def intro: record_event_ok create_user_ok split: sum.split pyexn.split)

lemma handle_user_deactivate_ok [inv_intros]:
  "accounts_ok (con_store c) \<Longrightarrow> accounts_ok (con_store (snd (handle_user_deactivate now req c)))"
  unfolding handle_user_deactivate_def
  by (intro guarded_accounts) (simp_all add: Let_def store_keeps split: sum.split)

section \<open>Changing a password\<close>

definition change_allowed :: "argon \<Rightarrow> request \<Rightarrow> User \<Rightarrow> bool" where
  "change_allowed lib req user \<longleftrightarrow> (\<exists>s. csrf_guard req = Inr s)
     \<and> argon_verify lib (user_password_hash user) (param (req_form req) ''current_password'' []) = ArgonMatch
     \<and> param (req_form req) ''new_password_confirm'' [] = param (req_form req) ''new_password'' []
     \<and> 12 \<le> length (param (req_form req) ''new_password'' []) \<and> length (param (req_form req) ''new_password'' []) \<le> 128"

text \<open>C25: what changing a password does. For a signed-in user, the stored hash changes exactly when the request
  carries the session's CSRF token and the current password, and a new password within the policy, typed
  twice; then it becomes the new password's hash, every other session of the user is signed out and the
  one in use is kept. No other user's account or session is touched.\<close>

theorem password_change_exact:
  assumes "req_user req = Some user" "req_session req = Some session"
  shows "users (con_store (snd (handle_password_change lib fr now req c))) =
      (if change_allowed lib req user
       then map (\<lambda>u. if user_id u = user_id user
          then u\<lparr>user_password_hash := hash_password lib (fresh_salt fr) (param (req_form req) ''new_password'' [])\<rparr> else u)
          (users (con_store c))
       else users (con_store c))
    \<and> sessions (con_store (snd (handle_password_change lib fr now req c))) =
      (if change_allowed lib req user
       then filter (\<lambda>s. sess_user_id s \<noteq> user_id user \<or> sess_id s = sess_id session) (sessions (con_store c))
       else sessions (con_store c))"
proof (cases "csrf_guard req")
  case (Inl stop)
  then show ?thesis using assms by (simp add: handle_password_change_def auth_guard_def require_auth_def change_allowed_def)
next
  case (Inr s)
  then have s: "s = session" using assms(2) by (simp add: csrf_guard_iff)
  let ?v = "verify_password lib (param (req_form req) ''current_password'' []) (user_password_hash user)"
  have allowed: "change_allowed lib req user \<longleftrightarrow> ?v = Inr True
      \<and> param (req_form req) ''new_password_confirm'' [] = param (req_form req) ''new_password'' []
      \<and> validate_password (param (req_form req) ''new_password'' []) = Inr ()"
    using Inr by (simp add: change_allowed_def verify_password_True validate_password_iff)
  have auth: "auth_guard req = Inr user" using assms(1) by (simp add: auth_guard_iff)
  show ?thesis
  proof (cases "change_allowed lib req user")
    case True
    then show ?thesis
      using Inr s auth allowed
      by (simp add: handle_password_change_def update_password_hash_def delete_sessions_for_user_except_def
          update_where_def delete_where_def)
  next
    case False
    have no: "\<not> (?v = Inr b \<and> b \<and> param (req_form req) ''new_password'' [] = param (req_form req) ''new_password_confirm'' []
        \<and> validate_password (param (req_form req) ''new_password'' []) = Inr x)" for b x
      using False allowed by (cases b) auto
    have "snd (handle_password_change lib fr now req c) = c"
      using Inr auth no by (auto simp: handle_password_change_def Let_def split: sum.split)
    with False show ?thesis by simp
  qed
qed

lemma demo_auth: "auth_guard (demo_request form) = Inr demo_user" "req_user (demo_request form) = Some demo_user"
  "req_session (demo_request form) = Some demo_session"
  by (simp_all add: auth_guard_iff demo_request_def)

definition demo_change :: request where
  "demo_change = demo_request [(''csrf_token'', ''c''), (''current_password'', ''correct horse''),
     (''new_password'', ''battery staple''), (''new_password_confirm'', ''battery staple'')]"

theorem password_change_exact_witness:
  "map user_password_hash (users (con_store (snd (handle_password_change demo_argon demo_fresh 1800000000000000 demo_change
     demo_signed_in)))) = [''battery staple'']"
proof -
  have "change_allowed demo_argon demo_change demo_user"
    by (simp add: change_allowed_def demo_change_def demo_csrf)
       (simp add: demo_argon_def demo_user_def demo_request_def param_def)
  moreover have "req_user demo_change = Some demo_user" "req_session demo_change = Some demo_session"
    by (simp_all add: demo_change_def demo_request_def)
  ultimately show ?thesis
    using password_change_exact [of demo_change demo_user demo_session demo_argon demo_fresh 1800000000000000 demo_signed_in]
    by (simp add: demo_signed_in_def demo_user_def demo_change_def demo_request_def param_def hash_password_def demo_argon_def)
qed

section \<open>Revoking sessions\<close>

definition user_sessions :: "int \<Rightarrow> store \<Rightarrow> Session list" where
  "user_sessions uid st = filter (\<lambda>s. sess_user_id s = uid) (sessions st)"

lemma revoke_sessions:
  assumes "accounts_ok (con_store c)" "req_user req = Some user"
  shows "sessions (con_store (snd (handle_session_revoke now req c))) =
    (if \<exists>s. csrf_guard req = Inr s
     then filter (\<lambda>s. sess_user_id s \<noteq> user_id user \<or> sess_id s \<noteq> req_path_id req) (sessions (con_store c))
     else sessions (con_store c))"
proof (cases "csrf_guard req")
  case (Inl stop)
  then show ?thesis using assms(2) by (simp add: handle_session_revoke_def auth_guard_def require_auth_def)
next
  case (Inr s)
  have auth: "auth_guard req = Inr user" using assms(2) by (simp add: auth_guard_iff)
  let ?mine = "list_ex (\<lambda>s. sess_id s = req_path_id req) (list_sessions_for_user (user_id user) (con_store c))"
  have inj: "inj_on sess_id (set (sessions (con_store c)))"
    using assms(1) session_table.keyed_distinct by (auto simp: accounts_ok_def distinct_map)
  have mine: "?mine \<longleftrightarrow> (\<exists>s \<in> set (sessions (con_store c)). sess_user_id s = user_id user \<and> sess_id s = req_path_id req)"
    by (auto simp: list_ex_iff list_sessions_for_user_def)
  have h: "sessions (con_store (snd (handle_session_revoke now req c))) =
      (if ?mine then filter (\<lambda>s. sess_id s \<noteq> req_path_id req) (sessions (con_store c)) else sessions (con_store c))"
    using Inr auth by (simp add: handle_session_revoke_def Let_def delete_session_def delete_where_def)
  show ?thesis
  proof (cases ?mine)
    case True
    then have "\<forall>s \<in> set (sessions (con_store c)). sess_id s = req_path_id req \<longrightarrow> sess_user_id s = user_id user"
      using inj mine by (auto simp: inj_on_def)
    with True h Inr show ?thesis by (auto intro: filter_cong)
  next
    case False
    then have "filter (\<lambda>s. sess_user_id s \<noteq> user_id user \<or> sess_id s \<noteq> req_path_id req) (sessions (con_store c)) = sessions (con_store c)"
      using mine by (auto intro: filter_True)
    with False h Inr show ?thesis by simp
  qed
qed

lemma csrf_guard_session: "csrf_guard req = Inr s \<Longrightarrow> req_session req = Some s"
  by (auto simp: csrf_guard_def require_csrf_def check_request_csrf_def check_csrf_def split: sum.splits if_splits option.splits)

lemma revoke_others_sessions:
  assumes "req_user req = Some user"
  shows "sessions (con_store (snd (handle_session_revoke_others now req c))) =
    (case csrf_guard req of Inl _ \<Rightarrow> sessions (con_store c)
     | Inr s \<Rightarrow> filter (\<lambda>r. sess_user_id r \<noteq> user_id user \<or> sess_id r = sess_id s) (sessions (con_store c)))"
proof -
  have "auth_guard req = Inr user" using assms by (simp add: auth_guard_iff)
  then show ?thesis
    by (cases "csrf_guard req")
       (auto simp: handle_session_revoke_others_def delete_sessions_for_user_except_def delete_where_def intro: filter_cong)
qed

text \<open>Revoking touches the sessions and the audit log only.\<close>

lemma revoke_frames:
  "\<exists>ss es. snd (handle_session_revoke now req c) = set_store ((con_store c)\<lparr>sessions := ss, auth_events := es\<rparr>) c"
  "\<exists>ss es. snd (handle_session_revoke_others now req c) = set_store ((con_store c)\<lparr>sessions := ss, auth_events := es\<rparr>) c"
proof -
  have k: "\<exists>ss es. c = set_store ((con_store c)\<lparr>sessions := ss, auth_events := es\<rparr>) c"
    by (intro exI [of _ "sessions (con_store c)"] exI [of _ "auth_events (con_store c)"]) simp
  have r: "\<exists>ss es. set_store (record_event now kd em ip u ((con_store c)\<lparr>sessions := x\<rparr>)) c
      = set_store ((con_store c)\<lparr>sessions := ss, auth_events := es\<rparr>) c" for kd em ip u x
    unfolding record_event_append by (intro exI [of _ x]) auto
  show "\<exists>ss es. snd (handle_session_revoke now req c) = set_store ((con_store c)\<lparr>sessions := ss, auth_events := es\<rparr>) c"
    using k r by (auto simp: handle_session_revoke_def guarded_def Let_def delete_session_def split: sum.split)
  show "\<exists>ss es. snd (handle_session_revoke_others now req c) = set_store ((con_store c)\<lparr>sessions := ss, auth_events := es\<rparr>) c"
    using k r by (auto simp: handle_session_revoke_others_def guarded_def delete_sessions_for_user_except_def split: sum.split)
qed

text \<open>C28: a user revokes only their own sessions. Whatever session id the URL of a signed-in user's request
  names, revoking it deletes that session if it is the user's own and no other; revoking the others deletes all of the
  user's but the one the request belongs to. The sessions of other users stay as they are, both need the session's CSRF token, without which no
  session goes, and neither touches anything else but the audit log.\<close>

theorem revoke_only_own:
  assumes "accounts_ok (con_store c)" "req_user req = Some user"
  shows "sessions (con_store (snd (handle_session_revoke now req c))) =
      (case csrf_guard req of Inl _ \<Rightarrow> sessions (con_store c)
       | Inr s \<Rightarrow> filter (\<lambda>r. sess_user_id r \<noteq> user_id user \<or> sess_id r \<noteq> req_path_id req) (sessions (con_store c)))
    \<and> sessions (con_store (snd (handle_session_revoke_others now req c))) =
      (case csrf_guard req of Inl _ \<Rightarrow> sessions (con_store c)
       | Inr s \<Rightarrow> filter (\<lambda>r. sess_user_id r \<noteq> user_id user \<or> sess_id r = sess_id s) (sessions (con_store c)))
    \<and> (\<forall>s. csrf_guard req = Inr s \<longrightarrow> req_session req = Some s)
    \<and> (\<forall>h \<in> {handle_session_revoke, handle_session_revoke_others}.
        \<exists>ss es. snd (h now req c) = c\<lparr>con_store := (con_store c)\<lparr>sessions := ss, auth_events := es\<rparr>\<rparr>)"
  using revoke_sessions [OF assms, of now] revoke_others_sessions [OF assms(2), of now c] csrf_guard_session
    revoke_frames [of now req c]
  by (auto split: sum.splits)

theorem revoke_only_own_witness:
  "sessions (con_store (snd (handle_session_revoke 1800000000000000 (demo_request [(''csrf_token'', ''c'')]) demo_signed_in))) = []
   \<and> sessions (con_store (snd (handle_session_revoke_others 1800000000000000 (demo_request [(''csrf_token'', ''c'')]) demo_signed_in))) = [demo_session]"
proof -
  have "sessions (con_store demo_signed_in) = [demo_session]" by (simp add: demo_signed_in_def)
  moreover have "sess_user_id demo_session = user_id demo_user" "sess_id demo_session = req_path_id (demo_request form)" for form
    by (simp_all add: demo_session_def demo_user_def demo_request_def)
  ultimately show ?thesis
    using revoke_only_own [OF demo_signed_in_ok demo_auth(2), of 1800000000000000 "[(''csrf_token'', ''c'')]"] demo_csrf by simp
qed

section \<open>Administering users\<close>

text \<open>C26: only an administrator changes the set of accounts. When creating or (de)activating an account changes
  any user, the request was an administrator's, with their session's CSRF token; creating only appends
  one account with one of the two roles, and (de)activating only flips the named account, never the
  administrator's own.\<close>

theorem user_admin_exact:
  "(users (con_store (snd (handle_user_create lib fr now req c))) \<noteq> users (con_store c) \<longrightarrow>
      (\<exists>admin s u. req_user req = Some admin \<and> user_role admin = ''admin'' \<and> csrf_guard req = Inr s
        \<and> users (con_store (snd (handle_user_create lib fr now req c))) = users (con_store c) @ [u]
        \<and> user_role u = param (req_form req) ''role'' ''member'' \<and> user_role u \<in> {''admin'', ''member''}
        \<and> 12 \<le> length (new_password req) \<and> user_password_hash u = hash_password lib (fresh_salt fr) (new_password req)))
   \<and> (users (con_store (snd (handle_user_deactivate now req c))) \<noteq> users (con_store c) \<longrightarrow>
      (\<exists>admin s. req_user req = Some admin \<and> user_role admin = ''admin'' \<and> csrf_guard req = Inr s
        \<and> req_path_id req \<noteq> user_id admin
        \<and> users (con_store (snd (handle_user_deactivate now req c)))
          = map (\<lambda>u. if user_id u = req_path_id req
              then u\<lparr>user_active := \<not> user_active (the (find_key user_id (req_path_id req) (users (con_store c))))\<rparr> else u)
              (users (con_store c))))"
proof (cases "admin_guard req")
  case (Inl e)
  then show ?thesis by (simp add: handle_user_create_def handle_user_deactivate_def)
next
  case (Inr admin)
  note a = Inr
  show ?thesis
  proof (cases "csrf_guard req")
    case (Inl e)
    with a show ?thesis by (simp add: handle_user_create_def handle_user_deactivate_def)
  next
    case (Inr s)
    have "req_user req = Some admin" "user_role admin = ''admin''" using a by (simp_all add: admin_guard_iff)
    then show ?thesis
      using a Inr
      by (auto simp: handle_user_create_def handle_user_deactivate_def Let_def create_user_def append_row_def new_password_def
          get_user_by_id_def set_user_active_def update_where_def validate_password_iff
          split: sum.split pyexn.split option.split)
  qed
qed

definition demo_create :: request where
  "demo_create = demo_request [(''csrf_token'', ''c''), (''email'', ''b@x''), (''password'', ''correct horse'')]"

theorem user_admin_exact_witness:
  "\<exists>u. users (con_store (snd (handle_user_create demo_argon demo_fresh 1800000000000000 demo_create demo_signed_in)))
      = users (con_store demo_signed_in) @ [u] \<and> user_role u = ''member''"
proof -
  let ?h = "handle_user_create demo_argon demo_fresh 1800000000000000 demo_create demo_signed_in"
  have a: "admin_guard demo_create = Inr demo_user" by (simp add: admin_guard_iff demo_create_def demo_request_def demo_user_def)
  have g: "csrf_guard demo_create = Inr demo_session" by (simp add: demo_create_def demo_csrf)
  have f: "param (req_form demo_create) ''role'' ''member'' = ''member''" "param (req_form demo_create) ''email'' [] = ''b@x''"
    "param (req_form demo_create) ''password'' [] = ''correct horse''"
    by (simp_all add: demo_create_def demo_request_def param_def)
  have v: "validate_password ''correct horse'' = Inr ()" by (simp add: validate_password_iff)
  have "users (con_store (snd ?h)) \<noteq> users (con_store demo_signed_in)"
    by (simp add: handle_user_create_def a g f v demo_emails create_user_def demo_signed_in_def demo_user_def demo_fold
        append_row_def Let_def)
  then show ?thesis
    using user_admin_exact [of demo_argon demo_fresh 1800000000000000 demo_create demo_signed_in] f by auto
qed

end
