(* ===== verification/GwConfig.thy ===== *)
theory GwConfig
  imports VerifierRegistry StoreEndpoints CoreEvents
begin

text \<open>
  \<open>gwconfig.py\<close>: the conversion between endpoint rows and the gateway's table, the checks an imported
  route must pass, and the rendering of an exported file; with \<open>seed-config\<close> of \<open>__main__.py\<close>, which
  imports one. Reading a file's text into a \<open>Config\<close> (\<open>json.loads\<close> and pydantic's \<open>model_validate\<close>) is
  the argument \<open>load\<close>, which is \<open>load_config\<close> in \<open>WireFormat\<close>; rendering one is defined here.
\<close>

section \<open>Conversions\<close>

definition from_endpoint :: "Endpoint \<Rightarrow> Route" where
  "from_endpoint e =
     \<lparr>route_path = end_path e, route_provider = end_provider e, route_upstream = end_upstream_url e,
      route_replay_window = end_replay_window e, route_secret_env = end_secret_env e, route_webhook_id = end_webhook_id e\<rparr>"

definition to_endpoint :: "Route \<Rightarrow> Endpoint" where
  "to_endpoint r =
     \<lparr>end_id = 0, end_path = route_path r, end_provider = route_provider r, end_upstream_url = route_upstream r,
      end_replay_window = route_replay_window r, end_secret_env = route_secret_env r, end_webhook_id = route_webhook_id r,
      end_active = True, end_created_at = 0, end_updated_at = 0\<rparr>"

definition export_config :: "Endpoint list \<Rightarrow> Config" where
  "export_config es = \<lparr>routes = map from_endpoint es\<rparr>"

section \<open>Rendering\<close>

text \<open>\<open>json.dumps(..., indent=2)\<close>: one item per line, two more spaces per level.\<close>

definition newline_indent :: "nat \<Rightarrow> pystr" where
  "newline_indent level = CHR 0x0A # replicate (2 * level) (CHR '' '')"

fun dumps_indent :: "nat \<Rightarrow> json \<Rightarrow> pystr" where
  "dumps_indent level (JList xs) =
     (if xs = [] then ''[]''
      else ''['' @ newline_indent (Suc level)
        @ join_with ('','' @ newline_indent (Suc level)) (map (dumps_indent (Suc level)) xs)
        @ newline_indent level @ '']'')"
| "dumps_indent level (JObj kvs) =
     (if kvs = [] then [CHR 0x7B, CHR 0x7D]
      else CHR 0x7B # newline_indent (Suc level)
        @ join_with ('','' @ newline_indent (Suc level))
            (map (\<lambda>(k, v). json_string k @ '': '' @ dumps_indent (Suc level) v) kvs)
        @ newline_indent level @ [CHR 0x7D])"
| "dumps_indent level v = dumps v"

definition route_item :: "Route \<Rightarrow> json" where
  "route_item r =
     JObj ([(''path'', JStr (route_path r)), (''provider'', JStr (route_provider r)), (''upstream'', JStr (route_upstream r)),
            (''replay_window'', JStr (route_replay_window r)), (''secret_env'', JStr (route_secret_env r))]
           @ (if route_webhook_id r \<noteq> [] then [(''webhook_id'', JStr (route_webhook_id r))] else []))"

definition marshal :: "Config \<Rightarrow> pystr" where
  "marshal config =
     dumps_indent 0 (JObj [(''routes'', JList (map route_item (routes config)))]) @ [CHR 0x0A]"

section \<open>Validation\<close>

definition SECRET_ENV_PROVIDERS :: "pystr list" where
  "SECRET_ENV_PROVIDERS = [''stripe'', ''github'', ''shopify'']"

definition validate :: "Route \<Rightarrow> unit py" where
  "validate r =
     (let fail = (\<lambda>m. Inl (ConfigValidationErr m));
          registered = (\<lambda>_. if route_provider r \<notin> known_providers REGISTRY
             then fail (''provider '' @ py_repr (route_provider r) @ '' is not registered'') else Inr ()) in
      if route_path r = [] then fail ''path is required''
      else if route_upstream r = [] then fail ''upstream is required''
      else if route_provider r = ''paypal'' then
        (if route_webhook_id r = [] then fail ''paypal requires webhook_id''
         else if route_secret_env r \<noteq> [] then fail ''paypal must not set secret_env''
         else registered ())
      else if route_provider r \<in> set SECRET_ENV_PROVIDERS then
        (if route_secret_env r = [] then fail (route_provider r @ '' requires secret_env'')
         else if route_webhook_id r \<noteq> [] then fail (route_provider r @ '' must not set webhook_id'')
         else if route_provider r = ''stripe'' \<and> route_replay_window r \<noteq> [] then
           (case parse_duration_str (route_replay_window r) of
              Inl (GoDurationErr m) \<Rightarrow> fail (''replay_window: '' @ m)
            | Inl e \<Rightarrow> Inl e
            | Inr _ \<Rightarrow> registered ())
         else registered ())
      else fail (''unknown provider '' @ py_repr (route_provider r)))"

text \<open>The loop of \<open>import_config\<close> from route number \<open>i\<close> on.\<close>

fun import_routes :: "nat \<Rightarrow> Route list \<Rightarrow> Endpoint list py" where
  "import_routes i [] = Inr []"
| "import_routes i (r # rs) =
     (case validate r of
        Inl (ConfigValidationErr m) \<Rightarrow>
          Inl (ConfigValidationErr (''route '' @ show_nat i @ '' ('' @ route_path r @ ''): '' @ m))
      | Inl e \<Rightarrow> Inl e
      | Inr _ \<Rightarrow> py_bind (import_routes (Suc i) rs) (\<lambda>es. Inr (to_endpoint r # es)))"

definition import_config :: "('d \<Rightarrow> Config py) \<Rightarrow> 'd \<Rightarrow> Endpoint list py" where
  "import_config load data =
     (case load data of
        Inl e \<Rightarrow> if is_value_error e then Inl (ConfigValidationErr (''parse config: '' @ exn_message e)) else Inl e
      | Inr config \<Rightarrow> import_routes 0 (routes config))"

section \<open>Seeding\<close>

text \<open>\<open>_seed_config\<close>: the paths added, and the database; the loop stops at an error of the database, keeping
  what it added. A file that cannot be read is its error's text.\<close>

fun seed_routes :: "int \<Rightarrow> Endpoint list \<Rightarrow> store \<Rightarrow> pystr list py \<times> store" where
  "seed_routes now_ms [] st = (Inr [], st)"
| "seed_routes now_ms (e # es) st =
     (case get_endpoint_by_path (end_path e) st of
        Inr _ \<Rightarrow> seed_routes now_ms es st
      | Inl _ \<Rightarrow>
          (case create_endpoint (e\<lparr>end_created_at := now_ms, end_updated_at := now_ms\<rparr>) st of
             Inl x \<Rightarrow> (Inl x, st)
           | Inr (_, st1) \<Rightarrow>
               (case seed_routes now_ms es st1 of
                  (r, st2) \<Rightarrow> (py_bind r (\<lambda>paths. Inr (end_path e # paths)), st2))))"

definition seed_config ::
  "('d \<Rightarrow> Config py) \<Rightarrow> usec \<Rightarrow> pystr \<Rightarrow> (pystr + 'd) \<Rightarrow> store \<Rightarrow> pystr list py \<times> store" where
  "seed_config load now path data st =
     (case data of
        Inl e \<Rightarrow> (Inl (SystemExitErr (''read '' @ path @ '': '' @ e)), st)
      | Inr text \<Rightarrow>
          (case import_config load text of
             Inl (ConfigValidationErr m) \<Rightarrow> (Inl (SystemExitErr (''parse '' @ path @ '': '' @ m)), st)
           | Inl e \<Rightarrow> (Inl e, st)
           | Inr es \<Rightarrow> seed_routes (millis now) es st))"

section \<open>What validation means\<close>

lemma duration_ok_iff:
  "(\<exists>w. parse_duration_str s = Inr w) \<longleftrightarrow> (\<nexists>e. parse_duration_str s = Inl e)"
  by (cases "parse_duration_str s") auto

lemma validate_iff:
  "validate r = Inr () \<longleftrightarrow>
     route_path r \<noteq> [] \<and> route_upstream r \<noteq> [] \<and>
     (if route_provider r = ''paypal'' then route_webhook_id r \<noteq> [] \<and> route_secret_env r = []
      else route_provider r \<in> {''stripe'', ''github'', ''shopify''} \<and> route_secret_env r \<noteq> [] \<and> route_webhook_id r = []
        \<and> (route_provider r = ''stripe'' \<and> route_replay_window r \<noteq> [] \<longrightarrow> (\<exists>w. parse_duration_str (route_replay_window r) = Inr w)))"
  by (auto simp: validate_def Let_def SECRET_ENV_PROVIDERS_def known_providers_REGISTRY split: sum.splits pyexn.splits)

lemma validate_Inl: "validate r = Inl e \<Longrightarrow> is_value_error e"
  using parse_duration_errors [of "route_replay_window r"]
  by (auto simp: validate_def Let_def split: sum.splits pyexn.splits if_splits)

lemma validate_usable: "validate r = Inr () \<longleftrightarrow>
    route_path r \<noteq> [] \<and> route_upstream r \<noteq> [] \<and> endpoint_check (to_endpoint r) \<and> route_usable r [c]"
  by (auto simp: validate_iff endpoint_check_def to_endpoint_def route_usable_def)

lemma usable_any_secret: "secret \<noteq> [] \<Longrightarrow> route_usable r secret \<longleftrightarrow> route_usable r [c]"
  by (simp add: route_usable_def)

text \<open>C31: validation asks exactly for what the rest of the system needs. A route passes when it has a path and an
  upstream, the database accepts it as a row, and the gateway's registry builds a verifier for it once
  its secret is set: nothing the gateway or the schema would refuse gets through, and nothing they would
  both accept is refused.\<close>

theorem validate_exact:
  assumes "secret \<noteq> []"
  shows "validate r = Inr () \<longleftrightarrow>
    route_path r \<noteq> [] \<and> route_upstream r \<noteq> [] \<and> endpoint_check (to_endpoint r) \<and> returns (build_verifier REGISTRY r secret)"
  using validate_usable usable_any_secret [OF assms] build_verifier_spec by blast

definition demo_route :: Route where
  "demo_route = \<lparr>route_path = ''/hook'', route_provider = ''github'', route_upstream = ''http://u'', route_replay_window = [],
     route_secret_env = ''S'', route_webhook_id = []\<rparr>"

theorem validate_exact_witness: "validate demo_route = Inr () \<and> endpoint_check (to_endpoint demo_route)"
proof -
  have "validate demo_route = Inr ()" by (simp add: validate_iff demo_route_def)
  then show ?thesis using validate_exact [of "''s''" demo_route] by simp
qed

lemma import_routes_iff:
  "import_routes i rs = Inr es \<longleftrightarrow> list_all (\<lambda>r. validate r = Inr ()) rs \<and> es = map to_endpoint rs"
  by (induction rs arbitrary: i es) (auto simp: py_bind_eq_Inr split: sum.splits pyexn.splits)

lemma from_to_endpoint [simp]: "from_endpoint (to_endpoint r) = r"
  by (simp add: from_endpoint_def to_endpoint_def)

text \<open>A row that survives an export and an import: the database's own columns are new.\<close>

definition row_shell :: "Endpoint \<Rightarrow> Endpoint" where
  "row_shell e = e\<lparr>end_id := 0, end_active := True, end_created_at := 0, end_updated_at := 0\<rparr>"

lemma to_from_endpoint [simp]: "to_endpoint (from_endpoint e) = row_shell e"
  by (simp add: from_endpoint_def to_endpoint_def row_shell_def)

text \<open>Importing a text from which the reader recovers the exported table.\<close>

lemma import_loaded:
  assumes "load (marshal (export_config es)) = Inr (export_config es)"
  shows "(returns (import_config load (marshal (export_config es))) \<longleftrightarrow> list_all (\<lambda>e. validate (from_endpoint e) = Inr ()) es)
   \<and> (case import_config load (marshal (export_config es)) of
        Inr fs \<Rightarrow> fs = map row_shell es | Inl e \<Rightarrow> is_value_error e)"
proof -
  have i: "import_config load (marshal (export_config es)) = import_routes 0 (map from_endpoint es)"
    by (simp add: import_config_def assms) (simp add: export_config_def)
  have ok: "import_routes 0 (map from_endpoint es) = Inr fs \<longleftrightarrow>
      list_all (\<lambda>e. validate (from_endpoint e) = Inr ()) es \<and> fs = map row_shell es" for fs
    by (simp add: import_routes_iff list_all_iff comp_def)
  have "import_routes i rs = Inl e \<Longrightarrow> is_value_error e" for i rs e
    by (induction rs arbitrary: i) (auto simp: py_bind_def dest: validate_Inl split: sum.splits pyexn.splits)
  then show ?thesis
    using i ok by (cases "import_routes 0 (map from_endpoint es)") auto
qed

definition demo_row :: Endpoint where
  "demo_row = (to_endpoint demo_route)\<lparr>end_id := 4, end_created_at := 7\<rparr>"

definition demo_load :: "pystr \<Rightarrow> Config py" where
  "demo_load text = (if text = marshal (export_config [demo_row]) then Inr (export_config [demo_row]) else Inl (ValueErr ''json''))"

section \<open>Seeding\<close>

text \<open>The routes the program keeps: consistent with the schema, and valid for the gateway.\<close>

definition endpoints_valid :: "store \<Rightarrow> bool" where
  "endpoints_valid st \<longleftrightarrow> endpoints_ok st \<and> list_all (\<lambda>e. validate (from_endpoint e) = Inr ()) (endpoints st)"

lemma from_endpoint_cong:
  "from_endpoint (e\<lparr>end_id := n\<rparr>) = from_endpoint e" "from_endpoint (e\<lparr>end_active := b\<rparr>) = from_endpoint e"
  "from_endpoint (e\<lparr>end_created_at := t\<rparr>) = from_endpoint e" "from_endpoint (e\<lparr>end_updated_at := t'\<rparr>) = from_endpoint e"
  "from_endpoint (overwrite e r) = from_endpoint e"
  by (simp_all add: from_endpoint_def overwrite_def)

lemma create_endpoint_valid:
  assumes "endpoints_valid st" "validate (from_endpoint e) = Inr ()" "create_endpoint e st = Inr (n, st')"
  shows "endpoints_valid st'"
proof -
  have "endpoints st' = endpoints st @ [e\<lparr>end_id := n\<rparr>]"
    using assms(3) by (auto simp: create_endpoint_def append_row_def split: if_splits)
  then show ?thesis
    using assms create_endpoint_ok by (auto simp: endpoints_valid_def from_endpoint_cong)
qed

lemma update_endpoint_valid:
  assumes "endpoints_valid st" "validate (from_endpoint e) = Inr ()" "update_endpoint e st = Inr st'"
  shows "endpoints_valid st'"
proof -
  have "set (endpoints st') \<subseteq> set (endpoints st) \<union> overwrite e ` set (endpoints st)"
    using assms(3) by (auto simp: update_endpoint_def update_where_def split: if_splits)
  then have "x \<in> set (endpoints st) \<or> x \<in> overwrite e ` set (endpoints st)" if "x \<in> set (endpoints st')" for x
    using that by blast
  then show ?thesis
    using assms update_endpoint_ok [of st e st'] by (fastforce simp: endpoints_valid_def list_all_iff from_endpoint_cong)
qed

lemma set_endpoint_active_valid: "endpoints_valid st \<Longrightarrow> endpoints_valid (set_endpoint_active n b t st)"
  using set_endpoint_active_ok [of st n b t]
  by (auto simp: endpoints_valid_def set_endpoint_active_def update_where_def list_all_iff from_endpoint_cong)

lemma delete_endpoint_valid: "endpoints_valid st \<Longrightarrow> endpoints_valid (delete_endpoint n st)"
  using delete_endpoint_ok [of st n] by (auto simp: endpoints_valid_def delete_endpoint_def delete_where_def list_all_iff)

lemma seed_routes_spec:
  assumes "endpoints_valid st" "list_all (\<lambda>e. validate (from_endpoint e) = Inr ()) es" "seed_routes now es st = (r, st')"
  shows "endpoints_valid st' \<and> set (endpoints st) \<subseteq> set (endpoints st')
    \<and> end_path ` set (endpoints st') = end_path ` set (endpoints st) \<union> end_path ` set es
    \<and> (\<exists>paths. r = Inr paths \<and> distinct paths \<and> set paths = end_path ` set es - end_path ` set (endpoints st))"
  using assms
proof (induction es arbitrary: st r st')
  case (Cons e es)
  have ok: "endpoints_ok st" using Cons.prems(1) by (simp add: endpoints_valid_def)
  show ?case
  proof (cases "get_endpoint_by_path (end_path e) st")
    case (Inr x)
    then have "end_path e \<in> end_path ` set (endpoints st)" using get_by_path_iff [OF ok, of "end_path e" x] by (metis imageI)
    moreover have "seed_routes now es st = (r, st')" using Cons.prems(3) Inr by simp
    from Cons.IH [OF Cons.prems(1) _ this] Cons.prems(2)
    have "endpoints_valid st' \<and> set (endpoints st) \<subseteq> set (endpoints st')
      \<and> end_path ` set (endpoints st') = end_path ` set (endpoints st) \<union> end_path ` set es
      \<and> (\<exists>paths. r = Inr paths \<and> distinct paths \<and> set paths = end_path ` set es - end_path ` set (endpoints st))"
      by simp
    ultimately show ?thesis by (simp add: insert_absorb)
  next
    case (Inl x)
    then have fresh: "end_path e \<notin> end_path ` set (endpoints st)"
      using get_by_path_iff [OF ok, of "end_path e"] by (metis Inl_Inr_False image_iff)
    let ?e = "e\<lparr>end_created_at := now, end_updated_at := now\<rparr>"
    have "endpoint_check e" using Cons.prems(2) validate_usable [of "from_endpoint e"] by (simp add: row_shell_def endpoint_check_def)
    then have ck: "endpoint_check ?e" by (simp add: endpoint_check_def)
    then obtain n st1 where c: "create_endpoint ?e st = Inr (n, st1)" and e1: "endpoints st1 = endpoints st @ [?e\<lparr>end_id := n\<rparr>]"
      using fresh by (auto simp: create_endpoint_def append_row_def)
    have v1: "endpoints_valid st1"
      using create_endpoint_valid [OF Cons.prems(1) _ c] Cons.prems(2) by (simp add: from_endpoint_cong)
    obtain r2 where r2: "seed_routes now es st1 = (r2, st')" "r = py_bind r2 (\<lambda>paths. Inr (end_path e # paths))"
      using Cons.prems(3) Inl c by (auto split: prod.splits)
    from Cons.IH [OF v1 _ r2(1)] Cons.prems(2) e1 fresh r2(2) show ?thesis by auto
  qed
qed auto

end
