(* ===== verification/EndpointRoutes.thy ===== *)
theory EndpointRoutes
  imports Console GwConfig
begin

text \<open>
  \<open>routes/endpoints.py\<close>: the list, the forms, the writes and the export of the routes. A submission is
  checked by the rules of \<open>gwconfig.validate\<close> before it reaches the database; what the database refuses
  becomes a message on the form.
\<close>

definition form_endpoint :: "(pystr \<rightharpoonup> pystr) \<Rightarrow> int \<Rightarrow> Endpoint" where
  "form_endpoint form endpoint_id =
     \<lparr>end_id = endpoint_id, end_path = py_strip (param form ''path'' []),
      end_provider = py_strip (param form ''provider'' []),
      end_upstream_url = py_strip (param form ''upstream_url'' []),
      end_replay_window = py_strip (param form ''replay_window'' []),
      end_secret_env = py_strip (param form ''secret_env'' []),
      end_webhook_id = py_strip (param form ''webhook_id'' []),
      end_active = True, end_created_at = 0, end_updated_at = 0\<rparr>"

text \<open>\<open>_validate\<close>: the message, empty when the route is usable.\<close>

definition validate_endpoint :: "Endpoint \<Rightarrow> pystr py" where
  "validate_endpoint e =
     (if end_path e = [] then Inr ''Path is required.''
      else if \<not> startswith (end_path e) ''/'' then Inr ''Path must start with /.''
      else if end_upstream_url e = [] then Inr ''Upstream URL is required.''
      else case validate (from_endpoint e) of
        Inl (ConfigValidationErr message) \<Rightarrow>
          Inr (if contains ''requires secret_env'' message
               then ''This provider requires the name of a secret environment variable.''
               else if contains ''requires webhook_id'' message then ''PayPal requires a webhook ID.''
               else if contains ''replay_window'' message
               then ''Replay window must be a Go duration like '' @ [CHR 0x22] @ ''5m'' @ [CHR 0x22] @ '' (or left blank).''
               else if contains ''unknown provider'' message then ''Unknown provider.''
               else message)
      | Inl x \<Rightarrow> Inl x
      | Inr _ \<Rightarrow> Inr [])"

definition db_error_message :: "pystr \<Rightarrow> pystr" where
  "db_error_message error =
     (let text = py_lower error in
      if contains ''unique'' text \<and> contains ''path'' text then ''A route with that path already exists.''
      else if contains ''check'' text then ''That combination of provider and fields is not allowed.''
      else ''Could not save the route.'')"

definition render_form :: "usec \<Rightarrow> request \<Rightarrow> Endpoint \<Rightarrow> bool \<Rightarrow> pystr \<Rightarrow> nat \<Rightarrow> console \<Rightarrow> outcome" where
  "render_form now req e is_new error status c =
     (render_page ''endpoint_form.html'' status
        (page_context req (con_store c) now ''endpoints''
           [(''endpoint'', CEndpoint e), (''is_new'', CBool is_new), (''form_error'', CStr error)]), c)"

definition not_found_page :: response where
  "not_found_page = Page ''404.html'' 404 [(''version'', CStr VERSION)]"

definition to_endpoints :: "store \<Rightarrow> console \<Rightarrow> outcome" where
  "to_endpoints st c = (Inr (Redirect303 ''/dashboard/endpoints'' KeepCookie), set_store st c)"

section \<open>Pages\<close>

definition handle_endpoints_list :: "usec \<Rightarrow> request \<Rightarrow> console \<Rightarrow> outcome" where
  "handle_endpoints_list now req =
     guarded (auth_guard req) req (\<lambda>_ c.
       (render_page ''endpoints.html'' 200
          (page_context req (con_store c) now ''endpoints'' [(''endpoints'', CEndpoints (list_endpoints (con_store c)))]), c))"

definition handle_endpoint_new_form :: "usec \<Rightarrow> request \<Rightarrow> console \<Rightarrow> outcome" where
  "handle_endpoint_new_form now req =
     guarded (auth_guard req) req (\<lambda>_.
       render_form now req ((form_endpoint Map.empty 0)\<lparr>end_provider := ''stripe'', end_replay_window := ''5m''\<rparr>) True [] 200)"

definition handle_endpoint_edit_form :: "usec \<Rightarrow> request \<Rightarrow> console \<Rightarrow> outcome" where
  "handle_endpoint_edit_form now req =
     guarded (auth_guard req) req (\<lambda>_ c.
       case get_endpoint_by_id (req_path_id req) (con_store c) of
         Inl _ \<Rightarrow> (Inr not_found_page, c)
       | Inr e \<Rightarrow> render_form now req e False [] 200 c)"

section \<open>Writes\<close>

definition handle_endpoint_create :: "usec \<Rightarrow> request \<Rightarrow> console \<Rightarrow> outcome" where
  "handle_endpoint_create now req =
     guarded (auth_guard req) req (\<lambda>_. guarded (csrf_guard req) req (\<lambda>_ c.
       let e = form_endpoint (req_form req) 0 in
       case validate_endpoint e of
         Inl x \<Rightarrow> (Inl x, c)
       | Inr error \<Rightarrow>
           if error \<noteq> [] then render_form now req e True error 400 c
           else
             let e = e\<lparr>end_created_at := millis now, end_updated_at := millis now, end_active := True\<rparr> in
             case create_endpoint e (con_store c) of
               Inl (IntegrityErr m) \<Rightarrow> render_form now req e True (db_error_message m) 400 c
             | Inl x \<Rightarrow> (Inl x, c)
             | Inr (_, st) \<Rightarrow> to_endpoints st c))"

definition handle_endpoint_update :: "usec \<Rightarrow> request \<Rightarrow> console \<Rightarrow> outcome" where
  "handle_endpoint_update now req =
     guarded (auth_guard req) req (\<lambda>_. guarded (csrf_guard req) req (\<lambda>_ c.
       let endpoint_id = req_path_id req in
       case get_endpoint_by_id endpoint_id (con_store c) of
         Inl _ \<Rightarrow> (Inr not_found_page, c)
       | Inr existing \<Rightarrow>
           let e = form_endpoint (req_form req) endpoint_id in
           case validate_endpoint e of
             Inl x \<Rightarrow> (Inl x, c)
           | Inr error \<Rightarrow>
               if error \<noteq> [] then render_form now req e False error 400 c
               else
                 let e = e\<lparr>end_updated_at := millis now, end_created_at := end_created_at existing,
                           end_active := end_active existing\<rparr> in
                 case update_endpoint e (con_store c) of
                   Inl (IntegrityErr m) \<Rightarrow> render_form now req e False (db_error_message m) 400 c
                 | Inl x \<Rightarrow> (Inl x, c)
                 | Inr st \<Rightarrow> to_endpoints st c))"

text \<open>The same handler answers \<open>POST .../delete\<close>, with a form, and \<open>DELETE\<close>, without one.\<close>

definition handle_endpoint_delete :: "pystr \<Rightarrow> request \<Rightarrow> console \<Rightarrow> outcome" where
  "handle_endpoint_delete meth req =
     guarded (auth_guard req) req (\<lambda>_.
       guarded (csrf_guard (req\<lparr>req_form := (if meth = ''POST'' then req_form req else Map.empty)\<rparr>)) req (\<lambda>_ c.
         to_endpoints (delete_endpoint (req_path_id req) (con_store c)) c))"

definition handle_endpoint_toggle_active :: "usec \<Rightarrow> request \<Rightarrow> console \<Rightarrow> outcome" where
  "handle_endpoint_toggle_active now req =
     guarded (auth_guard req) req (\<lambda>_. guarded (csrf_guard req) req (\<lambda>_ c.
       let endpoint_id = req_path_id req in
       case get_endpoint_by_id endpoint_id (con_store c) of
         Inl _ \<Rightarrow> (Inr not_found_page, c)
       | Inr e \<Rightarrow> to_endpoints (set_endpoint_active endpoint_id (\<not> end_active e) (millis now) (con_store c)) c))"

section \<open>Export\<close>

definition export_json :: "console \<Rightarrow> pystr" where
  "export_json c = marshal (export_config (list_active_endpoints (con_store c)))"

definition handle_endpoint_export_preview :: "usec \<Rightarrow> request \<Rightarrow> console \<Rightarrow> outcome" where
  "handle_endpoint_export_preview now req =
     guarded (auth_guard req) req (\<lambda>_ c.
       (render_page ''endpoint_export.html'' 200
          (page_context req (con_store c) now ''endpoints'' [(''config_json'', CStr (export_json c))]), c))"

definition handle_endpoint_export_download :: "request \<Rightarrow> console \<Rightarrow> outcome" where
  "handle_endpoint_export_download req =
     guarded (auth_guard req) req (\<lambda>_ c.
       (Inr (PlainText 200 (export_json c)
          [(''content-type'', ''application/json''),
           (''Content-Disposition'', ''attachment; filename='' @ [CHR 0x22] @ ''config.json'' @ [CHR 0x22])]), c))"

section \<open>Facts\<close>

lemma render_form_snd [simp]: "snd (render_form now req e is_new error status c) = c"
  by (simp add: render_form_def)

lemma to_endpoints_snd [simp]: "snd (to_endpoints st c) = set_store st c"
  by (simp add: to_endpoints_def)

lemma validate_endpoint_iff:
  "validate_endpoint e = Inr [] \<longleftrightarrow> startswith (end_path e) ''/'' \<and> validate (from_endpoint e) = Inr ()"
proof -
  have d: "parse_duration_str s \<noteq> Inl (ConfigValidationErr m)" for s m
    by (auto simp: parse_duration_str_def go_exn_def split: sum.splits go_error.splits)
  have ne: "validate r = Inl (ConfigValidationErr m) \<Longrightarrow> m \<noteq> []" for r m
    by (auto simp: validate_def Let_def d split: sum.splits pyexn.splits if_splits)
  have paths: "route_path (from_endpoint e) = end_path e" "route_upstream (from_endpoint e) = end_upstream_url e"
    by (simp_all add: from_endpoint_def)
  show ?thesis
  proof (cases "validate (from_endpoint e)")
    case (Inl x)
    with ne [of "from_endpoint e"] show ?thesis by (cases x) (simp_all add: validate_endpoint_def)
  next
    case (Inr u)
    then have "end_path e \<noteq> []" "end_upstream_url e \<noteq> []" using validate_iff [of "from_endpoint e"] paths by auto
    with Inr show ?thesis by (simp add: validate_endpoint_def)
  qed
qed

text \<open>The handlers keep the routes valid and leave the accounts alone.\<close>

lemma guarded_valid:
  "endpoints_valid (con_store c) \<Longrightarrow>
     (\<And>x. endpoints_valid (con_store c) \<Longrightarrow> endpoints_valid (con_store (snd (body x c))))
    \<Longrightarrow> endpoints_valid (con_store (snd (guarded g req body c)))"
  by (cases g) simp_all

lemma from_form_endpoint:
  "from_endpoint ((form_endpoint form n)\<lparr>end_created_at := a, end_updated_at := b, end_active := d\<rparr>) = from_endpoint (form_endpoint form n)"
  "from_endpoint ((form_endpoint form n)\<lparr>end_updated_at := b, end_created_at := a, end_active := d\<rparr>) = from_endpoint (form_endpoint form n)"
  by (simp_all add: from_endpoint_def)

lemma handle_endpoint_create_valid:
  "endpoints_valid (con_store c) \<Longrightarrow> endpoints_valid (con_store (snd (handle_endpoint_create now req c)))"
  unfolding handle_endpoint_create_def
  by (intro guarded_valid)
     (auto simp: Let_def validate_endpoint_iff from_form_endpoint elim!: create_endpoint_valid [rotated 2]
      split: sum.split pyexn.split)

lemma handle_endpoint_update_valid:
  "endpoints_valid (con_store c) \<Longrightarrow> endpoints_valid (con_store (snd (handle_endpoint_update now req c)))"
  unfolding handle_endpoint_update_def
  by (intro guarded_valid)
     (auto simp: Let_def validate_endpoint_iff from_form_endpoint elim!: update_endpoint_valid [rotated 2]
      split: sum.split pyexn.split)

lemma handle_endpoint_delete_valid:
  "endpoints_valid (con_store c) \<Longrightarrow> endpoints_valid (con_store (snd (handle_endpoint_delete meth req c)))"
  unfolding handle_endpoint_delete_def by (intro guarded_valid) (simp_all add: delete_endpoint_valid)

lemma handle_endpoint_toggle_active_valid:
  "endpoints_valid (con_store c) \<Longrightarrow> endpoints_valid (con_store (snd (handle_endpoint_toggle_active now req c)))"
  unfolding handle_endpoint_toggle_active_def
  by (intro guarded_valid) (simp_all add: Let_def set_endpoint_active_valid split: sum.split)

lemma page_handlers_snd [simp]:
  "snd (handle_endpoints_list now req c) = c" "snd (handle_endpoint_new_form now req c) = c"
  "snd (handle_endpoint_edit_form now req c) = c" "snd (handle_endpoint_export_preview now req c) = c"
  "snd (handle_endpoint_export_download req c) = c"
  by (auto simp: handle_endpoints_list_def handle_endpoint_new_form_def handle_endpoint_edit_form_def
      handle_endpoint_export_preview_def handle_endpoint_export_download_def guarded_def split: sum.split)

section \<open>Saving a route\<close>

definition submitted :: "request \<Rightarrow> int \<Rightarrow> Endpoint" where
  "submitted req n = form_endpoint (req_form req) n"

definition submission_ok :: "request \<Rightarrow> bool" where
  "submission_ok req \<longleftrightarrow> (\<exists>u. req_user req = Some u) \<and> (\<exists>s. csrf_guard req = Inr s)
     \<and> startswith (end_path (submitted req 0)) ''/'' \<and> validate (from_endpoint (submitted req 0)) = Inr ()"

lemma submitted_same: "from_endpoint (submitted req n) = from_endpoint (submitted req 0)"
  "end_path (submitted req n) = end_path (submitted req 0)"
  by (simp_all add: submitted_def form_endpoint_def from_endpoint_def)

lemma create_rows:
  assumes "endpoints_ok (con_store c)"
  shows "snd (handle_endpoint_create now req c) =
    (if submission_ok req \<and> end_path (submitted req 0) \<notin> end_path ` set (endpoints (con_store c))
     then c\<lparr>con_store := (con_store c)\<lparr>endpoints := append_row end_id (\<lambda>n r. r\<lparr>end_id := n\<rparr>)
       ((submitted req 0)\<lparr>end_created_at := millis now, end_updated_at := millis now, end_active := True\<rparr>) (endpoints (con_store c))\<rparr>\<rparr>
     else c)"
proof (cases "submission_ok req")
  case False
  then consider "req_user req = None" | e where "csrf_guard req = Inl e"
    | "\<And>error. validate_endpoint (submitted req 0) = Inr error \<Longrightarrow> error \<noteq> []"
    using validate_endpoint_iff [of "submitted req 0"] by (cases "csrf_guard req"; cases "req_user req") (auto simp: submission_ok_def)
  then have "snd (handle_endpoint_create now req c) = c"
  proof cases
    case 1
    then show ?thesis by (simp add: handle_endpoint_create_def auth_guard_def require_auth_def)
  next
    case 2
    then show ?thesis by (cases "auth_guard req") (simp_all add: handle_endpoint_create_def)
  next
    case 3
    then show ?thesis
      by (cases "auth_guard req"; cases "csrf_guard req"; cases "validate_endpoint (submitted req 0)")
         (simp_all add: handle_endpoint_create_def Let_def submitted_def)
  qed
  with False show ?thesis by simp
next
  case True
  then obtain u s where g: "auth_guard req = Inr u" "csrf_guard req = Inr s"
    and v: "validate_endpoint (submitted req 0) = Inr []" and v': "validate (from_endpoint (submitted req 0)) = Inr ()"
    by (auto simp: submission_ok_def auth_guard_iff validate_endpoint_iff)
  have "endpoint_check (submitted req 0)" using v' validate_usable [of "from_endpoint (submitted req 0)"]
    by (simp add: row_shell_def endpoint_check_def)
  then have ck: "endpoint_check ((submitted req 0)\<lparr>end_created_at := millis now, end_updated_at := millis now, end_active := True\<rparr>)"
    by (simp add: endpoint_check_def)
  show ?thesis
    using True g v ck
    by (simp add: handle_endpoint_create_def Let_def create_endpoint_def submitted_def [symmetric])
qed

text \<open>C34: which submissions become routes. On consistent routes, a row is added exactly when someone is signed in, the
  CSRF token is right, the trimmed fields make a path with a leading slash and a valid route, and the path is
  free. The new row is the submission, active and stamped with the time of the request; in every other
  case the routes stay as they are.\<close>

theorem endpoint_create_exact:
  assumes "endpoints_ok (con_store c)"
  shows "endpoints (con_store (snd (handle_endpoint_create now req c))) =
    (if submission_ok req \<and> end_path (submitted req 0) \<notin> end_path ` set (endpoints (con_store c))
     then endpoints (con_store c) @
       [(submitted req 0)\<lparr>end_id := next_id end_id (endpoints (con_store c)), end_active := True,
          end_created_at := millis now, end_updated_at := millis now\<rparr>]
     else endpoints (con_store c))"
  unfolding create_rows [OF assms] by (simp add: append_row_def)

text \<open>A signed-in request and a console, for the witnesses.\<close>

definition sample_user :: User where
  "sample_user = \<lparr>user_id = 1, user_email = ''a@x'', user_password_hash = [], user_role = ''member'', user_active = True,
     user_created_at = 0\<rparr>"

definition sample_session :: Session where
  "sample_session = \<lparr>sess_id = 1, sess_token_hash = [], sess_user_id = 1, sess_csrf_token = ''c'', sess_created_at = 0,
     sess_last_seen_at = 0, sess_expires_at = 0, sess_ip = [], sess_user_agent = []\<rparr>"

definition sample_submission :: request where
  "sample_submission =
     \<lparr>req_user = Some sample_user, req_session = Some sample_session, req_url_path = ''/dashboard/endpoints'', req_client = None,
      req_headers = Map.empty,
      req_form = [''csrf_token'' \<mapsto> ''c'', ''path'' \<mapsto> ''/hook'', ''provider'' \<mapsto> ''github'', ''upstream_url'' \<mapsto> ''http://u'',
        ''secret_env'' \<mapsto> ''S''],
      req_query = Map.empty, req_path_id = 1\<rparr>"

definition sample_console :: "store \<Rightarrow> console" where
  "sample_console st = \<lparr>con_store = st, con_allow_signup = False, con_internal_secret = [], con_data_dir = ''.'',
     con_login = new_limiter 10 900000000, con_signup = new_limiter 5 3600000000, con_batcher = None\<rparr>"

lemma sample_strip: "py_strip ''/hook'' = ''/hook''" "py_strip ''github'' = ''github''" "py_strip ''http://u'' = ''http://u''"
  "py_strip ''S'' = ''S''" "py_strip [] = []"
  by code_simp+

lemma sample_submitted: "submitted sample_submission n = (to_endpoint demo_route)\<lparr>end_id := n\<rparr>"
  by (simp add: submitted_def form_endpoint_def sample_submission_def param_def sample_strip to_endpoint_def demo_route_def)

lemma sample_csrf: "csrf_guard sample_submission = Inr sample_session"
  by (simp add: csrf_guard_iff sample_submission_def check_request_csrf_def Let_def CSRF_FORM_FIELD_def sample_session_def
      check_csrf_def compare_digest_str_def is_ascii_def in_range_def)

lemma sample_ok: "submission_ok sample_submission"
proof -
  have "validate demo_route = Inr ()" by (simp add: validate_iff demo_route_def)
  moreover have "from_endpoint ((to_endpoint demo_route)\<lparr>end_id := 0\<rparr>) = demo_route" by (simp add: from_endpoint_cong)
  moreover have "req_user sample_submission = Some sample_user" by (simp add: sample_submission_def)
  ultimately show ?thesis
    using sample_csrf by (simp add: submission_ok_def sample_submitted) (simp add: to_endpoint_def demo_route_def)
qed

theorem endpoint_create_exact_witness:
  "map end_path (endpoints (con_store (snd (handle_endpoint_create 1800000000000000 sample_submission (sample_console empty_store)))))
   = [''/hook'']"
  using endpoint_create_exact [of "sample_console empty_store" 1800000000000000 sample_submission] sample_ok endpoints_ok_empty
  by (simp add: sample_console_def) (simp add: empty_store_def sample_submitted to_endpoint_def demo_route_def)

definition path_taken :: "request \<Rightarrow> Endpoint list \<Rightarrow> bool" where
  "path_taken req rows \<longleftrightarrow> \<not> (\<forall>r \<in> set rows. end_path r = end_path (submitted req 0) \<longrightarrow> end_id r = req_path_id req)"

definition edited :: "usec \<Rightarrow> request \<Rightarrow> Endpoint \<Rightarrow> Endpoint" where
  "edited now req r =
     (submitted req 0)\<lparr>end_id := end_id r, end_active := end_active r, end_created_at := end_created_at r, end_updated_at := millis now\<rparr>"

lemma update_without_leave:
  assumes "\<not> submission_ok req"
  shows "snd (handle_endpoint_update now req c) = c"
proof -
  consider "req_user req = None" | e where "csrf_guard req = Inl e"
    | "\<And>error. validate_endpoint (submitted req (req_path_id req)) = Inr error \<Longrightarrow> error \<noteq> []"
    using assms validate_endpoint_iff [of "submitted req (req_path_id req)"] submitted_same [of req "req_path_id req"]
    by (cases "csrf_guard req"; cases "req_user req") (auto simp: submission_ok_def)
  then show ?thesis
  proof cases
    case 1
    then show ?thesis by (simp add: handle_endpoint_update_def auth_guard_def require_auth_def)
  next
    case 2
    then show ?thesis by (cases "auth_guard req") (simp_all add: handle_endpoint_update_def)
  next
    case 3
    then show ?thesis
      by (cases "auth_guard req"; cases "csrf_guard req"; cases "get_endpoint_by_id (req_path_id req) (con_store c)";
          cases "validate_endpoint (submitted req (req_path_id req))")
         (simp_all add: handle_endpoint_update_def Let_def submitted_def)
  qed
qed

lemma update_rows:
  assumes "endpoints_ok (con_store c)"
  shows "snd (handle_endpoint_update now req c) =
    (if submission_ok req \<and> req_path_id req \<in> end_id ` set (endpoints (con_store c)) \<and> \<not> path_taken req (endpoints (con_store c))
     then c\<lparr>con_store := (con_store c)\<lparr>endpoints := update_where (\<lambda>r. end_id r = req_path_id req) (edited now req) (endpoints (con_store c))\<rparr>\<rparr>
     else c)"
proof (cases "submission_ok req")
  case False
  then show ?thesis by (simp add: update_without_leave)
next
  case True
  let ?n = "req_path_id req" and ?rows = "endpoints (con_store c)"
  obtain u s where g: "auth_guard req = Inr u" "csrf_guard req = Inr s" using True by (auto simp: submission_ok_def auth_guard_iff)
  have v: "validate_endpoint (submitted req ?n) = Inr []" and v': "validate (from_endpoint (submitted req 0)) = Inr ()"
    using True submitted_same [of req ?n] by (auto simp: submission_ok_def validate_endpoint_iff)
  show ?thesis
  proof (cases "?n \<in> end_id ` set ?rows")
    case False
    then have "find_key end_id ?n ?rows = None" by (force simp: find_key_def find_None_iff)
    then show ?thesis using False g by (auto simp: handle_endpoint_update_def get_endpoint_by_id_def)
  next
    case here: True
    then obtain old where o: "find_key end_id ?n ?rows = Some old"
      by (cases "find_key end_id ?n ?rows") (auto simp: find_key_def find_None_iff)
    then have old: "old \<in> set ?rows" "end_id old = ?n"
      using assms endpoint_table.find_key_iff [of ?rows ?n old] by (auto simp: endpoints_ok_def)
    let ?e = "(submitted req ?n)\<lparr>end_updated_at := millis now, end_created_at := end_created_at old, end_active := end_active old\<rparr>"
    have "endpoint_check (submitted req 0)" using v' validate_usable [of "from_endpoint (submitted req 0)"]
      by (simp add: row_shell_def endpoint_check_def)
    then have ck: "endpoint_check ?e" by (simp add: endpoint_check_def submitted_def form_endpoint_def)
    have one: "r \<in> set ?rows \<Longrightarrow> end_id r = ?n \<Longrightarrow> r = old" for r
      using o assms endpoint_table.find_key_iff [of ?rows ?n r] by (auto simp: endpoints_ok_def)
    have "overwrite ?e old = edited now req old"
      using old(2) by (simp add: overwrite_def edited_def submitted_def form_endpoint_def)
    then have rows: "update_where (\<lambda>r. end_id r = ?n) (overwrite ?e) ?rows = update_where (\<lambda>r. end_id r = ?n) (edited now req) ?rows"
      using one by (auto simp: update_where_def)
    have id: "end_id ?e = ?n" "end_path ?e = end_path (submitted req 0)" by (simp_all add: submitted_def form_endpoint_def)
    have "update_endpoint ?e (con_store c) =
        (if path_taken req ?rows then Inl (IntegrityErr ''UNIQUE constraint failed: endpoints.path'')
         else Inr ((con_store c)\<lparr>endpoints := update_where (\<lambda>r. end_id r = ?n) (edited now req) ?rows\<rparr>))"
      unfolding update_endpoint_def id rows path_taken_def using here ck by auto
    then show ?thesis
      using True here g v o
      by (simp add: handle_endpoint_update_def get_endpoint_by_id_def Let_def submitted_def [symmetric])
  qed
qed

text \<open>C35: which edits change a route, and how. On consistent routes, an edit changes something exactly when someone is signed in, the CSRF token
  is right, the trimmed fields make a path with a leading slash and a valid route, a route has the id of the URL, and no other one has
  the submitted path. Then that route gets the fields of the submission and the time of the request, and keeps its id, its creation time and whether it is
  active, so that saving a disabled route does not enable it; every other route stays as it is. In every other case nothing changes.\<close>

theorem endpoint_update_exact:
  assumes "endpoints_ok (con_store c)"
  shows "endpoints (con_store (snd (handle_endpoint_update now req c))) =
    (if submission_ok req \<and> req_path_id req \<in> end_id ` set (endpoints (con_store c))
        \<and> (\<forall>r \<in> set (endpoints (con_store c)). end_path r = end_path (submitted req 0) \<longrightarrow> end_id r = req_path_id req)
     then map (\<lambda>r. if end_id r = req_path_id req
                   then (submitted req 0)\<lparr>end_id := end_id r, end_active := end_active r, end_created_at := end_created_at r,
                          end_updated_at := millis now\<rparr>
                   else r) (endpoints (con_store c))
     else endpoints (con_store c))"
  unfolding update_rows [OF assms] by (auto simp: path_taken_def update_where_def edited_def)

text \<open>A disabled route moved to another path and given another upstream.\<close>

definition old_row :: Endpoint where
  "old_row = \<lparr>end_id = 1, end_path = ''/old'', end_provider = ''stripe'', end_upstream_url = ''http://v'', end_replay_window = ''5m'',
     end_secret_env = ''S'', end_webhook_id = [], end_active = False, end_created_at = 7, end_updated_at = 7\<rparr>"

theorem endpoint_update_exact_witness:
  "map (\<lambda>r. (end_path r, end_provider r, end_active r, end_created_at r)) (endpoints (con_store (snd (handle_endpoint_update
       1800000000000000 sample_submission (sample_console (empty_store\<lparr>endpoints := [old_row]\<rparr>))))))
   = [(''/hook'', ''github'', False, 7)]"
proof -
  have ok: "endpoints_ok (con_store (sample_console (empty_store\<lparr>endpoints := [old_row]\<rparr>)))"
    by (simp add: endpoints_ok_def keyed_def endpoint_check_def old_row_def sample_console_def)
  have id: "req_path_id sample_submission = 1" by (simp add: sample_submission_def)
  show ?thesis
    using endpoint_update_exact [OF ok, of 1800000000000000 sample_submission] sample_ok
    by (simp add: sample_console_def id sample_submitted) (simp add: old_row_def to_endpoint_def demo_route_def)
qed

end
