(* ===== verification/LogRoutes.thy ===== *)
theory LogRoutes
  imports Console
begin

text \<open>
  \<open>routes/logs.py\<close>: the filtered list of events and the stream that tails them. The stream is a
  generator that polls the database: its state is the cursor, one poll is \<open>stream_tick\<close>, and a run is a
  list of polls, each against the database of its moment. \<open>datetime.fromisoformat\<close> is the argument
  \<open>parse_iso\<close>, a \<open>local_reader\<close> of \<open>IsoTime\<close>.
\<close>

definition LIST_LIMIT :: nat where
  "LIST_LIMIT = 200"

definition STREAM_BATCH_LIMIT :: nat where
  "STREAM_BATCH_LIMIT = 100"

definition KEEPALIVE :: pystr where
  "KEEPALIVE = '': keepalive'' @ [CHR 0x0A, CHR 0x0A]"

definition log_row :: "Event \<Rightarrow> LogRow py" where
  "log_row e =
     py_bind (format_timestamp_ms (evt_received_at e)) (\<lambda>time.
     Inr \<lparr>lrow_id = evt_id e, lrow_time = time, lrow_provider = evt_provider e, lrow_path = evt_path e,
          lrow_verdict = evt_verdict e, lrow_reason = evt_reason e, lrow_upstream_status = evt_upstream_status e,
          lrow_latency_ms = evt_latency_ms e, lrow_body_bytes = evt_body_bytes e, lrow_body_sha256 = evt_body_sha256 e,
          lrow_remote_ip = evt_remote_ip e\<rparr>)"

section \<open>The filter\<close>

text \<open>\<open>_parse_local_datetime\<close>; the parsed time is the one \<open>replace(tzinfo=UTC)\<close> gives.\<close>

definition parse_local_datetime :: "(pystr \<Rightarrow> usec py) \<Rightarrow> pystr \<Rightarrow> int py" where
  "parse_local_datetime parse_iso s =
     (if s = [] then Inr 0
      else case parse_iso s of
        Inl e \<Rightarrow> if is_value_error e then Inr 0 else Inl e
      | Inr t \<Rightarrow> Inr (millis t))"

definition filter_from_request :: "(pystr \<Rightarrow> usec py) \<Rightarrow> (pystr \<rightharpoonup> pystr) \<Rightarrow> (EventFilter \<times> FilterView) py" where
  "filter_from_request parse_iso query =
     (let from_raw = param query ''from'' []; to_raw = param query ''to'' [] in
      py_bind (parse_local_datetime parse_iso from_raw) (\<lambda>from_ms.
      py_bind (parse_local_datetime parse_iso to_raw) (\<lambda>to_ms.
      let f = \<lparr>flt_provider = param query ''provider'' [], flt_verdict = param query ''verdict'' [],
               flt_reason = param query ''reason'' [], flt_path = param query ''path'' [],
               flt_from_ms = from_ms, flt_to_ms = to_ms\<rparr> in
      Inr (f, \<lparr>fv_provider = flt_provider f, fv_verdict = flt_verdict f, fv_reason = flt_reason f, fv_path = flt_path f,
               fv_from_value = from_raw, fv_to_value = to_raw\<rparr>))))"

definition matches :: "Event \<Rightarrow> EventFilter \<Rightarrow> bool" where
  "matches e f =
     (if flt_provider f \<noteq> [] \<and> evt_provider e \<noteq> flt_provider f then False
      else if flt_verdict f \<noteq> [] \<and> evt_verdict e \<noteq> flt_verdict f then False
      else if flt_reason f \<noteq> [] \<and> \<not> contains (flt_reason f) (evt_reason e) then False
      else if flt_path f \<noteq> [] \<and> \<not> contains (flt_path f) (evt_path e) then False
      else if flt_from_ms f \<noteq> 0 \<and> evt_received_at e < flt_from_ms f then False
      else \<not> (flt_to_ms f \<noteq> 0 \<and> flt_to_ms f < evt_received_at e))"

section \<open>The list\<close>

text \<open>The query string of the URL is passed on to the stream as it is.\<close>

definition handle_logs_list :: "(pystr \<Rightarrow> usec py) \<Rightarrow> usec \<Rightarrow> pystr \<Rightarrow> request \<Rightarrow> console \<Rightarrow> outcome" where
  "handle_logs_list parse_iso now url_query req =
     guarded (auth_guard req) req (\<lambda>_ c.
       (py_bind (filter_from_request parse_iso (req_query req)) (\<lambda>(f, view).
        py_bind (py_map log_row (list_events f LIST_LIMIT (con_store c))) (\<lambda>rows.
        let stream_url = (if url_query \<noteq> [] then ''/dashboard/logs/stream?'' @ url_query else ''/dashboard/logs/stream'') in
        render_page ''logs.html'' 200
          (page_context req (con_store c) now ''logs''
             [(''rows'', CLogs rows), (''filter'', CFilter view), (''stream_url'', CStr stream_url)]))), c))"

section \<open>The stream\<close>

definition handle_logs_stream :: "(pystr \<Rightarrow> usec py) \<Rightarrow> request \<Rightarrow> console \<Rightarrow> outcome" where
  "handle_logs_stream parse_iso req =
     guarded (auth_guard req) req (\<lambda>_ c.
       (py_bind (filter_from_request parse_iso (req_query req)) (\<lambda>(f, _).
          Inr (EventStream (latest_event_id (con_store c)) f)), c))"

definition log_row_json :: "LogRow \<Rightarrow> json" where
  "log_row_json r =
     JObj [(''id'', JInt (lrow_id r)), (''time'', JStr (lrow_time r)), (''provider'', JStr (lrow_provider r)),
           (''path'', JStr (lrow_path r)), (''verdict'', JStr (lrow_verdict r)), (''reason'', JStr (lrow_reason r)),
           (''upstream_status'', JInt (lrow_upstream_status r)), (''latency_ms'', JInt (lrow_latency_ms r)),
           (''body_bytes'', JInt (lrow_body_bytes r)), (''body_sha256'', JStr (lrow_body_sha256 r)),
           (''remote_ip'', JStr (lrow_remote_ip r))]"

text \<open>\<open>json.dumps\<close> with its default separators.\<close>

fun dumps_spaced :: "json \<Rightarrow> pystr" where
  "dumps_spaced (JList xs) = ''['' @ join_with '', '' (map dumps_spaced xs) @ '']''"
| "dumps_spaced (JObj kvs) =
     CHR 0x7B # join_with '', '' (map (\<lambda>(k, v). json_string k @ '': '' @ dumps_spaced v) kvs) @ [CHR 0x7D]"
| "dumps_spaced v = dumps v"

text \<open>One poll: the frame it yields and the cursor after it.\<close>

definition stream_frame :: "LogRow list \<Rightarrow> pystr" where
  "stream_frame payload =
     (if payload = [] then KEEPALIVE
      else ''data: '' @ dumps_spaced (JList (map log_row_json payload)) @ [CHR 0x0A, CHR 0x0A])"

definition stream_tick :: "EventFilter \<Rightarrow> int \<Rightarrow> store \<Rightarrow> pystr py \<times> int" where
  "stream_tick f cursor st =
     (let batch = events_since cursor STREAM_BATCH_LIMIT st in
      if batch = [] then (Inr KEEPALIVE, cursor)
      else (py_bind (py_map log_row (filter (\<lambda>e. matches e f) batch)) (\<lambda>payload. Inr (stream_frame payload)),
            evt_id (last batch)))"

section \<open>Polling\<close>

text \<open>A run of the generator: the frames it yields, one for each poll, and the cursor it is left with. An exception ends it.\<close>

fun stream_run :: "EventFilter \<Rightarrow> int \<Rightarrow> store list \<Rightarrow> pystr py list \<times> int" where
  "stream_run f cursor [] = ([], cursor)"
| "stream_run f cursor (st # sts) =
     (case stream_tick f cursor st of
        (Inl e, cursor') \<Rightarrow> ([Inl e], cursor')
      | (Inr frame, cursor') \<Rightarrow> (case stream_run f cursor' sts of (frames, end) \<Rightarrow> (Inr frame # frames, end)))"

text \<open>Databases that only gain events.\<close>

fun growing :: "store list \<Rightarrow> bool" where
  "growing (st # st' # sts) \<longleftrightarrow> prefix (events st) (events st') \<and> growing (st' # sts)"
| "growing _ \<longleftrightarrow> True"

lemma sort_keyed: "keyed evt_id t \<Longrightarrow> sort_key evt_id t = t"
proof -
  assume "keyed evt_id t"
  then have "sorted (map evt_id t)" by (auto simp: keyed_def strict_sorted_iff)
  then show ?thesis by (rule sort_key_id_if_sorted)
qed

definition after :: "int \<Rightarrow> Event list \<Rightarrow> Event list" where
  "after cursor t = filter (\<lambda>e. cursor < evt_id e) t"

lemma sorted_filter_drop:
  fixes k :: "'a \<Rightarrow> int"
  assumes "sorted_wrt (<) (map k xs)" "0 < n" "n \<le> length xs"
  shows "filter (\<lambda>e. k (xs ! (n - 1)) < k e) xs = drop n xs"
proof -
  have less: "i < j \<Longrightarrow> j < length xs \<Longrightarrow> k (xs ! i) < k (xs ! j)" for i j
    using assms(1) by (simp add: sorted_wrt_iff_nth_less)
  have "filter (\<lambda>e. k (xs ! (n - 1)) < k e) (take n xs) = []"
  proof (rule ccontr)
    assume "\<not> ?thesis"
    then obtain i where "i < n" "k (xs ! (n - 1)) < k (xs ! i)" using assms(3) by (auto simp: filter_empty_conv in_set_conv_nth)
    moreover from this(2) have "i \<noteq> n - 1" by auto
    ultimately have "i < n - 1" "n - 1 < length xs" using assms(2,3) by linarith+
    with less [of i "n - 1"] \<open>k (xs ! (n - 1)) < k (xs ! i)\<close> show False by linarith
  qed
  moreover have "filter (\<lambda>e. k (xs ! (n - 1)) < k e) (drop n xs) = drop n xs"
    using less assms(2,3) by (auto simp: filter_id_conv in_set_conv_nth)
  ultimately have "filter (\<lambda>e. k (xs ! (n - 1)) < k e) (take n xs @ drop n xs) = drop n xs" by (simp only: filter_append append_Nil)
  then show ?thesis by simp
qed

lemma events_since_after:
  "keyed evt_id (events st) \<Longrightarrow> events_since cursor n st = take n (after cursor (events st))"
proof -
  assume k: "keyed evt_id (events st)"
  then have "keyed evt_id (after cursor (events st))"
    using event_table.keyed_delete [OF k, of "\<lambda>e. \<not> cursor < evt_id e"] by (simp add: delete_where_def after_def)
  from sort_keyed [OF this] show ?thesis by (simp add: events_since_def after_def)
qed

lemma after_last:
  assumes "keyed evt_id t" "b = take n (after cursor t)" "b \<noteq> []" "prefix t t'" "keyed evt_id t'"
  shows "after (evt_id (last b)) t' = drop (length b) (after cursor t')"
proof -
  let ?a = "after cursor t'"
  obtain u where u: "t' = t @ u" using assms(4) by (auto simp: prefix_def)
  have b: "b = take (length b) ?a" using assms(2) by (simp add: u after_def min_def)
  have "keyed evt_id ?a"
    using event_table.keyed_delete [OF assms(5), of "\<lambda>e. \<not> cursor < evt_id e"] by (simp add: delete_where_def after_def)
  then have srt: "sorted_wrt (<) (map evt_id ?a)" by (simp add: keyed_def)
  have len: "0 < length b" "length b \<le> length ?a" using assms(3) b by (auto, metis length_take min.cobounded1)
  have last: "last b = ?a ! (length b - 1)"
    using b len by (metis diff_less last_conv_nth length_greater_0_conv nth_take zero_less_one)
  have "?a ! (length b - 1) \<in> set ?a" using len by (intro nth_mem) linarith
  then have "last b \<in> set ?a" using last by simp
  then have c: "cursor < evt_id (last b)" by (simp add: after_def)
  then have "after (evt_id (last b)) t' = filter (\<lambda>e. evt_id (last b) < evt_id e) ?a"
    by (auto simp: after_def intro!: filter_cong)
  also have "\<dots> = drop (length b) ?a" unfolding last by (rule sorted_filter_drop [OF srt len])
  finally show ?thesis .
qed

text \<open>The frame that shows a batch: a keep-alive when the filter leaves nothing of it, else one line of data, the JSON list of the rows
  of the events it leaves, in their order.\<close>

definition frame_shows :: "EventFilter \<Rightarrow> Event list \<Rightarrow> pystr py \<Rightarrow> bool" where
  "frame_shows f b frame \<longleftrightarrow>
     (\<exists>rows. list_all2 (\<lambda>e r. log_row e = Inr r) (filter (\<lambda>e. matches e f) b) rows
        \<and> frame = Inr (if rows = [] then '': keepalive'' @ [CHR 0x0A, CHR 0x0A]
                       else ''data: '' @ dumps_spaced (JList (map log_row_json rows)) @ [CHR 0x0A, CHR 0x0A]))"

definition showable :: "Event list \<Rightarrow> bool" where
  "showable es \<longleftrightarrow> (\<forall>e \<in> set es. 0 \<le> evt_received_at e \<and> evt_received_at e < 2 ^ 31 * 1000)"

lemma log_row_showable:
  assumes "showable es"
  shows "\<exists>rows. py_map log_row es = Inr rows"
  using assms
proof (induction es)
  case (Cons e es)
  then obtain rows where rows: "py_map log_row es = Inr rows" by (auto simp: showable_def)
  have t: "0 \<le> evt_received_at e" "evt_received_at e < 2 ^ 31 * 1000" using Cons.prems by (auto simp: showable_def)
  have "\<exists>time. format_timestamp_ms (evt_received_at e) = Inr time"
    using fromtimestamp_exact [OF t] by (simp add: format_timestamp_ms_def case_prod_beta Let_def)
  then obtain time where "format_timestamp_ms (evt_received_at e) = Inr time" by blast
  then have "\<exists>r. log_row e = Inr r" by (simp add: log_row_def)
  then obtain r where "log_row e = Inr r" by blast
  with rows show ?case by simp
qed simp

lemma stream_tick_shows:
  assumes "showable (events_since cursor STREAM_BATCH_LIMIT st)"
  shows "\<exists>frame. stream_tick f cursor st = (Inr frame,
      if events_since cursor STREAM_BATCH_LIMIT st = [] then cursor else evt_id (last (events_since cursor STREAM_BATCH_LIMIT st)))
    \<and> frame_shows f (events_since cursor STREAM_BATCH_LIMIT st) (Inr frame)"
proof -
  let ?b = "events_since cursor STREAM_BATCH_LIMIT st"
  have "showable (filter (\<lambda>e. matches e f) ?b)" using assms by (auto simp: showable_def)
  then obtain rows where rows: "py_map log_row (filter (\<lambda>e. matches e f) ?b) = Inr rows" using log_row_showable by blast
  then have "frame_shows f ?b (Inr (stream_frame rows))"
    unfolding frame_shows_def by (intro exI [of _ rows]) (simp add: py_map_Inr stream_frame_def KEEPALIVE_def)
  moreover have "?b = [] \<Longrightarrow> rows = []" using rows by simp
  ultimately show ?thesis
    using rows by (auto simp: stream_tick_def Let_def stream_frame_def)
qed

text \<open>What the polls take from the database, poll by poll.\<close>

fun polled :: "int \<Rightarrow> store list \<Rightarrow> Event list list \<times> int" where
  "polled cursor [] = ([], cursor)"
| "polled cursor (st # sts) =
     (let b = events_since cursor STREAM_BATCH_LIMIT st in
      case polled (if b = [] then cursor else evt_id (last b)) sts of (bs, end) \<Rightarrow> (b # bs, end))"

lemma stream_run_polled:
  "\<forall>st \<in> set sts. showable (events st) \<Longrightarrow>
     snd (stream_run f cursor sts) = snd (polled cursor sts)
     \<and> list_all2 (frame_shows f) (fst (polled cursor sts)) (fst (stream_run f cursor sts))"
proof (induction sts arbitrary: cursor)
  case (Cons st sts)
  let ?b = "events_since cursor STREAM_BATCH_LIMIT st"
  have "set ?b \<subseteq> set (events st)" by (auto simp: events_since_def dest!: in_set_takeD)
  then have "showable ?b" using Cons.prems by (auto simp: showable_def)
  from stream_tick_shows [OF this, of f] obtain frame where
    t: "stream_tick f cursor st = (Inr frame, if ?b = [] then cursor else evt_id (last ?b))" "frame_shows f ?b (Inr frame)" by blast
  from t Cons.IH [of "if ?b = [] then cursor else evt_id (last ?b)"] Cons.prems show ?case
    by (simp add: Let_def case_prod_beta)
qed simp

text \<open>While the log only gains events the polls take, one after another, what comes after the starting cursor.\<close>

lemma polled_in_order:
  assumes "growing (st # sts)" "list_all (\<lambda>s. keyed evt_id (events s)) (st # sts)"
  shows "(case polled cursor (st # sts) of (bs, cursor') \<Rightarrow>
      concat bs = take (length (concat bs)) (after cursor (events (last (st # sts))))
      \<and> after cursor' (events (last (st # sts))) = drop (length (concat bs)) (after cursor (events (last (st # sts))))
      \<and> list_all (\<lambda>b. length b \<le> STREAM_BATCH_LIMIT) bs
      \<and> (length (last bs) < STREAM_BATCH_LIMIT \<longrightarrow> after cursor' (events (last (st # sts))) = []))"
  using assms
proof (induction sts arbitrary: st cursor)
  case Nil
  let ?b = "take STREAM_BATCH_LIMIT (after cursor (events st))"
  have b: "events_since cursor STREAM_BATCH_LIMIT st = ?b" using Nil.prems by (simp add: events_since_after)
  have "after (if ?b = [] then cursor else evt_id (last ?b)) (events st) = drop (length ?b) (after cursor (events st))"
    using after_last [of "events st" ?b STREAM_BATCH_LIMIT cursor "events st"] Nil.prems by auto
  then show ?case
    by (auto simp: b Let_def min_def split: if_splits)
next
  case (Cons st' sts)
  let ?b = "take STREAM_BATCH_LIMIT (after cursor (events st))" and ?t = "events (last (st' # sts))"
  let ?c = "if ?b = [] then cursor else evt_id (last ?b)"
  have pre: "prefix (events st) ?t"
  proof -
    have "growing (s # ss) \<Longrightarrow> prefix (events s) (events (last (s # ss)))" for s ss
    proof (induction ss arbitrary: s)
      case (Cons s' ss)
      then have "prefix (events s) (events s')" "prefix (events s') (events (last (s' # ss)))" by simp_all
      then have "prefix (events s) (events (last (s' # ss)))" by (rule prefix_order.trans)
      then show ?case by simp
    qed simp
    from this [OF Cons.prems(1)] show ?thesis by simp
  qed
  have kt: "keyed evt_id ?t" using Cons.prems(2) by (auto simp: list_all_iff)
  have b: "events_since cursor STREAM_BATCH_LIMIT st = ?b" using Cons.prems by (simp add: events_since_after)
  have next_after: "after ?c ?t = drop (length ?b) (after cursor ?t)"
    using after_last [OF _ refl _ pre kt, of STREAM_BATCH_LIMIT cursor] Cons.prems(2) by auto
  have btake: "?b = take (length ?b) (after cursor ?t)"
    using pre by (auto simp: prefix_def after_def min_def)
  obtain bs c' where run: "polled ?c (st' # sts) = (bs, c')" by (cases "polled ?c (st' # sts)")
  have IH: "concat bs = take (length (concat bs)) (after ?c ?t)" "after c' ?t = drop (length (concat bs)) (after ?c ?t)"
    "list_all (\<lambda>b. length b \<le> STREAM_BATCH_LIMIT) bs" "length (last bs) < STREAM_BATCH_LIMIT \<longrightarrow> after c' ?t = []"
    using Cons.IH [of st' ?c] Cons.prems run by auto
  have ne: "bs \<noteq> []" using run by (auto simp: Let_def split: prod.splits)
  have "?b @ concat bs = take (length ?b + length (concat bs)) (after cursor ?t)"
    using btake IH(1) next_after by (metis take_add)
  moreover have "after c' ?t = drop (length ?b + length (concat bs)) (after cursor ?t)"
    using IH(2) next_after by (simp add: add.commute)
  moreover have run2: "polled cursor (st # st' # sts) = (?b # bs, c')"
    by (subst polled.simps) (simp only: b run prod.case Let_def)
  moreover have last2: "last (st # st' # sts) = last (st' # sts)" "last (?b # bs) = last bs" using ne by simp_all
  moreover have "list_all (\<lambda>b. length b \<le> STREAM_BATCH_LIMIT) (?b # bs)" using IH(3) by simp
  ultimately show ?case unfolding run2 last2 prod.case concat.simps length_append using IH(4) by blast
qed

text \<open>C36: while the log only gains events, which is so between two prunes (\<open>stream_misses_reused_ids\<close> shows what a prune of the newest rows
  does), the tail loses nothing and repeats nothing. Over any run of polls of such a log, with times before 2038, the stream yields one frame for each poll, and
  each shows a batch: the batches put together are an initial stretch of the events after the starting cursor, in order and
  each once, and the cursor is at its end. No batch has more than a hundred events, and a run whose last one has fewer
  has caught up with the log. A frame is the JSON of exactly the events of its batch that pass the filter, or a keep-alive if there are none.\<close>

theorem stream_in_order:
  assumes "growing (st # sts)" "list_all (\<lambda>s. keyed evt_id (events s)) (st # sts)"
    and "\<forall>e \<in> set (events (last (st # sts))). 0 \<le> evt_received_at e \<and> evt_received_at e < 2 ^ 31 * 1000"
  shows "\<exists>bs. list_all2 (frame_shows f) bs (fst (stream_run f cursor (st # sts)))
      \<and> length bs = length (st # sts)
      \<and> concat bs = take (length (concat bs)) (after cursor (events (last (st # sts))))
      \<and> after (snd (stream_run f cursor (st # sts))) (events (last (st # sts))) = drop (length (concat bs)) (after cursor (events (last (st # sts))))
      \<and> list_all (\<lambda>b. length b \<le> 100) bs
      \<and> (length (last bs) < 100 \<longrightarrow> after (snd (stream_run f cursor (st # sts))) (events (last (st # sts))) = [])"
proof -
  have "growing ss \<Longrightarrow> s \<in> set ss \<Longrightarrow> set (events s) \<subseteq> set (events (last ss))" for s ss
  proof (induction ss arbitrary: s rule: growing.induct)
    case (1 u v us)
    then have "set (events u) \<subseteq> set (events v)" "set (events v) \<subseteq> set (events (last (v # us)))"
      "s \<noteq> u \<Longrightarrow> set (events s) \<subseteq> set (events (last (v # us)))" by (auto dest: set_mono_prefix)
    then show ?case by (cases "s = u") auto
  qed auto
  from this [OF assms(1)] have sh: "\<forall>s \<in> set (st # sts). showable (events s)" using assms(3) unfolding showable_def by blast
  have len: "length (fst (polled cursor ss)) = length ss" for cursor ss
    by (induction ss arbitrary: cursor) (simp_all add: Let_def case_prod_beta)
  note r = stream_run_polled [OF sh, of f cursor]
  note o = polled_in_order [OF assms(1,2), of cursor, unfolded case_prod_beta]
  show ?thesis
    unfolding r [THEN conjunct1]
    using r [THEN conjunct2] len [of cursor "st # sts"] o [unfolded STREAM_BATCH_LIMIT_def] by blast
qed


definition sample_event :: "int \<Rightarrow> pystr \<Rightarrow> Event" where
  "sample_event n reason = \<lparr>evt_id = n, evt_received_at = 1800000000000, evt_path = ''/hook'', evt_provider = ''stripe'',
     evt_verdict = ''rejected'', evt_reason = reason, evt_upstream_status = 0, evt_latency_ms = 1, evt_body_bytes = 2,
     evt_body_sha256 = [], evt_remote_ip = []\<rparr>"

definition any_filter :: EventFilter where
  "any_filter = \<lparr>flt_provider = [], flt_verdict = [], flt_reason = [], flt_path = [], flt_from_ms = 0, flt_to_ms = 0\<rparr>"

definition sample_log :: "Event list \<Rightarrow> store" where
  "sample_log es = empty_store\<lparr>events := es\<rparr>"

theorem stream_in_order_witness:
  "\<exists>row. log_row (sample_event 2 []) = Inr row
     \<and> fst (stream_run any_filter 1 [sample_log [sample_event 1 [], sample_event 2 []]])
       = [Inr (''data: '' @ dumps_spaced (JList [log_row_json row]) @ [CHR 0x0A, CHR 0x0A])]"
proof -
  let ?st = "sample_log [sample_event 1 [], sample_event 2 []]" and ?e = "sample_event 2 []"
  have g: "growing [?st]" "list_all (\<lambda>s. keyed evt_id (events s)) [?st]"
    "\<forall>e \<in> set (events (last [?st])). 0 \<le> evt_received_at e \<and> evt_received_at e < 2 ^ 31 * 1000"
    by (simp_all add: sample_log_def keyed_def sample_event_def)
  have a: "after 1 (events (last [?st])) = [?e]" by (simp add: after_def sample_log_def sample_event_def)
  have m: "matches ?e any_filter" by (simp add: matches_def any_filter_def)
  from stream_in_order [OF g, of any_filter 1, unfolded a] obtain bs where
    bs: "list_all2 (frame_shows any_filter) bs (fst (stream_run any_filter 1 [?st]))" "length bs = length [?st]"
      "concat bs = take (length (concat bs)) [?e]"
      "after (snd (stream_run any_filter 1 [?st])) (events (last [?st])) = drop (length (concat bs)) [?e]"
      "length (last bs) < 100 \<longrightarrow> after (snd (stream_run any_filter 1 [?st])) (events (last [?st])) = []" by blast
  then obtain b where b: "bs = [b]" by (cases bs) auto
  have "length b \<le> 1" using bs(3) b by (metis concat.simps(1,2) append_Nil2 length_take min.cobounded1 length_Cons list.size(3) One_nat_def)
  then have "drop (length b) [?e] = []" using bs(4,5) b by simp
  then have "b = [?e]" using bs(3) b by (metis concat.simps(1,2) append_Nil2 append_take_drop_id)
  then have "list_all2 (frame_shows any_filter) [[?e]] (fst (stream_run any_filter 1 [?st]))" using bs(1) b by simp
  then obtain frame where "fst (stream_run any_filter 1 [?st]) = [frame]" "frame_shows any_filter [?e] frame"
    by (auto simp: list_all2_Cons1)
  then show ?thesis using m by (auto simp: frame_shows_def list_all2_Cons1)
qed

section \<open>The two filters\<close>

definition folded :: "pystr \<Rightarrow> bool" where
  "folded s \<longleftrightarrow> ascii_fold s = s"

lemma matches_iff:
  assumes "0 \<le> flt_from_ms f" "0 \<le> flt_to_ms f"
  shows "matches e f \<longleftrightarrow>
     (flt_provider f \<noteq> [] \<longrightarrow> evt_provider e = flt_provider f)
     \<and> (flt_verdict f \<noteq> [] \<longrightarrow> evt_verdict e = flt_verdict f)
     \<and> (flt_reason f \<noteq> [] \<longrightarrow> contains (flt_reason f) (evt_reason e))
     \<and> (flt_path f \<noteq> [] \<longrightarrow> contains (flt_path f) (evt_path e))
     \<and> (0 < flt_from_ms f \<longrightarrow> flt_from_ms f \<le> evt_received_at e)
     \<and> (0 < flt_to_ms f \<longrightarrow> evt_received_at e \<le> flt_to_ms f)"
  using assms by (simp add: matches_def not_less) linarith

text \<open>What the tail shows, the list would show. With no negative bound, an event that passes the stream's
  filter passes the SQL filter of the page, and the two agree when the texts searched and the values
  searched for hold no capital ASCII letter. (SQL's \<open>LIKE\<close> ignores the case of those letters, Python's
  \<open>in\<close> does not.)\<close>

theorem stream_filter_agrees:
  assumes "0 \<le> flt_from_ms f" "0 \<le> flt_to_ms f"
  shows "(matches e f \<longrightarrow> event_matches f e)
    \<and> (folded (flt_reason f) \<and> folded (flt_path f) \<and> folded (evt_reason e) \<and> folded (evt_path e)
        \<longrightarrow> (matches e f \<longleftrightarrow> event_matches f e))"
proof -
  have fold: "contains (ascii_fold v) (ascii_fold s)" if "contains v s" for v s
    using that unfolding contains_iff ascii_fold_def by (metis map_append)
  have l: "like (''%'' @ like_escape v @ ''%'') s \<longleftrightarrow> contains (ascii_fold v) (ascii_fold s)" for v s
    using like_pattern_contains by (simp only: like_pattern_def)
  show ?thesis
    unfolding matches_iff [OF assms] event_matches_def l folded_def
    using fold [of "flt_reason f" "evt_reason e"] fold [of "flt_path f" "evt_path e"] by (intro conjI impI; simp)
qed

theorem stream_filter_agrees_witness:
  "matches (sample_event 1 ''stale timestamp'') (any_filter\<lparr>flt_reason := ''stale''\<rparr>)
   \<and> event_matches (any_filter\<lparr>flt_reason := ''stale''\<rparr>) (sample_event 1 ''stale timestamp'')"
proof -
  let ?f = "any_filter\<lparr>flt_reason := ''stale''\<rparr>" and ?e = "sample_event 1 ''stale timestamp''"
  have "matches ?e ?f" by (simp add: matches_def any_filter_def sample_event_def)
  then show ?thesis using stream_filter_agrees [of ?f ?e] by (simp add: any_filter_def)
qed

text \<open>Where they differ: a capital letter in the search, and a bound before 1970.\<close>

lemma stream_filter_case:
  "event_matches (any_filter\<lparr>flt_reason := ''Stale''\<rparr>) (sample_event 1 ''stale timestamp'')
   \<and> \<not> matches (sample_event 1 ''stale timestamp'') (any_filter\<lparr>flt_reason := ''Stale''\<rparr>)"
  by code_simp

lemma stream_filter_negative:
  "event_matches (any_filter\<lparr>flt_to_ms := -1\<rparr>) (sample_event 1 []) \<and> \<not> matches (sample_event 1 []) (any_filter\<lparr>flt_to_ms := -1\<rparr>)"
  by (simp add: event_matches_def any_filter_def sample_event_def matches_def)

text \<open>A prune of the newest rows lets their keys be used again, below the cursor of an open tail: the tail never
  shows those events.\<close>

lemma stream_misses_reused_ids:
  "events_since 2 STREAM_BATCH_LIMIT (sample_log [sample_event 1 []]) = []
   \<and> (\<exists>st'. insert_event_row (sample_event 0 ''new'') (snd (delete_events_older_than 1900000000000
         (sample_log [sample_event 1 [], sample_event 2 []]))) = Inr st'
       \<and> map evt_reason (events st') = [''new''] \<and> events_since 2 STREAM_BATCH_LIMIT st' = [])"
  by (simp add: events_since_def sample_log_def sample_event_def insert_event_row_def fits_sql_def delete_events_older_than_def
      delete_where_def append_row_def next_id_def)

lemma handle_logs_snd [simp]: "snd (handle_logs_list parse_iso now q req c) = c" "snd (handle_logs_stream parse_iso req c) = c"
  by (auto simp: handle_logs_list_def handle_logs_stream_def guarded_def split: sum.split)

end
