(* ===== verification/Retention.thy ===== *)
theory Retention
  imports Console
begin

text \<open>
  \<open>retention.py\<close>: the sweep that deletes old events, and the job that runs it at startup and once per
  interval, pruning the rate limiters with it. The job is modelled by its clock: the list of the times at
  which it runs until it is stopped; its task is in \<open>BackgroundTasks\<close>. \<open>timedelta\<close> and the subtraction of dates raise outside their ranges.
\<close>

definition DEFAULT_INTERVAL :: usec where
  "DEFAULT_INTERVAL = DAY_US"

text \<open>\<open>now - timedelta(days=days)\<close>.\<close>

definition days_before :: "usec \<Rightarrow> int \<Rightarrow> usec py" where
  "days_before now days =
     (if days < -999999999 \<or> 999999999 < days then Inl OverflowErr
      else let cutoff = now - days * DAY_US in
        if year_of cutoff < 1 \<or> 9999 < year_of cutoff then Inl OverflowErr else Inr cutoff)"

definition sweep :: "store \<Rightarrow> usec \<Rightarrow> int py \<times> store" where
  "sweep st now =
     (case days_before now (get_retention_days st) of
        Inl e \<Rightarrow> (Inl e, st)
      | Inr cutoff \<Rightarrow> (case delete_events_older_than (millis cutoff) st of (n, st') \<Rightarrow> (Inr n, st')))"

text \<open>\<open>_sweep_and_log\<close>: every exception is logged and counts as nothing deleted.\<close>

definition sweep_and_log :: "store \<Rightarrow> usec \<Rightarrow> int \<times> store" where
  "sweep_and_log st now = (case sweep st now of (Inl _, st') \<Rightarrow> (0, st') | (Inr n, st') \<Rightarrow> (n, st'))"

definition run_once :: "usec \<Rightarrow> console \<Rightarrow> int \<times> console" where
  "run_once now c =
     (case sweep_and_log (con_store c) now of
        (deleted, st) \<Rightarrow>
          (deleted, c\<lparr>con_store := st, con_login := prune now (con_login c), con_signup := prune now (con_signup c)\<rparr>))"

text \<open>\<open>_run\<close>: one sweep at the start and one per interval that passes before the stop event.\<close>

fun retention_run :: "usec list \<Rightarrow> console \<Rightarrow> console" where
  "retention_run [] c = c"
| "retention_run (now # rest) c = retention_run rest (snd (run_once now c))"

section \<open>Facts\<close>

lemma sweep_frame:
  "users (snd (sweep st now)) = users st" "sessions (snd (sweep st now)) = sessions st"
  "endpoints (snd (sweep st now)) = endpoints st" "rollups (snd (sweep st now)) = rollups st"
  "settings (snd (sweep st now)) = settings st" "auth_events (snd (sweep st now)) = auth_events st"
  by (auto simp: sweep_def delete_events_older_than_def split: sum.split)

lemma sweep_and_log_snd [simp]: "snd (sweep_and_log st now) = snd (sweep st now)"
  by (auto simp: sweep_and_log_def split: prod.split sum.split)

lemma run_once_store [simp]: "con_store (snd (run_once now c)) = snd (sweep (con_store c) now)"
  using sweep_and_log_snd [of "con_store c" now]
  by (auto simp: run_once_def simp del: sweep_and_log_snd split: prod.split)

lemma get_retention_days_frame: "settings st' = settings st \<Longrightarrow> get_retention_days st' = get_retention_days st"
  by (simp add: get_retention_days_def get_setting_def)

text \<open>What the retention setting was set to is what the next sweep reads.\<close>

lemma get_set_retention_days:
  "length (show_int days) \<le> max_str_digits \<Longrightarrow> get_retention_days (set_retention_days days st) = days"
  by (simp add: get_retention_days_def set_retention_days_def get_setting_def set_setting_def py_int_show_int)

text \<open>C37: a sweep deletes what is older than the retention window and nothing else. With a retention of \<open>days\<close> days
  (and the cutoff in the years the clock's milliseconds are exact for), the events kept are, in order,
  those received no more than that long ago, to the millisecond; the number returned is the number deleted; accounts, sessions,
  routes, settings, the security log and the rollups stay as they are.\<close>

theorem sweep_exact:
  assumes "get_retention_days st = days" "0 \<le> days" "now < 2 ^ 31 * 1000000" "1099511628 * 1000000 \<le> now - days * DAY_US"
  shows "sweep st now =
    (Inr (int (length (filter (\<lambda>e. evt_received_at e < (now - days * DAY_US) div 1000) (events st)))),
     st\<lparr>events := filter (\<lambda>e. (now - days * DAY_US) div 1000 \<le> evt_received_at e) (events st)\<rparr>)"
proof -
  define cut where cut: "cut = now - days * DAY_US"
  have v: "DAY_US = 86400000000" by (simp add: DAY_US_def)
  have up: "cut < 2 ^ 31 * 1000000" using assms(2,3) mult_nonneg_nonneg [of days DAY_US] v cut by linarith
  have low: "1099511628 * 1000000 \<le> cut" using assms(4) by (simp add: cut)
  have m: "millis cut = cut div 1000" by (rule millis_exact [OF low up])
  have "cut div 86400000000 \<le> 2147483648000000 div 86400000000" using up by (intro zdiv_mono1) simp_all
  then have d: "0 \<le> cut div DAY_US" "cut div DAY_US < 24856" using low unfolding v by simp_all
  then have "1 \<le> year_of cut" "year_of cut \<le> (cut div DAY_US + EPOCH_DAYS) div 365 + 1"
    using year_bounds [of "cut div DAY_US + EPOCH_DAYS"] by (simp_all add: year_of_def EPOCH_DAYS_def)
  moreover have "(cut div DAY_US + EPOCH_DAYS) div 365 \<le> 2038" using d unfolding EPOCH_DAYS_def by linarith
  moreover have "now < 2147483648000000" "1099511628000000 \<le> cut" using assms(3) low by simp_all
  then have "days \<le> 999999999" using cut unfolding v by linarith
  ultimately have "days_before now days = Inr cut" using assms(2) by (simp add: days_before_def Let_def cut [symmetric])
  then show ?thesis
    by (simp add: sweep_def assms(1) m delete_events_older_than_def delete_where_def not_less cut [symmetric])
qed

definition old_event :: "int \<Rightarrow> Event" where
  "old_event t = \<lparr>evt_id = t, evt_received_at = t, evt_path = [], evt_provider = [], evt_verdict = ''accepted'', evt_reason = [],
     evt_upstream_status = 0, evt_latency_ms = 0, evt_body_bytes = 0, evt_body_sha256 = [], evt_remote_ip = []\<rparr>"

theorem sweep_exact_witness:
  "fst (sweep (empty_store\<lparr>events := [old_event 1700000000000, old_event 1799000000000]\<rparr>) 1800000000000000) = Inr 1"
proof -
  let ?st = "empty_store\<lparr>events := [old_event 1700000000000, old_event 1799000000000]\<rparr>"
  have "get_retention_days ?st = 30" by (simp add: get_retention_days_def get_setting_def empty_store_def DEFAULT_RETENTION_DAYS_def)
  from sweep_exact [OF this, of 1800000000000000] show ?thesis by (simp add: DAY_US_def old_event_def)
qed

text \<open>pruning does not change the trend. Over any run of the retention job, the counts and rates of every window, the
  hourly chart and the statistics of every provider are what they were without it.\<close>

lemma retention_keeps_trend:
  "sum_accepted (summary_window now hours (con_store (retention_run ticks c))) = sum_accepted (summary_window now hours (con_store c))
   \<and> sum_rejected (summary_window now hours (con_store (retention_run ticks c))) = sum_rejected (summary_window now hours (con_store c))
   \<and> sum_accept_rate (summary_window now hours (con_store (retention_run ticks c))) = sum_accept_rate (summary_window now hours (con_store c))
   \<and> hourly_counts_window now hours (con_store (retention_run ticks c)) = hourly_counts_window now hours (con_store c)
   \<and> provider_stats_window now hours (con_store (retention_run ticks c)) = provider_stats_window now hours (con_store c)"
proof -
  have r: "rollups (con_store (retention_run ticks c)) = rollups (con_store c)"
    by (induction ticks arbitrary: c) (simp_all add: sweep_frame)
  then have "sum_buckets P (con_store (retention_run ticks c)) = sum_buckets P (con_store c)" for P
    by (simp add: sum_buckets_def)
  then show ?thesis
    using r by (simp add: summary_window_def hourly_counts_window_def provider_stats_window_def Let_def fun_eq_iff)
qed

text \<open>A retention of a billion days, which the settings page accepts, makes every sweep raise and delete nothing.\<close>

lemma huge_retention_never_sweeps:
  assumes "get_retention_days st = 10 ^ 9"
  shows "sweep st now = (Inl OverflowErr, st) \<and> sweep_and_log st now = (0, st)"
  using assms by (simp add: sweep_def days_before_def sweep_and_log_def)

lemma sweep_accounts_ok: "accounts_ok st \<Longrightarrow> accounts_ok (snd (sweep st now))"
  by (simp add: accounts_ok_def sweep_frame)

end
