(* ===== verification/Ingest.thy ===== *)
theory Ingest
  imports Batcher CoreEvents GatewaySig GatewayRoute
begin

text \<open>
  \<open>ingest.py\<close>, \<open>routes/api.py\<close> and \<open>VerifyEvent.from_json_dict\<close>: the route the gateway posts
  its verdicts to. Readers of JSON text and ISO timestamps are arguments (\<open>loads\<close>, with the error
  \<open>json.loads\<close> raises, and \<open>parse_ts\<close>); \<open>WireFormat\<close> puts in the ones of \<open>JsonRead\<close> and \<open>IsoTime\<close>. The model covers the objects whose fields have the JSON
  types of the wire contract; a field of another type is \<open>OtherErr\<close> here, where Python would carry
  the value on.
\<close>

definition EXPECTED_PROVIDER :: pystr where
  "EXPECTED_PROVIDER = INGEST_PROVIDER_LABEL"

definition check_provider_header :: "pystr \<Rightarrow> unit py" where
  "check_provider_header got =
     (if got \<noteq> EXPECTED_PROVIDER then Inl (IngestErr ''unexpected provider header'') else Inr ())"

definition ingest_verify :: "bytes \<Rightarrow> bytes \<Rightarrow> pystr \<Rightarrow> unit py" where
  "ingest_verify secret body signature =
     (case verify secret EXPECTED_PROVIDER body signature of
        Inl (GatewaySignatureErr m) \<Rightarrow> Inl (IngestErr m) | r \<Rightarrow> r)"

section \<open>Decoding\<close>

definition json_get :: "(pystr \<times> json) list \<Rightarrow> pystr \<Rightarrow> json \<Rightarrow> json" where
  "json_get data k d = (case map_of data k of None \<Rightarrow> d | Some v \<Rightarrow> v)"

fun as_str :: "json \<Rightarrow> pystr py" where
  "as_str (JStr s) = Inr s"
| "as_str _ = Inl (OtherErr ''not a string'')"

fun as_int :: "json \<Rightarrow> int py" where
  "as_int (JInt n) = Inr n"
| "as_int _ = Inl (OtherErr ''not an integer'')"

definition from_json_dict :: "(pystr \<Rightarrow> usec py) \<Rightarrow> (pystr \<times> json) list \<Rightarrow> VerifyEvent py" where
  "from_json_dict parse_ts data =
     (case map_of data ''ts'' of
        None \<Rightarrow> Inl (OtherErr ''KeyError'')
      | Some (JStr s) \<Rightarrow>
          py_bind (parse_ts s) (\<lambda>ts.
          py_bind (as_str (json_get data ''path'' (JStr []))) (\<lambda>path.
          py_bind (as_str (json_get data ''provider'' (JStr []))) (\<lambda>provider.
          py_bind (as_str (json_get data ''verdict'' (JStr []))) (\<lambda>verdict.
          py_bind (as_str (json_get data ''reason'' (JStr []))) (\<lambda>reason.
          py_bind (as_int (json_get data ''upstream_status'' (JInt 0))) (\<lambda>upstream_status.
          py_bind (as_int (json_get data ''latency_ms'' (JInt 0))) (\<lambda>latency_ms.
          py_bind (as_int (json_get data ''body_bytes'' (JInt 0))) (\<lambda>body_bytes.
          py_bind (as_str (json_get data ''body_sha256'' (JStr []))) (\<lambda>body_sha256.
          py_bind (as_str (json_get data ''remote_ip'' (JStr []))) (\<lambda>remote_ip.
            Inr \<lparr>ev_timestamp = ts, ev_path = path, ev_provider = provider, ev_verdict = verdict,
                 ev_reason = reason, ev_upstream_status = upstream_status, ev_latency_ms = latency_ms,
                 ev_body_bytes = body_bytes, ev_body_sha256 = body_sha256, ev_remote_ip = remote_ip\<rparr>))))))))))
      | Some _ \<Rightarrow> Inl TypeErr)"

definition decode :: "(bytes \<Rightarrow> pystr + json) \<Rightarrow> (pystr \<Rightarrow> usec py) \<Rightarrow> bytes \<Rightarrow> VerifyEvent py" where
  "decode loads parse_ts body =
     (case loads body of
        Inl m \<Rightarrow> Inl (IngestErr (''malformed event JSON: '' @ m))
      | Inr (JObj data) \<Rightarrow>
          (case from_json_dict parse_ts data of
             Inl e \<Rightarrow>
               if e = OtherErr ''KeyError'' \<or> e = TypeErr \<or> is_value_error e
               then Inl (IngestErr (''malformed event: '' @ exn_message e)) else Inl e
           | Inr event \<Rightarrow> Inr event)
      | Inr _ \<Rightarrow> Inl (IngestErr ''event must be a JSON object''))"

definition to_row :: "VerifyEvent \<Rightarrow> Event" where
  "to_row event =
     \<lparr>evt_id = 0, evt_received_at = millis (ev_timestamp event), evt_path = ev_path event,
      evt_provider = ev_provider event, evt_verdict = ev_verdict event, evt_reason = ev_reason event,
      evt_upstream_status = ev_upstream_status event, evt_latency_ms = ev_latency_ms event,
      evt_body_bytes = ev_body_bytes event, evt_body_sha256 = ev_body_sha256 event,
      evt_remote_ip = ev_remote_ip event\<rparr>"

section \<open>The route\<close>

datatype ingest_response = Unauthorized401 | Malformed400 | Accepted202

definition handle_ingest ::
  "(bytes \<Rightarrow> pystr + json) \<Rightarrow> (pystr \<Rightarrow> usec py) \<Rightarrow> bytes \<Rightarrow> headers \<Rightarrow> bytes \<Rightarrow> batcher option
     \<Rightarrow> ingest_response py \<times> batcher option" where
  "handle_ingest loads parse_ts internal_secret headers body batcher =
     (case py_bind (check_provider_header (case headers PROVIDER_HEADER of None \<Rightarrow> [] | Some v \<Rightarrow> v))
             (\<lambda>_. ingest_verify internal_secret body (case headers HEADER of None \<Rightarrow> [] | Some v \<Rightarrow> v)) of
        Inl (IngestErr _) \<Rightarrow> (Inr Unauthorized401, batcher)
      | Inl e \<Rightarrow> (Inl e, batcher)
      | Inr _ \<Rightarrow>
          case decode loads parse_ts body of
            Inl (IngestErr _) \<Rightarrow> (Inr Malformed400, batcher)
          | Inl e \<Rightarrow> (Inl e, batcher)
          | Inr event \<Rightarrow> (Inr Accepted202, map_option (\<lambda>b. enqueue b (to_row event)) batcher))"

section \<open>Facts\<close>

definition ingest_authentic :: "bytes \<Rightarrow> headers \<Rightarrow> bytes \<Rightarrow> bool" where
  "ingest_authentic secret headers body \<longleftrightarrow>
     headers PROVIDER_HEADER = Some INGEST_PROVIDER_LABEL
     \<and> py_lower (case headers HEADER of None \<Rightarrow> [] | Some v \<Rightarrow> v) = sign secret INGEST_PROVIDER_LABEL body"

lemma ingest_checks:
  "py_bind (check_provider_header (case headers PROVIDER_HEADER of None \<Rightarrow> [] | Some v \<Rightarrow> v))
     (\<lambda>_. ingest_verify secret body (case headers HEADER of None \<Rightarrow> [] | Some v \<Rightarrow> v))
   = (if ingest_authentic secret headers body then Inr ()
      else Inl (IngestErr (if headers PROVIDER_HEADER \<noteq> Some INGEST_PROVIDER_LABEL then ''unexpected provider header''
        else case verify secret INGEST_PROVIDER_LABEL body (case headers HEADER of None \<Rightarrow> [] | Some v \<Rightarrow> v) of
          Inl (GatewaySignatureErr m) \<Rightarrow> m | _ \<Rightarrow> [])))"
proof -
  let ?s = "case headers HEADER of None \<Rightarrow> [] | Some v \<Rightarrow> v"
  have label: "INGEST_PROVIDER_LABEL \<noteq> []" by (simp add: INGEST_PROVIDER_LABEL_def)
  have v: "verify secret INGEST_PROVIDER_LABEL body ?s = Inr () \<longleftrightarrow> py_lower ?s = sign secret INGEST_PROVIDER_LABEL body"
    by (rule verify_accepts_only_sign)
  show ?thesis
    using label v verify_errors [of secret INGEST_PROVIDER_LABEL body ?s]
    by (cases "headers PROVIDER_HEADER"; cases "verify secret INGEST_PROVIDER_LABEL body ?s")
       (auto simp: check_provider_header_def ingest_verify_def EXPECTED_PROVIDER_def ingest_authentic_def)
qed

text \<open>C17: on a console whose \<open>INTERNAL_SECRET\<close> is set, nothing but an authentic, well-formed event is queued. The ingest route changes the batcher only
  when the provider header is the feed's label, the signature is the gateway's MAC of that label and
  the exact body under the console's secret, and the body decodes; then it queues exactly the row of the
  decoded event. A request that is not authentic gets 401 whatever its body.\<close>

theorem ingest_only_authentic:
  assumes "secret \<noteq> []"
  shows "snd (handle_ingest loads parse_ts secret headers body (Some b)) =
     Some (case decode loads parse_ts body of
         Inl _ \<Rightarrow> b | Inr event \<Rightarrow> if ingest_authentic secret headers body then enqueue b (to_row event) else b)
   \<and> (fst (handle_ingest loads parse_ts secret headers body (Some b)) = Inr Unauthorized401 \<longleftrightarrow>
        \<not> ingest_authentic secret headers body)"
  unfolding handle_ingest_def ingest_checks by (auto split: sum.split pyexn.split)

theorem ingest_only_authentic_witness:
  "\<exists>event. snd (handle_ingest (\<lambda>_. Inr (JObj [(''ts'', JStr ''2023-11-14T22:13:20Z''), (''verdict'', JStr ''accepted'')]))
      (\<lambda>_. Inr 1700000000000000) [7] [PROVIDER_HEADER \<mapsto> INGEST_PROVIDER_LABEL, HEADER \<mapsto> sign [7] INGEST_PROVIDER_LABEL [0x7B, 0x7D]]
      [0x7B, 0x7D] (Some new_batcher)) = Some (enqueue new_batcher (to_row event)) \<and> ev_timestamp event = 1700000000000000"
proof -
  let ?loads = "\<lambda>_. Inr (JObj [(''ts'', JStr ''2023-11-14T22:13:20Z''), (''verdict'', JStr ''accepted'')])"
  let ?h = "[PROVIDER_HEADER \<mapsto> INGEST_PROVIDER_LABEL, HEADER \<mapsto> sign [7] INGEST_PROVIDER_LABEL [0x7B, 0x7D]]"
  obtain event where e: "decode ?loads (\<lambda>_. Inr 1700000000000000) [0x7B, 0x7D] = Inr event" "ev_timestamp event = 1700000000000000"
    by (simp add: decode_def from_json_dict_def json_get_def)
  have "ingest_authentic [7] ?h [0x7B, 0x7D]"
    by (simp add: ingest_authentic_def PROVIDER_HEADER_def HEADER_def sign_def)
  then show ?thesis
    using ingest_only_authentic [of "[7]" ?loads "\<lambda>_. Inr 1700000000000000" ?h "[0x7B, 0x7D]" new_batcher] e by auto
qed

text \<open>With no \<open>INTERNAL_SECRET\<close> set, the ingest route does not reject everything: its key is the
  empty string, and anyone can compute the signature under the empty key. Any well-formed event signed
  that way is accepted and queued.\<close>

theorem ingest_unset_secret_forgeable:
  assumes "decode loads parse_ts body = Inr event"
  shows "handle_ingest loads parse_ts (encode_utf8 [])
      [PROVIDER_HEADER \<mapsto> INGEST_PROVIDER_LABEL, HEADER \<mapsto> sign [] INGEST_PROVIDER_LABEL body] body (Some b)
    = (Inr Accepted202, Some (enqueue b (to_row event)))"
proof -
  have "ingest_authentic [] [PROVIDER_HEADER \<mapsto> INGEST_PROVIDER_LABEL, HEADER \<mapsto> sign [] INGEST_PROVIDER_LABEL body] body"
    by (simp add: ingest_authentic_def PROVIDER_HEADER_def HEADER_def sign_def)
  then show ?thesis unfolding handle_ingest_def ingest_checks using assms by simp
qed

theorem ingest_unset_secret_forgeable_witness:
  "fst (handle_ingest (\<lambda>_. Inr (JObj [(''ts'', JStr ''2023-11-14T22:13:20Z''), (''verdict'', JStr ''accepted'')]))
      (\<lambda>_. Inr 1700000000000000) (encode_utf8 [])
      [PROVIDER_HEADER \<mapsto> INGEST_PROVIDER_LABEL, HEADER \<mapsto> sign [] INGEST_PROVIDER_LABEL [0x7B, 0x7D]]
      [0x7B, 0x7D] (Some new_batcher)) = Inr Accepted202"
proof -
  have "\<exists>event. decode (\<lambda>_. Inr (JObj [(''ts'', JStr ''2023-11-14T22:13:20Z''), (''verdict'', JStr ''accepted'')]))
      (\<lambda>_. Inr 1700000000000000) [0x7B, 0x7D] = Inr event"
    by (simp add: decode_def from_json_dict_def json_get_def)
  then show ?thesis using ingest_unset_secret_forgeable by fastforce
qed

text \<open>The milliseconds a row is stored, bucketed and pruned by are the exact floor of the event's
  microseconds, in spite of the float arithmetic, for every time from the end of 2004 to the start of
  2038.\<close>

theorem to_row_millis:
  assumes "1099511628 * 1000000 \<le> ev_timestamp e" "ev_timestamp e < 2 ^ 31 * 1000000"
  shows "evt_received_at (to_row e) = ev_timestamp e div 1000"
  using millis_exact [OF assms] by (simp add: to_row_def)

theorem to_row_millis_witness:
  "evt_received_at (to_row \<lparr>ev_timestamp = 1700000000001999, ev_path = [], ev_provider = [], ev_verdict = [],
     ev_reason = [], ev_upstream_status = 0, ev_latency_ms = 0, ev_body_bytes = 0, ev_body_sha256 = [],
     ev_remote_ip = []\<rparr>) = 1700000000001"
  by (subst to_row_millis) simp_all

text \<open>An event with no verdict (a field the decoder defaults to the empty string) is accepted with 202
  and then refused by the schema.\<close>

lemma missing_verdict_not_storable:
  assumes "from_json_dict parse_ts data = Inr event" "map_of data ''verdict'' = None"
  shows "\<not> storable (to_row event)"
proof -
  have "json_get data ''verdict'' (JStr []) = JStr []" using assms(2) by (simp add: json_get_def)
  then have "ev_verdict event = []"
    using assms(1) by (auto simp: from_json_dict_def py_bind_eq_Inr split: option.splits json.splits)
  then show ?thesis by (simp add: storable_def to_row_def)
qed

end
