(* ===== verification/ConsoleApp.thy ===== *)
theory ConsoleApp
  imports DashboardRoutes SettingsRoutes EndpointRoutes LogRoutes Retention Ingest
begin

text \<open>
  \<open>app.py\<close> and \<open>config.py\<close>: the configuration, the table of routes, the middleware stack, and the
  Console as a whole: a state machine whose steps are the arrival of a request (the middleware loads its
  session), the answer of its handler, and the jobs and operator commands that share the database.
  Between a request's arrival and its answer, other steps may happen: a handler awaits its form. The
  external functions of the handlers and the readings of one step are the fields of \<open>env\<close>.
\<close>

section \<open>Configuration\<close>

definition DEFAULT_PORT :: int where
  "DEFAULT_PORT = 7000"

record ConsoleConfig =
  cfg_port :: int
  cfg_host :: pystr
  cfg_data_dir :: pystr
  cfg_allow_signup :: bool
  cfg_internal_secret :: bytes

definition default_config :: ConsoleConfig where
  "default_config =
     \<lparr>cfg_port = DEFAULT_PORT, cfg_host = ''0.0.0.0'', cfg_data_dir = ''.'', cfg_allow_signup = False,
      cfg_internal_secret = []\<rparr>"

text \<open>\<open>str(Path(s))\<close> on POSIX: empty and \<open>.\<close> components go, a root of one slash or of exactly two stays.\<close>

definition path_str :: "pystr \<Rightarrow> pystr" where
  "path_str s =
     (let root = (if startswith s ''//'' \<and> \<not> startswith s ''///'' then ''//'' else if startswith s ''/'' then ''/'' else []);
          parts = filter (\<lambda>p. p \<noteq> [] \<and> p \<noteq> ''.'') (split_ch (CHR ''/'') s) in
      if root = [] \<and> parts = [] then ''.'' else root @ join_with ''/'' parts)"

text \<open>\<open>os.getenv(name) or d\<close>.\<close>

definition env_or :: "environ \<Rightarrow> pystr \<Rightarrow> pystr \<Rightarrow> pystr" where
  "env_or env name d = (case env name of None \<Rightarrow> d | Some v \<Rightarrow> if v = [] then d else v)"

definition from_env :: "environ \<Rightarrow> ConsoleConfig py" where
  "from_env env =
     py_bind (if env_or env ''CONSOLE_PORT'' [] = [] then Inr DEFAULT_PORT else py_int (env_or env ''CONSOLE_PORT'' [])) (\<lambda>port.
     Inr \<lparr>cfg_port = port, cfg_host = env_or env ''CONSOLE_HOST'' ''0.0.0.0'',
          cfg_data_dir = path_str (env_or env ''CONSOLE_DATA_DIR'' ''.''),
          cfg_allow_signup = (env ''CONSOLE_ALLOW_SIGNUP'' = Some ''true''),
          cfg_internal_secret = encode_utf8 (env_or env ''INTERNAL_SECRET'' [])\<rparr>)"

definition LOGIN_LIMIT :: "nat \<times> usec" where
  "LOGIN_LIMIT = (10, 15 * 60 * 1000000)"

definition SIGNUP_LIMIT :: "nat \<times> usec" where
  "SIGNUP_LIMIT = (5, 60 * 60 * 1000000)"

text \<open>\<open>build_app\<close> and the start of its \<open>lifespan\<close>: the console over an open database, with its batcher.\<close>

definition console_of_config :: "ConsoleConfig \<Rightarrow> store \<Rightarrow> console" where
  "console_of_config config st =
     \<lparr>con_store = st, con_allow_signup = cfg_allow_signup config, con_internal_secret = cfg_internal_secret config,
      con_data_dir = cfg_data_dir config, con_login = new_limiter (fst LOGIN_LIMIT) (snd LOGIN_LIMIT),
      con_signup = new_limiter (fst SIGNUP_LIMIT) (snd SIGNUP_LIMIT), con_batcher = None\<rparr>"

definition lifespan_start :: "console \<Rightarrow> console" where
  "lifespan_start c = c\<lparr>con_batcher := Some new_batcher\<rparr>"

definition console_create_app :: "environ \<Rightarrow> store \<Rightarrow> console py" where
  "console_create_app env st = py_bind (from_env env) (\<lambda>config. Inr (console_of_config config st))"

section \<open>The routes\<close>

record env =
  env_argon :: argon
  env_parse_iso :: "pystr \<Rightarrow> usec py"
  env_loads :: "bytes \<Rightarrow> pystr + json"
  env_parse_ts :: "pystr \<Rightarrow> usec py"
  env_now :: usec
  env_fresh :: fresh
  env_method :: pystr
  env_url_query :: pystr
  env_body :: bytes

text \<open>\<open>routes/api.py\<close>: the responses of the ingest route.\<close>

fun ingest_reply :: "ingest_response \<Rightarrow> response" where
  "ingest_reply Unauthorized401 = PlainText 401 ''unauthorized'' []"
| "ingest_reply Malformed400 = PlainText 400 ''malformed event'' []"
| "ingest_reply Accepted202 = PlainText 202 [] []"

definition ingest_route :: "env \<Rightarrow> request \<Rightarrow> console \<Rightarrow> outcome" where
  "ingest_route e req c =
     (case handle_ingest (env_loads e) (env_parse_ts e) (con_internal_secret c) (req_headers req) (env_body e) (con_batcher c) of
        (r, b) \<Rightarrow> (py_bind r (\<lambda>x. Inr (ingest_reply x)), c\<lparr>con_batcher := b\<rparr>))"

datatype view =
    Landing | Playground | Healthz | LoginForm | Login | SignupForm | Signup | Logout | ResetForm | ResetPassword
  | Overview | EndpointsList | EndpointCreate | EndpointNewForm | ExportPreview | ExportDownload | EndpointEditForm
  | EndpointUpdate | EndpointDelete | EndpointToggle | LogsList | LogsStream | Providers | SettingsPage | PasswordChange
  | RetentionChange | SessionRevoke | SessionRevokeOthers | UserCreate | UserDeactivate | IngestEvent | StatsSummary
  | NotFound

fun call :: "env \<Rightarrow> view \<Rightarrow> request \<Rightarrow> console \<Rightarrow> outcome" where
  "call e Landing req = handle_landing"
| "call e Playground req = handle_playground"
| "call e Healthz req = handle_healthz"
| "call e LoginForm req = handle_login_form req"
| "call e Login req = handle_login (env_argon e) (env_fresh e) (env_now e) req"
| "call e SignupForm req = handle_signup_form"
| "call e Signup req = handle_signup (env_argon e) (env_fresh e) (env_now e) req"
| "call e Logout req = handle_logout (env_now e) req"
| "call e ResetForm req = handle_reset_password_form req"
| "call e ResetPassword req = handle_reset_password (env_argon e) (env_fresh e) (env_now e) req"
| "call e Overview req = handle_overview (env_now e) req"
| "call e EndpointsList req = handle_endpoints_list (env_now e) req"
| "call e EndpointCreate req = handle_endpoint_create (env_now e) req"
| "call e EndpointNewForm req = handle_endpoint_new_form (env_now e) req"
| "call e ExportPreview req = handle_endpoint_export_preview (env_now e) req"
| "call e ExportDownload req = handle_endpoint_export_download req"
| "call e EndpointEditForm req = handle_endpoint_edit_form (env_now e) req"
| "call e EndpointUpdate req = handle_endpoint_update (env_now e) req"
| "call e EndpointDelete req = handle_endpoint_delete (env_method e) req"
| "call e EndpointToggle req = handle_endpoint_toggle_active (env_now e) req"
| "call e LogsList req = handle_logs_list (env_parse_iso e) (env_now e) (env_url_query e) req"
| "call e LogsStream req = handle_logs_stream (env_parse_iso e) req"
| "call e Providers req = handle_providers (env_now e) req"
| "call e SettingsPage req = handle_settings (env_now e) req"
| "call e PasswordChange req = handle_password_change (env_argon e) (env_fresh e) (env_now e) req"
| "call e RetentionChange req = handle_retention_change (env_now e) req"
| "call e SessionRevoke req = handle_session_revoke (env_now e) req"
| "call e SessionRevokeOthers req = handle_session_revoke_others (env_now e) req"
| "call e UserCreate req = handle_user_create (env_argon e) (env_fresh e) (env_now e) req"
| "call e UserDeactivate req = handle_user_deactivate (env_now e) req"
| "call e IngestEvent req = ingest_route e req"
| "call e StatsSummary req = handle_stats_summary (env_now e) req"
| "call e NotFound req = handle_not_found req"

text \<open>The table of \<open>build_app\<close>, in its order, with the methods of each entry. A \<open>Route\<close> without methods takes
  \<open>GET\<close>, and with it \<open>HEAD\<close>. Matching a path against the table is the framework's.\<close>

definition GET :: "pystr list" where "GET = [''GET'', ''HEAD'']"
definition POST :: "pystr list" where "POST = [''POST'']"

definition console_routes :: "(pystr \<times> pystr list \<times> view) list" where
  "console_routes =
    [(''/'', GET, Landing),
     (''/playground'', GET, Playground),
     (''/healthz'', GET, Healthz),
     (''/login'', GET, LoginForm),
     (''/login'', POST, Login),
     (''/signup'', GET, SignupForm),
     (''/signup'', POST, Signup),
     (''/logout'', POST, Logout),
     (''/reset-password'', GET, ResetForm),
     (''/reset-password'', POST, ResetPassword),
     (''/dashboard'', GET, Overview),
     (''/dashboard/endpoints'', GET, EndpointsList),
     (''/dashboard/endpoints'', POST, EndpointCreate),
     (''/dashboard/endpoints/new'', GET, EndpointNewForm),
     (''/dashboard/endpoints/export'', GET, ExportPreview),
     (''/dashboard/endpoints/export/download'', GET, ExportDownload),
     (''/dashboard/endpoints/{endpoint_id:int}/edit'', GET, EndpointEditForm),
     (''/dashboard/endpoints/{endpoint_id:int}'', [''PUT'', ''POST''], EndpointUpdate),
     (''/dashboard/endpoints/{endpoint_id:int}'', [''DELETE''], EndpointDelete),
     (''/dashboard/endpoints/{endpoint_id:int}/delete'', POST, EndpointDelete),
     (''/dashboard/endpoints/{endpoint_id:int}/toggle-active'', POST, EndpointToggle),
     (''/dashboard/logs'', GET, LogsList),
     (''/dashboard/logs/stream'', GET, LogsStream),
     (''/dashboard/providers'', GET, Providers),
     (''/dashboard/settings'', GET, SettingsPage),
     (''/dashboard/settings/password'', POST, PasswordChange),
     (''/dashboard/settings/retention'', POST, RetentionChange),
     (''/dashboard/settings/sessions/{session_id:int}/revoke'', POST, SessionRevoke),
     (''/dashboard/settings/sessions/revoke-others'', POST, SessionRevokeOthers),
     (''/dashboard/settings/users'', GET, SettingsPage),
     (''/dashboard/settings/users'', POST, UserCreate),
     (''/dashboard/settings/users/{user_id:int}/deactivate'', POST, UserDeactivate),
     (''/api/v1/ingest'', POST, IngestEvent),
     (''/api/v1/stats/summary'', GET, StatsSummary)]"

section \<open>The middleware\<close>

definition SECURITY_HEADERS :: "(pystr \<times> pystr) list" where
  "SECURITY_HEADERS =
    [(''Content-Security-Policy'', ''default-src '' @ [CHR 0x27] @ ''self'' @ [CHR 0x27]), (''X-Content-Type-Options'', ''nosniff''),
     (''Referrer-Policy'', ''same-origin''), (''X-Frame-Options'', ''DENY'')]"

text \<open>The response with the headers set on it; an exception passes through.\<close>

definition security_headers_middleware :: "response py \<Rightarrow> (response \<times> (pystr \<times> pystr) list) py" where
  "security_headers_middleware r = py_bind r (\<lambda>x. Inr (x, SECURITY_HEADERS))"

text \<open>One request from end to end, with nothing in between.\<close>

definition serve ::
  "env \<Rightarrow> pystr option \<Rightarrow> view \<Rightarrow> request \<Rightarrow> console \<Rightarrow> (response \<times> (pystr \<times> pystr) list) py \<times> console" where
  "serve e cookie v req c =
     (case SessionMiddleware_call (env_now e) cookie req (call e v) c of
        (r, c') \<Rightarrow> (security_headers_middleware r, c'))"

end
