(* ===== verification/ConsoleSystem.thy ===== *)
theory ConsoleSystem
  imports ConsoleApp
begin

text \<open>
  The Console as a system: its steps, what every handler leaves alone, and the invariants of every
  reachable state. \<open>console_step\<close> lets any number of requests be between their arrival and their answer;
  \<open>serial_step\<close> serves them one at a time.
\<close>

section \<open>Steps\<close>

text \<open>The jobs and commands that share the database: a restart (the queue and the limiters are lost, the
  database stays), a tick of the batcher, a retention sweep, and the two commands of \<open>__main__.py\<close>.\<close>

inductive job_step :: "console \<Rightarrow> console \<Rightarrow> bool" where
  Restart: "job_step c (lifespan_start (console_of_config config (con_store c)))"
| BatchTick: "con_batcher c = Some b \<Longrightarrow> drain_and_persist (b, con_store c) = (b', st) \<Longrightarrow>
    job_step c (c\<lparr>con_store := st, con_batcher := Some b'\<rparr>)"
| Sweep: "job_step c (snd (run_once now c))"
| ResetCommand: "job_step c (set_store (snd (cli_reset_password fr now email (con_store c))) c)"
| SeedCommand: "job_step c (set_store (snd (seed_config (load :: pystr \<Rightarrow> Config py) now path data (con_store c))) c)"

type_synonym system = "console \<times> (view \<times> request) list"

inductive console_step :: "system \<Rightarrow> system \<Rightarrow> bool" where
  Arrive: "load_session now cookie (con_store c) = (who, st) \<Longrightarrow>
    console_step (c, pending) (set_store st c, pending @ [(v, attach req who)])"
| Answer: "call e v req c = (r, c') \<Longrightarrow> console_step (c, ps @ (v, req) # qs) (c', ps @ qs)"
| Job: "job_step c c' \<Longrightarrow> console_step (c, pending) (c', pending)"

inductive console_reachable :: "system \<Rightarrow> bool" where
  Boot: "console_reachable (lifespan_start (console_of_config config empty_store), [])"
| Step: "console_reachable s \<Longrightarrow> console_step s s' \<Longrightarrow> console_reachable s'"

inductive serial_step :: "console \<Rightarrow> console \<Rightarrow> bool" where
  Serve: "serve e cookie v req c = (r, c') \<Longrightarrow> serial_step c c'"
| SerialJob: "job_step c c' \<Longrightarrow> serial_step c c'"

inductive serial_reachable :: "console \<Rightarrow> bool" where
  SerialBoot: "serial_reachable (lifespan_start (console_of_config config empty_store))"
| SerialStep: "serial_reachable c \<Longrightarrow> serial_step c c' \<Longrightarrow> serial_reachable c'"

inductive_cases job_step_cases: "job_step c c'"
inductive_cases console_step_cases: "console_step s s'"
inductive_cases serial_step_cases: "serial_step c c'"

section \<open>Invariants as contracts\<close>

text \<open>What an invariant of the jobs has to be kept by, and the two ways to extend it to requests.\<close>

locale job_invariant =
  fixes I :: "console \<Rightarrow> bool"
  assumes boot: "I (lifespan_start (console_of_config config empty_store))"
    and restart: "I c \<Longrightarrow> I (lifespan_start (console_of_config config (con_store c)))"
    and tick: "I c \<Longrightarrow> con_batcher c = Some b \<Longrightarrow> drain_and_persist (b, con_store c) = (b', st) \<Longrightarrow>
      I (c\<lparr>con_store := st, con_batcher := Some b'\<rparr>)"
    and sweeps: "I c \<Longrightarrow> I (snd (run_once now c))"
    and resets: "I c \<Longrightarrow> I (set_store (snd (cli_reset_password fr now email (con_store c))) c)"
    and seeds: "I c \<Longrightarrow> I (set_store (snd (seed_config (load :: pystr \<Rightarrow> Config py) now path data (con_store c))) c)"
begin

lemma job: "I c \<Longrightarrow> job_step c c' \<Longrightarrow> I c'"
  by (auto elim!: job_step_cases intro: restart tick sweeps resets seeds)

end

locale console_invariant = job_invariant +
  assumes arrives: "I c \<Longrightarrow> I (set_store (snd (load_session now cookie (con_store c))) c)"
    and answers: "I c \<Longrightarrow> I (snd (call e v req c))"
begin

lemma step: "I (fst s) \<Longrightarrow> console_step s s' \<Longrightarrow> I (fst s')"
proof (erule console_step_cases)
  fix now cookie c who st pending v req
  assume "I (fst s)" "s = (c, pending)" "s' = (set_store st c, pending @ [(v, attach req who)])"
    "load_session now cookie (con_store c) = (who, st)"
  then show "I (fst s')" using arrives [of c now cookie] by simp
next
  fix e v req c r c' ps qs
  assume "I (fst s)" "s = (c, ps @ (v, req) # qs)" "s' = (c', ps @ qs)" "call e v req c = (r, c')"
  then show "I (fst s')" using answers [of c e v req] by simp
qed (auto intro: job)

lemma holds: "console_reachable s \<Longrightarrow> I (fst s)"
  by (induction rule: console_reachable.induct) (auto intro: boot step)

end

locale serial_invariant = job_invariant +
  assumes serves: "I c \<Longrightarrow> I (snd (serve e cookie v req c))"
begin

lemma holds_serially: "serial_reachable c \<Longrightarrow> I c"
proof (induction rule: serial_reachable.induct)
  case (SerialStep c c')
  from SerialStep.hyps(2) SerialStep.IH show ?case
    by (cases rule: serial_step.cases) (metis serves snd_conv, rule job)
qed (rule boot)

end

text \<open>Serving a request is its arrival and its answer.\<close>

lemma serve_snd:
  "snd (serve e cookie v req c) =
     snd (call e v (attach req (fst (load_session (env_now e) cookie (con_store c))))
            (set_store (snd (load_session (env_now e) cookie (con_store c))) c))"
  by (simp add: serve_def SessionMiddleware_call_def split: prod.split)

sublocale console_invariant \<subseteq> serial_invariant
  by unfold_locales (simp add: serve_snd answers arrives)


section \<open>What handlers leave alone\<close>

text \<open>The tables that only the routes' pages, the batcher and the sweep write.\<close>

definition content :: "store \<Rightarrow> Endpoint list \<times> Event list \<times> (bucket \<times> int) list" where
  "content st = (endpoints st, events st, rollups st)"

lemma content_simps [simp]:
  "content (record_event now k em ip u st) = content st" "content (set_setting k v st) = content st"
  "content (delete_setting k st) = content st" "content (delete_session n st) = content st"
  "content (touch_session n t st) = content st" "content (snd (delete_sessions_for_user_except w n st)) = content st"
  "content (update_password_hash n h st) = content st" "content (set_user_active n b st) = content st"
  "content (set_retention_days d st) = content st"
  by (simp_all add: content_def set_setting_def delete_setting_def delete_session_def touch_session_def
      delete_sessions_for_user_except_def update_password_hash_def set_user_active_def set_retention_days_def)

lemma content_creates: "create_user em h r t st = Inr (n, st') \<Longrightarrow> content st' = content st"
  "create_session s st = Inr (m, st') \<Longrightarrow> content st' = content st"
  by (auto simp: content_def create_user_def create_session_def Let_def split: if_splits)

lemma content_redirect [simp]:
  "content (con_store (snd (redirect_with_session loc fr now req uid c))) = content (con_store c)"
  by (auto simp: redirect_with_session_def start_session_def Let_def dest: content_creates split: sum.split)

lemma content_load [simp]: "content (snd (load_session now cookie st)) = content st"
  by (auto simp: load_session_def Let_def split: sum.split)

lemma content_consume [simp]: "content (snd (consume_reset_token now uid tok st)) = content st"
  by (auto simp: consume_reset_token_def Let_def split: sum.split option.split prod.split)

lemma content_reset_command [simp]: "content (snd (cli_reset_password fr now em st)) = content st"
  by (auto simp: cli_reset_password_def split: sum.split prod.split)

lemma guarded_content:
  "(\<And>x. content (con_store (snd (body x c))) = content (con_store c)) \<Longrightarrow>
     content (con_store (snd (guarded g req body c))) = content (con_store c)"
  by (cases g) simp_all

lemma content_auth_handlers [simp]:
  "content (con_store (snd (handle_login lib fr now req c))) = content (con_store c)"
  "content (con_store (snd (handle_signup lib fr now req c))) = content (con_store c)"
  "content (con_store (snd (handle_logout now req c))) = content (con_store c)"
  subgoal by (auto simp: handle_login_def Let_def split: sum.split prod.split)
  subgoal by (auto simp: handle_signup_def Let_def dest: content_creates split: sum.split prod.split)
  subgoal by (simp add: handle_logout_def guarded_content)
  done

lemma content_reset_password [simp]:
  "content (con_store (snd (handle_reset_password lib fr now req c))) = content (con_store c)"
proof (cases "py_int (param (req_form req) ''uid'' [])")
  case (Inr uid)
  obtain ok st1 where c: "consume_reset_token now uid (param (req_form req) ''token'' []) (con_store c) = (ok, st1)"
    by (cases "consume_reset_token now uid (param (req_form req) ''token'' []) (con_store c)")
  with content_consume [of now uid "param (req_form req) ''token'' []" "con_store c"]
  have "content st1 = content (con_store c)" by simp
  with Inr c show ?thesis by (simp add: handle_reset_password_def Let_def split: sum.split)
qed (simp add: handle_reset_password_def Let_def)

lemma content_settings_handlers [simp]:
  "content (con_store (snd (handle_password_change lib fr now req c))) = content (con_store c)"
  "content (con_store (snd (handle_session_revoke now req c))) = content (con_store c)"
  "content (con_store (snd (handle_session_revoke_others now req c))) = content (con_store c)"
  "content (con_store (snd (handle_retention_change now req c))) = content (con_store c)"
  "content (con_store (snd (handle_user_create lib fr now req c))) = content (con_store c)"
  "content (con_store (snd (handle_user_deactivate now req c))) = content (con_store c)"
  subgoal unfolding handle_password_change_def by (intro guarded_content) (simp add: Let_def split: sum.split)
  subgoal unfolding handle_session_revoke_def by (intro guarded_content) (simp add: Let_def)
  subgoal unfolding handle_session_revoke_others_def by (intro guarded_content) simp
  subgoal unfolding handle_retention_change_def by (intro guarded_content) (simp add: Let_def split: sum.split)
  subgoal unfolding handle_user_create_def
    by (intro guarded_content) (auto simp: Let_def dest: content_creates split: sum.split pyexn.split)
  subgoal unfolding handle_user_deactivate_def by (intro guarded_content) (simp add: Let_def split: sum.split)
  done

text \<open>The pages and the ingest route leave the whole database alone; the ingest route may queue.\<close>

lemma log_handlers_snd [simp]:
  "snd (handle_logs_list p_iso now q req c) = c" "snd (handle_logs_stream p_iso req c) = c"
  by (auto simp: handle_logs_list_def handle_logs_stream_def guarded_def split: sum.split)

lemma reset_form_snd [simp]: "snd (handle_reset_password_form req c) = c"
  by (simp add: handle_reset_password_form_def Let_def)

lemma ingest_route_store [simp]: "con_store (snd (ingest_route e req c)) = con_store c"
  by (simp add: ingest_route_def split: prod.split)

text \<open>The handlers of the routes' pages write the \<open>endpoints\<close> table only.\<close>

definition accounts :: "store \<Rightarrow> User list \<times> Session list \<times> AuthEvent list \<times> (pystr \<rightharpoonup> pystr)" where
  "accounts st = (users st, sessions st, auth_events st, settings st)"

lemma accounts_ok_cong: "accounts st = accounts st' \<Longrightarrow> accounts_ok st = accounts_ok st'"
  by (simp add: accounts_def accounts_ok_def)

lemma endpoints_valid_cong: "content st = content st' \<Longrightarrow> endpoints_valid st = endpoints_valid st'"
  by (simp add: content_def endpoints_valid_def endpoints_ok_def)

definition others :: "store \<Rightarrow> (User list \<times> Session list \<times> AuthEvent list \<times> (pystr \<rightharpoonup> pystr)) \<times> Event list \<times> (bucket \<times> int) list" where
  "others st = (accounts st, events st, rollups st)"

lemma others_simps [simp]: "others (delete_endpoint n st) = others st" "others (set_endpoint_active n b t st) = others st"
  by (simp_all add: others_def accounts_def delete_endpoint_def set_endpoint_active_def)

lemma others_creates: "create_endpoint ep st = Inr (n, st') \<Longrightarrow> others st' = others st"
  "update_endpoint ep st = Inr st' \<Longrightarrow> others st' = others st"
  by (clarsimp simp: others_def accounts_def create_endpoint_def update_endpoint_def Let_def split: if_split_asm)+

lemma others_seed_routes: "others (snd (seed_routes now es st)) = others st"
proof (induction es arbitrary: st)
  case (Cons ep es)
  show ?case by (auto dest: others_creates simp: Cons.IH case_prod_beta split: sum.split)
qed simp

lemma others_seed [simp]: "others (snd (seed_config load now path data st)) = others st"
  by (auto simp: seed_config_def others_seed_routes split: sum.split pyexn.split)

lemma guarded_others:
  "(\<And>x. others (con_store (snd (body x c))) = others (con_store c)) \<Longrightarrow>
     others (con_store (snd (guarded g req body c))) = others (con_store c)"
  by (cases g) simp_all

lemma others_endpoint_handlers [simp]:
  "others (con_store (snd (handle_endpoint_create now req c))) = others (con_store c)"
  "others (con_store (snd (handle_endpoint_update now req c))) = others (con_store c)"
  "others (con_store (snd (handle_endpoint_delete meth req c))) = others (con_store c)"
  "others (con_store (snd (handle_endpoint_toggle_active now req c))) = others (con_store c)"
  subgoal unfolding handle_endpoint_create_def
    by (intro guarded_others) (auto simp: Let_def dest: others_creates split: sum.split pyexn.split)
  subgoal unfolding handle_endpoint_update_def
    by (intro guarded_others) (auto simp: Let_def dest: others_creates split: sum.split pyexn.split)
  subgoal unfolding handle_endpoint_delete_def by (intro guarded_others) simp
  subgoal unfolding handle_endpoint_toggle_active_def by (intro guarded_others) (simp add: Let_def split: sum.split)
  done


section \<open>The accounts\<close>

lemma others_accounts_ok: "others st' = others st \<Longrightarrow> accounts_ok st' = accounts_ok st"
  by (rule accounts_ok_cong) (simp add: others_def)

lemmas endpoint_handlers_accounts = others_endpoint_handlers [THEN others_accounts_ok]

lemma executemany_keeps:
  "P st \<Longrightarrow> (\<And>row st st'. stmt row st = Inr st' \<Longrightarrow> P st \<Longrightarrow> P st') \<Longrightarrow> P (snd (executemany stmt rows st))"
  by (induction rows arbitrary: st) (auto split: sum.split)

lemma persist_keeps:
  assumes "P st" "\<And>e st st'. insert_event_row e st = Inr st' \<Longrightarrow> P st \<Longrightarrow> P st'"
    "\<And>d st st'. upsert_rollup_row d st = Inr st' \<Longrightarrow> P st \<Longrightarrow> P st'" "\<And>k v st. P st \<Longrightarrow> P (set_setting k v st)"
  shows "P (persist es st)"
proof -
  obtain r st1 where i: "insert_events es st = (r, st1)" by (cases "insert_events es st")
  have "P (snd (insert_events es st))"
    unfolding insert_events_def using executemany_keeps [of P st insert_event_row es] assms by simp
  with i have 1: "P st1" by simp
  have "P (snd (upsert_rollups (rollup_deltas es) st1))"
    unfolding upsert_rollups_def using executemany_keeps [of P st1 upsert_rollup_row "rollup_deltas es"] 1 assms by simp
  with 1 i assms(4) show ?thesis by (cases r) (simp_all add: persist_def)
qed

lemma drain_keeps:
  assumes "drain_and_persist (b, st) = (b', st')" "P st" "\<And>es. P st \<Longrightarrow> P (persist es st)"
  shows "P st'"
  using assms by (auto simp: drain_and_persist_def split: if_splits)

lemma event_writes_accounts: "insert_event_row e st = Inr st' \<Longrightarrow> accounts st' = accounts st"
  "upsert_rollup_row d st = Inr st' \<Longrightarrow> accounts st' = accounts st"
  by (auto simp: insert_event_row_def upsert_rollup_row_def accounts_def split: if_splits)

lemma persist_accounts_ok: "accounts_ok st \<Longrightarrow> accounts_ok (persist es st)"
  by (rule persist_keeps [where P = accounts_ok]) (auto dest: event_writes_accounts [THEN accounts_ok_cong] intro: settings_ok)

lemmas account_handlers_ok = handle_login_ok handle_signup_ok handle_logout_ok handle_reset_password_ok
  handle_password_change_ok handle_session_revoke_ok handle_session_revoke_others_ok handle_retention_change_ok
  handle_user_create_ok handle_user_deactivate_ok

lemma call_accounts_ok: "accounts_ok (con_store c) \<Longrightarrow> accounts_ok (con_store (snd (call e v req c)))"
  by (cases v) (simp_all add: account_handlers_ok endpoint_handlers_accounts)

lemma reset_command_accounts_ok: "accounts_ok st \<Longrightarrow> accounts_ok (snd (cli_reset_password fr now email st))"
  by (auto simp: cli_reset_password_def intro: settings_ok split: sum.split prod.split)

lemma boot_store [simp]: "con_store (lifespan_start (console_of_config config st)) = st"
  "con_batcher (lifespan_start (console_of_config config st)) = Some new_batcher"
  by (simp_all add: lifespan_start_def console_of_config_def)

interpretation accounts_inv: console_invariant "\<lambda>c. accounts_ok (con_store c)"
proof unfold_locales
  fix c b b' st assume "accounts_ok (con_store c)" "drain_and_persist (b, con_store c) = (b', st)"
  then show "accounts_ok (con_store (c\<lparr>con_store := st, con_batcher := Some b'\<rparr>))"
    using drain_keeps [of b "con_store c" b' st accounts_ok] persist_accounts_ok by simp
qed (simp_all add: accounts_ok_empty load_session_ok call_accounts_ok sweep_accounts_ok reset_command_accounts_ok
    others_accounts_ok [OF others_seed])

section \<open>The routes\<close>

lemma content_endpoints: "content st' = content st \<Longrightarrow> endpoints st' = endpoints st"
  by (simp add: content_def)

lemma event_writes_endpoints: "insert_event_row e st = Inr st' \<Longrightarrow> endpoints st' = endpoints st"
  "upsert_rollup_row d st = Inr st' \<Longrightarrow> endpoints st' = endpoints st"
  by (auto simp: insert_event_row_def upsert_rollup_row_def split: if_splits)

lemma endpoints_valid_frame: "endpoints st' = endpoints st \<Longrightarrow> endpoints_valid st' = endpoints_valid st"
  by (simp add: endpoints_valid_def endpoints_ok_def)

lemma persist_endpoints_valid: "endpoints_valid st \<Longrightarrow> endpoints_valid (persist es st)"
  by (rule persist_keeps [where P = endpoints_valid])
     (auto dest: event_writes_endpoints [THEN endpoints_valid_frame]
        simp: endpoints_valid_frame [OF content_endpoints [OF content_simps(2)]])

lemmas account_handlers_endpoints =
  content_auth_handlers [THEN content_endpoints, THEN endpoints_valid_frame]
  content_reset_password [THEN content_endpoints, THEN endpoints_valid_frame]
  content_settings_handlers [THEN content_endpoints, THEN endpoints_valid_frame]

lemma call_endpoints_valid: "endpoints_valid (con_store c) \<Longrightarrow> endpoints_valid (con_store (snd (call e v req c)))"
  by (cases v)
     (simp_all add: account_handlers_endpoints handle_endpoint_create_valid handle_endpoint_update_valid
      handle_endpoint_delete_valid handle_endpoint_toggle_active_valid)

lemma seed_endpoints_valid:
  assumes "endpoints_valid st"
  shows "endpoints_valid (snd (seed_config load now path data st))"
proof (cases data)
  case (Inr contents)
  show ?thesis
  proof (cases "import_config load contents")
    case (Inr es)
    obtain r st' where s: "seed_routes (millis now) es st = (r, st')" by (cases "seed_routes (millis now) es st")
    have "list_all (\<lambda>e. validate (from_endpoint e) = Inr ()) es"
      using Inr import_routes_iff by (auto simp: import_config_def py_bind_eq_Inr list_all_iff split: sum.splits if_splits)
    from seed_routes_spec [OF assms this s] s Inr \<open>data = Inr contents\<close> show ?thesis by (simp add: seed_config_def)
  qed (simp add: assms \<open>data = Inr contents\<close> seed_config_def split: pyexn.split)
qed (simp add: assms seed_config_def)

lemma endpoints_valid_empty: "endpoints_valid empty_store"
  by (simp add: endpoints_valid_def endpoints_ok_empty) (simp add: empty_store_def)

interpretation routes_inv: console_invariant "\<lambda>c. endpoints_valid (con_store c)"
proof unfold_locales
  fix c b b' st assume "endpoints_valid (con_store c)" "drain_and_persist (b, con_store c) = (b', st)"
  then show "endpoints_valid (con_store (c\<lparr>con_store := st, con_batcher := Some b'\<rparr>))"
    using drain_keeps [of b "con_store c" b' st endpoints_valid] persist_endpoints_valid by simp
qed (simp_all add: endpoints_valid_empty call_endpoints_valid seed_endpoints_valid endpoints_valid_frame [OF sweep_frame(3)]
    endpoints_valid_frame [OF content_endpoints [OF content_load]]
    endpoints_valid_frame [OF content_endpoints [OF content_reset_command]])


section \<open>The events and their queue\<close>

definition events_ok :: "store \<Rightarrow> bool" where
  "events_ok st \<longleftrightarrow>
     keyed evt_id (events st) \<and> (\<forall>e \<in> set (events st). evt_verdict e = ''accepted'' \<or> evt_verdict e = ''rejected'')"

definition queue_ok :: "console \<Rightarrow> bool" where
  "queue_ok c \<longleftrightarrow> (case con_batcher c of None \<Rightarrow> False | Some b \<Rightarrow> length (bat_queue b) \<le> BATCH_QUEUE_SIZE)"

lemma events_ok_frame: "events st' = events st \<Longrightarrow> events_ok st' = events_ok st"
  by (simp add: events_ok_def)

lemma insert_event_row_ok: "insert_event_row e st = Inr st' \<Longrightarrow> events_ok st \<Longrightarrow> events_ok st'"
  using event_table.keyed_append [of "events st" e]
  by (auto simp: insert_event_row_def events_ok_def append_row_def split: if_splits)

lemma upsert_rollup_row_ok: "upsert_rollup_row d st = Inr st' \<Longrightarrow> events_ok st \<Longrightarrow> events_ok st'"
  by (auto simp: upsert_rollup_row_def events_ok_def split: if_splits)

lemma content_events: "content st' = content st \<Longrightarrow> events st' = events st"
  by (simp add: content_def)

lemma others_events: "others st' = others st \<Longrightarrow> events st' = events st"
  by (simp add: others_def)

lemma persist_events_ok: "events_ok st \<Longrightarrow> events_ok (persist es st)"
  by (rule persist_keeps [where P = events_ok])
     (auto intro: insert_event_row_ok upsert_rollup_row_ok simp: events_ok_frame [OF content_events [OF content_simps(2)]])

lemma sweep_events_ok: "events_ok st \<Longrightarrow> events_ok (snd (sweep st now))"
  using event_table.keyed_delete [of "events st"] delete_where_set [where t = "events st"]
  by (auto simp: sweep_def delete_events_older_than_def events_ok_def dest!: subsetD split: sum.split)

lemmas handlers_events =
  content_auth_handlers [THEN content_events, THEN events_ok_frame]
  content_reset_password [THEN content_events, THEN events_ok_frame]
  content_settings_handlers [THEN content_events, THEN events_ok_frame]
  others_endpoint_handlers [THEN others_events, THEN events_ok_frame]

lemma call_events_ok: "events_ok (con_store c) \<Longrightarrow> events_ok (con_store (snd (call e v req c)))"
  by (cases v) (simp_all add: handlers_events)

interpretation events_inv: console_invariant "\<lambda>c. events_ok (con_store c)"
proof unfold_locales
  fix c b b' st assume "events_ok (con_store c)" "drain_and_persist (b, con_store c) = (b', st)"
  then show "events_ok (con_store (c\<lparr>con_store := st, con_batcher := Some b'\<rparr>))"
    using drain_keeps [of b "con_store c" b' st events_ok] persist_events_ok by simp
next
  show "events_ok (con_store (lifespan_start (console_of_config config empty_store)))" for config
    by (simp add: events_ok_def) (simp add: empty_store_def event_table.keyed_Nil)
qed (simp_all add: call_events_ok sweep_events_ok events_ok_frame [OF others_events [OF others_seed]]
    events_ok_frame [OF content_events [OF content_load]] events_ok_frame [OF content_events [OF content_reset_command]])

text \<open>Only the ingest route touches the batcher.\<close>

lemma guarded_batcher:
  "(\<And>x. con_batcher (snd (body x c)) = con_batcher c) \<Longrightarrow> con_batcher (snd (guarded g req body c)) = con_batcher c"
  by (cases g) simp_all

lemma redirect_with_session_batcher [simp]:
  "con_batcher (snd (redirect_with_session loc fr now req uid c)) = con_batcher c"
  by (auto simp: redirect_with_session_def split: sum.split)

lemma handlers_batcher [simp]:
  "con_batcher (snd (handle_login lib fr now req c)) = con_batcher c"
  "con_batcher (snd (handle_signup lib fr now req c)) = con_batcher c"
  "con_batcher (snd (handle_logout now req c)) = con_batcher c"
  "con_batcher (snd (handle_reset_password lib fr now req c)) = con_batcher c"
  "con_batcher (snd (handle_password_change lib fr now req c)) = con_batcher c"
  "con_batcher (snd (handle_session_revoke now req c)) = con_batcher c"
  "con_batcher (snd (handle_session_revoke_others now req c)) = con_batcher c"
  "con_batcher (snd (handle_retention_change now req c)) = con_batcher c"
  "con_batcher (snd (handle_user_create lib fr now req c)) = con_batcher c"
  "con_batcher (snd (handle_user_deactivate now req c)) = con_batcher c"
  subgoal by (auto simp: handle_login_def Let_def split: sum.split prod.split)
  subgoal by (auto simp: handle_signup_def Let_def split: sum.split prod.split)
  subgoal unfolding handle_logout_def by (intro guarded_batcher) simp
  subgoal by (auto simp: handle_reset_password_def Let_def split: sum.split prod.split)
  subgoal unfolding handle_password_change_def by (intro guarded_batcher) (simp add: Let_def split: sum.split)
  subgoal unfolding handle_session_revoke_def by (intro guarded_batcher) (simp add: Let_def to_settings_def)
  subgoal unfolding handle_session_revoke_others_def by (intro guarded_batcher) (simp add: to_settings_def)
  subgoal unfolding handle_retention_change_def by (intro guarded_batcher) (simp add: Let_def split: sum.split)
  subgoal unfolding handle_user_create_def
    by (intro guarded_batcher) (auto simp: Let_def to_settings_def split: sum.split pyexn.split)
  subgoal unfolding handle_user_deactivate_def
    by (intro guarded_batcher) (simp add: Let_def to_settings_def split: sum.split)
  done

lemma endpoint_handlers_batcher [simp]:
  "con_batcher (snd (handle_endpoint_create now req c)) = con_batcher c"
  "con_batcher (snd (handle_endpoint_update now req c)) = con_batcher c"
  "con_batcher (snd (handle_endpoint_delete meth req c)) = con_batcher c"
  "con_batcher (snd (handle_endpoint_toggle_active now req c)) = con_batcher c"
  subgoal unfolding handle_endpoint_create_def
    by (intro guarded_batcher) (auto simp: Let_def to_endpoints_def split: sum.split pyexn.split)
  subgoal unfolding handle_endpoint_update_def
    by (intro guarded_batcher) (auto simp: Let_def to_endpoints_def split: sum.split pyexn.split)
  subgoal unfolding handle_endpoint_delete_def by (intro guarded_batcher) (simp add: to_endpoints_def)
  subgoal unfolding handle_endpoint_toggle_active_def
    by (intro guarded_batcher) (simp add: Let_def to_endpoints_def split: sum.split)
  done

lemma ingest_route_queue: "queue_ok c \<Longrightarrow> queue_ok (snd (ingest_route e req c))"
  using batch_queue.push_bounded
  by (auto simp: ingest_route_def handle_ingest_def queue_ok_def split: prod.split sum.split pyexn.split option.splits)

lemma call_queue_ok: "queue_ok c \<Longrightarrow> queue_ok (snd (call e v req c))"
  by (cases v) (simp_all add: ingest_route_queue, simp_all add: queue_ok_def)

interpretation queue_inv: console_invariant queue_ok
proof unfold_locales
  fix c b b' st assume q: "queue_ok c" "con_batcher c = Some b" "drain_and_persist (b, con_store c) = (b', st)"
  then show "queue_ok (c\<lparr>con_store := st, con_batcher := Some b'\<rparr>)"
    by (auto simp: queue_ok_def drain_and_persist_def split: if_splits)
next
  show "queue_ok c \<Longrightarrow> queue_ok (snd (run_once now c))" for c now
    by (simp add: run_once_def queue_ok_def split: prod.split)
qed (simp_all add: call_queue_ok, simp_all add: queue_ok_def new_batcher_def)

end
