(* ===== verification/ConsoleProps.thy ===== *)
theory ConsoleProps
  imports ConsoleSystem
begin

text \<open>
  What holds of the whole Console: of the table of routes (which entries change anything, which ask for a
  login, which for the CSRF token) and of every reachable state. The administrator's invariant holds when
  requests are served one at a time, and a lemma shows how two overlapping ones break it.
\<close>

section \<open>The table of routes\<close>

text \<open>Reading is safe. No entry of the table that answers \<open>GET\<close> changes the console, whatever the request
  and its session.\<close>

theorem get_is_safe:
  "list_all (\<lambda>(path, methods, v). if ''GET'' \<in> set methods then snd (call e v req c) = c else True) console_routes"
  by (simp add: console_routes_def GET_def POST_def)

text \<open>C10: every page of the dashboard asks for a login. Without a user, each entry under \<open>/dashboard\<close>, and the
  statistics the dashboard polls, answers with a redirect to the login page that names the path, and
  changes nothing.\<close>

theorem pages_need_login:
  "list_all (\<lambda>(path, methods, v).
      if startswith path ''/dashboard'' \<or> path = ''/api/v1/stats/summary''
      then call e v (attach req None) c = (Inr (Redirect303 (''/login?next='' @ req_url_path req) KeepCookie), c)
      else True) console_routes"
proof -
  have g: "auth_guard (attach req None) = Inl (ToLogin (''/login?next='' @ req_url_path req))"
    "admin_guard (attach req None) = Inl (ToLogin (''/login?next='' @ req_url_path req))"
    by (simp_all add: auth_guard_def admin_guard_def require_auth_def require_admin_def attach_def)
  note handlers = handle_overview_def handle_stats_summary_def handle_providers_def handle_endpoints_list_def
    handle_endpoint_new_form_def handle_endpoint_edit_form_def handle_endpoint_create_def handle_endpoint_update_def
    handle_endpoint_delete_def handle_endpoint_toggle_active_def handle_endpoint_export_preview_def
    handle_endpoint_export_download_def handle_logs_list_def handle_logs_stream_def handle_settings_def
    handle_password_change_def handle_session_revoke_def handle_session_revoke_others_def handle_retention_change_def
    handle_user_create_def handle_user_deactivate_def
  show ?thesis
    by (simp add: console_routes_def startswith_def handlers g stop_response_def)
qed

text \<open>C11: nothing a signed-in browser can be tricked into sending changes anything. Of the entries that are not
  reads, only login, signup, the password reset and the ingest route (which check a password, a token or
  a signature of their own) act without the session's CSRF token in the header or the form.\<close>

theorem writes_need_csrf:
  "list_all (\<lambda>(path, methods, v).
      if ''GET'' \<in> set methods \<or> v \<in> {Login, Signup, ResetPassword, IngestEvent} then True
      else if check_request_csrf (req_headers req) (req_form req) (req_session req) = Inr True then True
      else snd (call e v req c) = c) console_routes"
proof (cases "check_request_csrf (req_headers req) (req_form req) (req_session req) = Inr True")
  case True
  then show ?thesis by (simp add: console_routes_def)
next
  case False
  have "csrf_guard req \<noteq> Inr s" for s using False csrf_guard_iff [of req s] by auto
  then obtain x where g: "csrf_guard req = Inl x" by (cases "csrf_guard req") auto
  have "check_request_csrf (req_headers req) Map.empty (req_session req) \<noteq> Inr True"
    using False check_csrf_exact
    by (cases "req_session req"; cases "absent (req_headers req CSRF_HEADER)") (auto simp: check_request_csrf_def Let_def)
  then have "csrf_guard (req\<lparr>req_form := Map.empty\<rparr>) \<noteq> Inr s" for s
    using csrf_guard_iff [of "req\<lparr>req_form := Map.empty\<rparr>" s] by auto
  then obtain y where d: "csrf_guard (req\<lparr>req_form := Map.empty\<rparr>) = Inl y"
    by (cases "csrf_guard (req\<lparr>req_form := Map.empty\<rparr>)") auto
  have "csrf_guard (req\<lparr>req_form := if b then req_form req else Map.empty\<rparr>) = (if b then Inl x else Inl y)" for b
    using g d by simp
  then have snd: "snd (guarded (csrf_guard (req\<lparr>req_form := if b then req_form req else Map.empty\<rparr>)) req body c) = c" for b body
    by simp
  have two: "snd (guarded a req (\<lambda>u. guarded (Inl x) req (body u)) c) = c" for a :: "guard_stop + User" and body
    by (cases a) simp_all
  have del: "snd (handle_endpoint_delete meth req c) = c" for meth
    unfolding handle_endpoint_delete_def by (cases "auth_guard req") (simp_all add: snd)
  show ?thesis
    by (simp add: console_routes_def POST_def GET_def del handle_logout_def g two handle_endpoint_create_def
        handle_endpoint_update_def handle_endpoint_toggle_active_def handle_password_change_def
        handle_session_revoke_def handle_session_revoke_others_def handle_retention_change_def handle_user_create_def
        handle_user_deactivate_def)
qed


section \<open>An administrator remains\<close>

definition admin_exists :: "store \<Rightarrow> bool" where
  "admin_exists st \<longleftrightarrow> users st = [] \<or> list_ex (\<lambda>u. user_role u = ''admin'' \<and> user_active u) (users st)"

text \<open>What the invariant depends on.\<close>

definition flags :: "store \<Rightarrow> (pystr \<times> bool) list" where
  "flags st = map (\<lambda>u. (user_role u, user_active u)) (users st)"

lemma admin_exists_flags: "admin_exists st \<longleftrightarrow> flags st = [] \<or> (''admin'', True) \<in> set (flags st)"
  by (auto simp: admin_exists_def flags_def list_ex_iff image_iff)

lemma flags_frame: "users st' = users st \<Longrightarrow> flags st' = flags st"
  by (simp add: flags_def)

lemma flags_simps [simp]:
  "flags (update_password_hash n h st) = flags st" "flags (record_event now k em ip u st) = flags st"
  "flags (snd (delete_sessions_for_user_except w n st)) = flags st" "flags (delete_session n st) = flags st"
  "flags (delete_setting k st) = flags st" "flags (set_setting k v st) = flags st" "flags (set_retention_days d st) = flags st"
  by (simp_all add: flags_def update_password_hash_def update_where_def delete_setting_def delete_session_def
      set_retention_days_def delete_sessions_for_user_except_def set_setting_def)

lemma flags_create_user: "create_user em h r t st = Inr (n, st') \<Longrightarrow> flags st' = flags st @ [(r, True)]"
  by (auto simp: create_user_def flags_def append_row_def Let_def split: if_splits)

lemma users_load [simp]: "users (snd (load_session now cookie st)) = users st"
  by (auto simp: load_session_def Let_def split: sum.split)

lemma load_session_user:
  assumes "fst (load_session now cookie st) = Some (u, s)"
  shows "u \<in> set (users st)" "user_active u"
  using assms by (auto simp: load_session_def Let_def get_user_by_id_def find_key_def find_Some_iff
      split: sum.splits option.splits if_splits)

lemma guarded_flags:
  "(\<And>x. g = Inr x \<Longrightarrow> flags (con_store (snd (body x c))) = flags (con_store c)) \<Longrightarrow>
     flags (con_store (snd (guarded g req body c))) = flags (con_store c)"
  by (cases g) simp_all

lemma flags_redirect [simp]:
  "flags (con_store (snd (redirect_with_session loc fr now req uid c))) = flags (con_store c)"
  by (simp add: flags_def)

lemma users_consume: "users (snd (consume_reset_token now uid tok st)) = users st"
  by (auto simp: consume_reset_token_def delete_setting_def Let_def split: sum.split option.split prod.split)

lemma handlers_flags [simp]:
  "flags (con_store (snd (handle_login lib fr now req c))) = flags (con_store c)"
  "flags (con_store (snd (handle_logout now req c))) = flags (con_store c)"
  "flags (con_store (snd (handle_password_change lib fr now req c))) = flags (con_store c)"
  "flags (con_store (snd (handle_session_revoke now req c))) = flags (con_store c)"
  "flags (con_store (snd (handle_session_revoke_others now req c))) = flags (con_store c)"
  "flags (con_store (snd (handle_retention_change now req c))) = flags (con_store c)"
  subgoal by (auto simp: handle_login_def Let_def split: sum.split prod.split)
  subgoal by (simp add: handle_logout_def guarded_flags)
  subgoal unfolding handle_password_change_def by (intro guarded_flags) (simp add: Let_def split: sum.split)
  subgoal unfolding handle_session_revoke_def by (intro guarded_flags) (simp add: Let_def)
  subgoal unfolding handle_session_revoke_others_def by (intro guarded_flags) simp
  subgoal unfolding handle_retention_change_def by (intro guarded_flags) (simp add: Let_def split: sum.split)
  done

lemma reset_flags [simp]: "flags (con_store (snd (handle_reset_password lib fr now req c))) = flags (con_store c)"
proof (cases "py_int (param (req_form req) ''uid'' [])")
  case (Inr uid)
  obtain ok st1 where c: "consume_reset_token now uid (param (req_form req) ''token'' []) (con_store c) = (ok, st1)"
    by (cases "consume_reset_token now uid (param (req_form req) ''token'' []) (con_store c)")
  then have "flags st1 = flags (con_store c)"
    using users_consume [of now uid "param (req_form req) ''token'' []" "con_store c"] by (simp add: flags_def)
  with Inr c show ?thesis by (simp add: handle_reset_password_def Let_def split: sum.split)
qed (simp add: handle_reset_password_def Let_def)

lemma endpoint_flags: "others st' = others st \<Longrightarrow> flags st' = flags st"
  by (simp add: others_def accounts_def flags_def)

lemma signup_admin: "admin_exists (con_store c) \<Longrightarrow> admin_exists (con_store (snd (handle_signup lib fr now req c)))"
  by (auto simp: handle_signup_def admin_exists_flags Let_def count_users_def dest: flags_create_user
      split: sum.split prod.split) (simp_all add: flags_def)

lemma user_create_admin:
  assumes "admin_exists (con_store c)" "users (con_store c) \<noteq> []"
  shows "admin_exists (con_store (snd (handle_user_create lib fr now req c)))"
proof -
  have "(''admin'', True) \<in> set (flags (con_store c))" using assms by (simp add: admin_exists_flags flags_def)
  then have "(''admin'', True) \<in> set (flags (con_store (snd (handle_user_create lib fr now req c))))"
    unfolding handle_user_create_def
    by (intro guarded_keeps [where P = "\<lambda>c. (''admin'', True) \<in> set (flags (con_store c))"])
       (auto simp: Let_def dest: flags_create_user split: sum.split pyexn.split)
  then show ?thesis by (simp add: admin_exists_flags)
qed

lemma user_deactivate_admin:
  assumes "u \<in> set (users (con_store c))" "user_active u" "req_user req = Some u" "admin_exists (con_store c)"
  shows "admin_exists (con_store (snd (handle_user_deactivate now req c)))"
proof (cases "admin_guard req")
  case (Inr admin)
  then have u: "admin = u" "user_role u = ''admin''" using assms(3) by (simp_all add: admin_guard_iff)
  have keep: "u \<in> set (users (set_user_active n b (con_store c)))" if "n \<noteq> user_id u" for n b
    using assms(1) that by (auto simp: set_user_active_def update_where_def image_iff)
  have "u \<in> set (users (con_store (snd (handle_user_deactivate now req c))))"
    unfolding handle_user_deactivate_def Inr guarded_Inr u
    by (rule guarded_keeps [where P = "\<lambda>c. u \<in> set (users (con_store c))"])
       (use assms(1) keep in \<open>auto simp: Let_def split: sum.split\<close>)
  with u assms(2) show ?thesis by (auto simp: admin_exists_def list_ex_iff)
qed (simp add: handle_user_deactivate_def assms(4))

lemmas endpoint_handlers_flags = others_endpoint_handlers [THEN endpoint_flags]

lemma persist_flags: "flags (persist es st) = flags st"
  by (rule persist_keeps [where P = "\<lambda>st'. flags st' = flags st"])
     (simp_all, (drule event_writes_accounts, simp add: accounts_def flags_def)+)

lemma serve_admin:
  assumes "admin_exists (con_store c)"
  shows "admin_exists (con_store (snd (serve e cookie v req c)))"
proof -
  define who where "who = fst (load_session (env_now e) cookie (con_store c))"
  define c1 where "c1 = set_store (snd (load_session (env_now e) cookie (con_store c))) c"
  have a: "admin_exists (con_store c1)" using assms by (simp add: c1_def admin_exists_def)
  have u: "u \<in> set (users (con_store c1)) \<and> user_active u" if "req_user (attach req who) = Some u" for u
    using that load_session_user [of "env_now e" cookie "con_store c"] by (cases who) (auto simp: attach_def who_def c1_def)
  have create: "admin_exists (con_store (snd (call e UserCreate (attach req who) c1)))"
  proof (cases "req_user (attach req who)")
    case None
    then have "admin_guard (attach req who) \<noteq> Inr x" for x by (simp add: admin_guard_iff)
    then obtain x where "admin_guard (attach req who) = Inl x" by (cases "admin_guard (attach req who)") auto
    then show ?thesis using a by (simp add: handle_user_create_def)
  next
    case (Some x)
    with u have "users (con_store c1) \<noteq> []" by fastforce
    then show ?thesis using user_create_admin [OF a] by simp
  qed
  have deactivate: "admin_exists (con_store (snd (call e UserDeactivate (attach req who) c1)))"
  proof (cases "req_user (attach req who)")
    case None
    then have "admin_guard (attach req who) \<noteq> Inr x" for x by (simp add: admin_guard_iff)
    then obtain x where "admin_guard (attach req who) = Inl x" by (cases "admin_guard (attach req who)") auto
    then show ?thesis using a by (simp add: handle_user_deactivate_def)
  next
    case (Some x)
    with u [OF Some] show ?thesis using user_deactivate_admin [OF _ _ Some a] by simp
  qed
  have "admin_exists (con_store (snd (call e v (attach req who) c1)))"
    using a create deactivate
    by (cases v) (simp_all add: signup_admin, simp_all add: admin_exists_flags endpoint_handlers_flags)
  then show ?thesis by (simp add: serve_snd who_def c1_def)
qed

interpretation admin_inv: serial_invariant "\<lambda>c. admin_exists (con_store c)"
proof unfold_locales
  fix c :: console and b b' st assume a: "admin_exists (con_store c)" "drain_and_persist (b, con_store c) = (b', st)"
  then show "admin_exists (con_store (c\<lparr>con_store := st, con_batcher := Some b'\<rparr>))"
    using drain_keeps [of b "con_store c" b' st admin_exists] by (simp add: admin_exists_flags persist_flags)
next
  show "admin_exists (con_store (lifespan_start (console_of_config config empty_store)))" for config
    by (simp add: admin_exists_def) (simp add: empty_store_def)
next
  fix c :: console and fr now email assume "admin_exists (con_store c)"
  then show "admin_exists (con_store (set_store (snd (cli_reset_password fr now email (con_store c))) c))"
    by (auto simp: cli_reset_password_def admin_exists_flags split: sum.split prod.split)
next
  fix c :: console and load :: "pystr \<Rightarrow> Config py" and now path data assume "admin_exists (con_store c)"
  then show "admin_exists (con_store (set_store (snd (seed_config load now path data (con_store c))) c))"
    by (simp add: admin_exists_flags endpoint_flags [OF others_seed])
qed (simp_all add: admin_exists_def sweep_frame serve_admin [unfolded admin_exists_def])

text \<open>C13: somebody can always administer. As long as requests are served one at a time, whatever they are and
  whatever jobs and operator commands run in between, a console that has accounts has an active
  administrator among them.\<close>

theorem serial_keeps_admin:
  assumes "serial_reachable c"
  shows "admin_exists (con_store c)"
  by (rule admin_inv.holds_serially [OF assms])

text \<open>A fresh console that admits signups, after the first of them.\<close>

definition demo_env :: env where
  "demo_env =
     \<lparr>env_argon = demo_argon, env_parse_iso = (\<lambda>_. Inr 0), env_loads = (\<lambda>_. Inl []), env_parse_ts = (\<lambda>_. Inr 0),
      env_now = 1800000000000000, env_fresh = demo_fresh, env_method = ''POST'', env_url_query = [], env_body = []\<rparr>"

definition fresh_console :: console where
  "fresh_console = lifespan_start (console_of_config (default_config\<lparr>cfg_allow_signup := True\<rparr>) empty_store)"

lemma first_signup:
  "map user_role (users (con_store (snd (serve demo_env None Signup demo_signup fresh_console)))) = [''admin'']"
proof -
  let ?r = "attach demo_signup None"
  have e: "normalize_email '' B@x '' = ''b@x''" by code_simp
  have ok: "accounts_ok (con_store fresh_console)" by (simp add: fresh_console_def accounts_ok_empty)
  have no: "users (con_store fresh_console) = []" by (simp add: fresh_console_def) (simp add: empty_store_def)
  have "signup_admitted 1800000000000000 ?r fresh_console" "signup_form_ok ?r" "login_email ?r = ''b@x''"
    by (simp_all add: signup_admitted_def fresh_console_def lifespan_start_def console_of_config_def SIGNUP_LIMIT_def
        default_config_def new_limiter_def allow_def hits_of_def signup_form_ok_def attach_def
        login_email_def demo_signup_def demo_request_def param_def new_password_def e)
  then show ?thesis
    using signup_adds [OF _ _ ok, of 1800000000000000 ?r demo_argon demo_fresh] no
    by (simp add: serve_snd load_session_def demo_env_def signup_user_def)
qed

theorem serial_keeps_admin_witness:
  "admin_exists (con_store (snd (serve demo_env None Signup demo_signup fresh_console)))
   \<and> users (con_store (snd (serve demo_env None Signup demo_signup fresh_console))) \<noteq> []"
proof -
  have "serial_reachable (snd (serve demo_env None Signup demo_signup fresh_console))"
    unfolding fresh_console_def by (rule SerialStep [OF SerialBoot Serve]) (rule prod.collapse [symmetric])
  with serial_keeps_admin first_signup show ?thesis by fastforce
qed

text \<open>Overlapping requests break it: two administrators whose requests to deactivate each other have both been
  admitted when the first is carried out leave no active one, although each handler refuses to
  deactivate its own caller.\<close>

definition second_user :: User where
  "second_user = demo_user\<lparr>user_id := 2, user_email := ''b@x''\<rparr>"

definition second_session :: Session where
  "second_session = demo_session\<lparr>sess_id := 2, sess_token_hash := hash_token ''t2'', sess_user_id := 2\<rparr>"

definition two_admins :: console where
  "two_admins = set_store (empty_store\<lparr>users := [demo_user, second_user], sessions := [demo_session, second_session]\<rparr>) demo_console"

definition deactivate_form :: request where
  "deactivate_form = demo_request [(''csrf_token'', ''c'')]"

definition deactivate_second :: request where
  "deactivate_second = deactivate_form\<lparr>req_path_id := 2\<rparr>"

definition deactivate_first :: request where
  "deactivate_first = deactivate_form\<lparr>req_user := Some second_user, req_session := Some second_session, req_path_id := 1\<rparr>"

lemma deactivation_race:
  "admin_exists (con_store two_admins)
   \<and> (\<exists>c1 c2. console_step (two_admins, [(UserDeactivate, deactivate_second), (UserDeactivate, deactivate_first)])
          (c1, [(UserDeactivate, deactivate_first)])
        \<and> console_step (c1, [(UserDeactivate, deactivate_first)]) (c2, []) \<and> \<not> admin_exists (con_store c2))"
proof -
  define c1 where "c1 = snd (call demo_env UserDeactivate deactivate_second two_admins)"
  define c2 where "c2 = snd (call demo_env UserDeactivate deactivate_first c1)"
  have s1: "console_step (two_admins, [] @ (UserDeactivate, deactivate_second) # [(UserDeactivate, deactivate_first)])
      (c1, [] @ [(UserDeactivate, deactivate_first)])"
    unfolding c1_def c2_def by (rule Answer) (rule prod.collapse [symmetric])
  have s2: "console_step (c1, [] @ (UserDeactivate, deactivate_first) # []) (c2, [] @ [])"
    unfolding c1_def c2_def by (rule Answer) (rule prod.collapse [symmetric])
  have g1: "admin_guard deactivate_second = Inr demo_user" "csrf_guard deactivate_second = Inr demo_session"
    using demo_csrf [of "[]"]
    by (simp_all add: deactivate_second_def deactivate_form_def admin_guard_iff csrf_guard_iff demo_request_def demo_user_def)
  have g2: "admin_guard deactivate_first = Inr second_user" "csrf_guard deactivate_first = Inr second_session"
    using demo_csrf [of "[]"]
    by (simp_all add: deactivate_first_def deactivate_form_def admin_guard_iff csrf_guard_iff demo_request_def
        second_user_def second_session_def demo_user_def check_request_csrf_def Let_def)
  have ids: "req_path_id deactivate_second = 2" "req_path_id deactivate_first = 1"
    by (simp_all add: deactivate_second_def deactivate_first_def)
  have u0: "users (con_store two_admins) = [demo_user, second_user]" by (simp add: two_admins_def)
  have u1: "users (con_store c1) = [demo_user, second_user\<lparr>user_active := False\<rparr>]"
    by (simp add: c1_def handle_user_deactivate_def g1 ids u0 Let_def get_user_by_id_def find_key_def set_user_active_def
        update_where_def demo_user_def second_user_def)
  have u2: "users (con_store c2) = [demo_user\<lparr>user_active := False\<rparr>, second_user\<lparr>user_active := False\<rparr>]"
    by (simp add: c2_def handle_user_deactivate_def g2 ids u1 Let_def get_user_by_id_def find_key_def set_user_active_def
        update_where_def demo_user_def second_user_def)
  have "admin_exists (con_store two_admins)" "\<not> admin_exists (con_store c2)"
    using u0 u2 by (simp_all add: admin_exists_def demo_user_def second_user_def)
  with s1 s2 show ?thesis by (simp only: append_Nil) blast
qed

section \<open>Every reachable state\<close>

text \<open>C12: the data stays well-formed. In every state the Console reaches, with any number of requests under way
  and whatever jobs and commands ran: the accounts are consistent (unique addresses, known roles, unique
  token hashes, every session somebody's), the routes are valid for the gateway with distinct paths,
  the stored events have distinct keys and one of the two verdicts, and the ingest queue is within its
  1024 places.\<close>

theorem console_well_formed:
  assumes "console_reachable (c, pending)"
  shows "accounts_ok (con_store c) \<and> endpoints_valid (con_store c) \<and> events_ok (con_store c)
    \<and> (\<exists>b. con_batcher c = Some b \<and> length (bat_queue b) \<le> 1024)"
  using accounts_inv.holds [OF assms] routes_inv.holds [OF assms] events_inv.holds [OF assms] queue_inv.holds [OF assms]
  by (auto simp: queue_ok_def BATCH_QUEUE_SIZE_def split: option.splits)

theorem console_well_formed_witness:
  "accounts_ok (con_store (snd (call demo_env Signup (attach demo_signup None) fresh_console)))"
proof -
  let ?r = "attach demo_signup None"
  have 0: "console_reachable (fresh_console, [])" unfolding fresh_console_def by (rule console_reachable.Boot)
  have "load_session 0 None (con_store fresh_console) = (None, con_store fresh_console)" by (simp add: load_session_def)
  from console_step.Arrive [OF this, of "[]" Signup demo_signup]
  have "console_step (fresh_console, []) (fresh_console, [] @ (Signup, ?r) # [])" by simp
  then have 1: "console_reachable (fresh_console, [] @ (Signup, ?r) # [])" using 0 by (rule console_reachable.Step [rotated])
  have "console_reachable (snd (call demo_env Signup ?r fresh_console), [] @ [])"
    by (rule console_reachable.Step [OF 1 console_step.Answer]) (rule prod.collapse [symmetric])
  from console_well_formed [OF this] show ?thesis by simp
qed

end
