(* ===== verification/JsonRead.thy ===== *)
theory JsonRead
  imports CoreEvents StrictHex
begin

text \<open>
  \<open>json.loads\<close>, which \<open>ingest.decode\<close>, \<open>gwconfig.import_config\<close> and \<open>config.load_config\<close> call: the decoding of
  the bytes, a scanner, and a parser that keeps the open brackets on a stack. The model says what the reader
  returns, or that it raises \<open>JSONDecodeError\<close> or \<open>UnicodeDecodeError\<close>, for the documents whose strings stay
  below U+0100, whose numbers are integers of at most 4300 digits, and whose nesting is at most 500 deep; of other documents it says nothing
  (\<open>Beyond\<close>). A \<open>loads\<close> that agrees with it is a \<open>json_reader\<close>.
\<close>

datatype 'a reading = Read 'a | Malformed | Beyond

section \<open>Bytes to text\<close>

fun decode_latin_utf8 :: "bytes \<Rightarrow> pystr reading" where
  "decode_latin_utf8 [] = Read []"
| "decode_latin_utf8 (b # bs) =
     (if unat b < 128 then map_reading ((#) (char_of (unat b))) (decode_latin_utf8 bs)
      else case bs of
        c # cs \<Rightarrow>
          if (b = 0xC2 \<or> b = 0xC3) \<and> 128 \<le> unat c \<and> unat c < 192
          then map_reading ((#) (char_of ((unat b - 192) * 64 + (unat c - 128)))) (decode_latin_utf8 cs)
          else Beyond
      | [] \<Rightarrow> Malformed)"

text \<open>\<open>json.detect_encoding\<close> looks at a byte order mark and at zero bytes among the first four.\<close>

definition decode_document :: "bytes \<Rightarrow> pystr reading" where
  "decode_document bs =
     (if 0 \<in> set (take 4 bs) \<or> take 1 bs \<in> {[0xEF], [0xFE], [0xFF]} then Beyond else decode_latin_utf8 bs)"

section \<open>The scanner\<close>

datatype token = TNull | TBool bool | TInt int | TStr pystr | TListOpen | TListClose | TObjOpen | TObjClose | TComma | TColon

definition json_escape_char :: "char \<Rightarrow> char option" where
  "json_escape_char c = map_of
     [(CHR 0x22, CHR 0x22), (CHR 0x5C, CHR 0x5C), (CHR ''/'', CHR ''/''), (CHR ''b'', CHR 0x08), (CHR ''f'', CHR 0x0C),
      (CHR ''n'', CHR 0x0A), (CHR ''r'', CHR 0x0D), (CHR ''t'', CHR 0x09)] c"

definition hex4 :: "char \<Rightarrow> char \<Rightarrow> char \<Rightarrow> char \<Rightarrow> nat option" where
  "hex4 a b c d =
     (case (hex_val a, hex_val b, hex_val c, hex_val d) of
        (Some w, Some x, Some y, Some z) \<Rightarrow> Some (((w * 16 + x) * 16 + y) * 16 + z) | _ \<Rightarrow> None)"

text \<open>What a backslash introduces, and the text after it.\<close>

definition scan_escape :: "pystr \<Rightarrow> (char \<times> pystr) reading" where
  "scan_escape s =
     (case s of
        [] \<Rightarrow> Malformed
      | e # r \<Rightarrow>
          if e = CHR ''u'' then
            (case r of
               h1 # h2 # h3 # h4 # r' \<Rightarrow>
                 (case hex4 h1 h2 h3 h4 of
                    None \<Rightarrow> Malformed
                  | Some n \<Rightarrow> if n < 256 then Read (char_of n, r') else Beyond)
             | _ \<Rightarrow> Malformed)
          else (case json_escape_char e of None \<Rightarrow> Malformed | Some x \<Rightarrow> Read (x, r)))"

lemma map_reading_Read [simp]: "map_reading f r = Read y \<longleftrightarrow> (\<exists>x. r = Read x \<and> y = f x)"
  by (cases r) auto

lemma scan_escape_shorter: "scan_escape s = Read (x, rest) \<Longrightarrow> length rest < length s"
  by (auto simp: scan_escape_def split: list.splits option.splits if_splits)

text \<open>The rest of a string after its opening quote, and what follows the closing one.\<close>

function scan_string :: "pystr \<Rightarrow> (pystr \<times> pystr) reading" where
  "scan_string [] = Malformed"
| "scan_string (c # s) =
     (if c = CHR 0x22 then Read ([], s)
      else if c = CHR 0x5C then
        (case scan_escape s of
           Read (x, r) \<Rightarrow> map_reading (\<lambda>(t, rest). (x # t, rest)) (scan_string r)
         | Malformed \<Rightarrow> Malformed
         | Beyond \<Rightarrow> Beyond)
      else if in_range 0 31 c then Malformed
      else map_reading (\<lambda>(t, rest). (c # t, rest)) (scan_string s))"
  by pat_completeness auto

termination
  by (relation "measure length") (auto dest: scan_escape_shorter)

text \<open>Whether a fraction or an exponent follows, which makes the number a float.\<close>

definition is_float_tail :: "pystr \<Rightarrow> bool" where
  "is_float_tail s =
     (case s of
        d # r \<Rightarrow>
          if d = CHR ''.'' then r \<noteq> [] \<and> is_digit (hd r)
          else if d = CHR ''e'' \<or> d = CHR ''E'' then
            (let r' = (if r \<noteq> [] \<and> (hd r = CHR ''+'' \<or> hd r = CHR ''-'') then tl r else r) in r' \<noteq> [] \<and> is_digit (hd r'))
          else False
      | [] \<Rightarrow> False)"

definition scan_int :: "bool \<Rightarrow> pystr \<Rightarrow> (int \<times> pystr) reading" where
  "scan_int neg s =
     (let all = takeWhile is_digit s;
          ds = (if take 1 all = ''0'' then ''0'' else all);
          rest = drop (length ds) s;
          n = int (nat_of_digits (map digit_val ds)) in
      if ds = [] then Malformed
      else if is_float_tail rest \<or> max_str_digits < length ds then Beyond
      else Read (if neg then - n else n, rest))"

lemma scan_string_shorter: "scan_string s = Read (t, rest) \<Longrightarrow> length rest < length s"
proof (induction s arbitrary: t rest rule: scan_string.induct)
  case (2 c s)
  show ?case
  proof (cases "c = CHR 0x5C")
    case True
    with 2 obtain x r t' where "scan_escape s = Read (x, r)" "scan_string r = Read (t', rest)"
      by (auto split: reading.splits)
    with 2(1) True show ?thesis using scan_escape_shorter by fastforce
  next
    case False
    with 2 show ?thesis by (auto split: if_splits simp: less_Suc_eq)
  qed
qed simp

lemma scan_int_shorter:
  assumes "scan_int neg s = Read (n, rest)"
  shows "length rest < length s"
proof -
  let ?ds = "if take 1 (takeWhile is_digit s) = ''0'' then ''0'' else takeWhile is_digit s"
  have r: "rest = drop (length ?ds) s" "?ds \<noteq> []" using assms by (auto simp: scan_int_def Let_def split: if_splits)
  have "takeWhile is_digit s \<noteq> []" using r(2) by (auto split: if_splits)
  then have "s \<noteq> []" by auto
  with r show ?thesis by (simp del: if_split split: if_split_asm)
qed

definition is_json_space :: "char \<Rightarrow> bool" where
  "is_json_space c \<longleftrightarrow> c \<in> {CHR '' '', CHR 0x09, CHR 0x0A, CHR 0x0D}"

definition punctuation :: "char \<Rightarrow> token option" where
  "punctuation c = map_of
     [(CHR ''['', TListOpen), (CHR '']'', TListClose), (CHR 0x7B, TObjOpen), (CHR 0x7D, TObjClose), (CHR '','', TComma), (CHR '':'', TColon)] c"

function scan :: "pystr \<Rightarrow> token list reading" where
  "scan [] = Read []"
| "scan (c # s) =
     (if is_json_space c then scan s
      else case punctuation c of
        Some t \<Rightarrow> map_reading ((#) t) (scan s)
      | None \<Rightarrow>
          if c = CHR 0x22 then
            (case scan_string s of
               Read (t, rest) \<Rightarrow> map_reading ((#) (TStr t)) (scan rest) | Malformed \<Rightarrow> Malformed | Beyond \<Rightarrow> Beyond)
          else if is_digit c then
            (case scan_int False (c # s) of
               Read (n, rest) \<Rightarrow> map_reading ((#) (TInt n)) (scan rest) | Malformed \<Rightarrow> Malformed | Beyond \<Rightarrow> Beyond)
          else if c = CHR ''-'' then
            (if startswith s ''Infinity'' then Beyond
             else case scan_int True s of
               Read (n, rest) \<Rightarrow> map_reading ((#) (TInt n)) (scan rest) | Malformed \<Rightarrow> Malformed | Beyond \<Rightarrow> Beyond)
          else if startswith (c # s) ''null'' then map_reading ((#) TNull) (scan (drop 3 s))
          else if startswith (c # s) ''true'' then map_reading ((#) (TBool True)) (scan (drop 3 s))
          else if startswith (c # s) ''false'' then map_reading ((#) (TBool False)) (scan (drop 4 s))
          else if startswith (c # s) ''NaN'' \<or> startswith (c # s) ''Infinity'' then Beyond
          else Malformed)"
  by pat_completeness auto

termination
  by (relation "measure length")
     (auto simp: less_Suc_eq dest!: scan_string_shorter scan_int_shorter)

section \<open>The parser\<close>

text \<open>A \<open>dict\<close> being filled: a repeated key keeps its place and takes the new value.\<close>

fun dict_put :: "pystr \<Rightarrow> json \<Rightarrow> (pystr \<times> json) list \<Rightarrow> (pystr \<times> json) list" where
  "dict_put k v [] = [(k, v)]"
| "dict_put k v ((k', v') # kvs) = (if k = k' then (k, v) # kvs else (k', v') # dict_put k v kvs)"

datatype frame = InList "json list" | InObj "(pystr \<times> json) list" pystr

text \<open>What the text seen so far allows next.\<close>

datatype parse_state =
    WantValue "frame list"
  | FirstItem "frame list"
  | FirstKey "frame list"
  | NextKey "(pystr \<times> json) list" "frame list"
  | WantColon "(pystr \<times> json) list" pystr "frame list"
  | AfterItem "json list" "frame list"
  | AfterMember "(pystr \<times> json) list" "frame list"
  | Complete json
  | Rejected

fun deliver :: "json \<Rightarrow> frame list \<Rightarrow> parse_state" where
  "deliver v [] = Complete v"
| "deliver v (InList vs # fs) = AfterItem (vs @ [v]) fs"
| "deliver v (InObj kvs k # fs) = AfterMember (dict_put k v kvs) fs"

fun parse_value :: "frame list \<Rightarrow> token \<Rightarrow> parse_state" where
  "parse_value fs TNull = deliver JNull fs"
| "parse_value fs (TBool b) = deliver (JBool b) fs"
| "parse_value fs (TInt n) = deliver (JInt n) fs"
| "parse_value fs (TStr s) = deliver (JStr s) fs"
| "parse_value fs TListOpen = FirstItem fs"
| "parse_value fs TObjOpen = FirstKey fs"
| "parse_value fs _ = Rejected"

fun parse_step :: "parse_state \<Rightarrow> token \<Rightarrow> parse_state" where
  "parse_step (WantValue fs) t = parse_value fs t"
| "parse_step (FirstItem fs) t = (if t = TListClose then deliver (JList []) fs else parse_value (InList [] # fs) t)"
| "parse_step (FirstKey fs) t =
     (case t of TObjClose \<Rightarrow> deliver (JObj []) fs | TStr k \<Rightarrow> WantColon [] k fs | _ \<Rightarrow> Rejected)"
| "parse_step (NextKey kvs fs) t = (case t of TStr k \<Rightarrow> WantColon kvs k fs | _ \<Rightarrow> Rejected)"
| "parse_step (WantColon kvs k fs) t = (if t = TColon then WantValue (InObj kvs k # fs) else Rejected)"
| "parse_step (AfterItem vs fs) t =
     (case t of TComma \<Rightarrow> WantValue (InList vs # fs) | TListClose \<Rightarrow> deliver (JList vs) fs | _ \<Rightarrow> Rejected)"
| "parse_step (AfterMember kvs fs) t =
     (case t of TComma \<Rightarrow> NextKey kvs fs | TObjClose \<Rightarrow> deliver (JObj kvs) fs | _ \<Rightarrow> Rejected)"
| "parse_step (Complete v) t = Rejected"
| "parse_step Rejected t = Rejected"

text \<open>The deepest nesting of brackets in a prefix of the tokens. CPython raises \<open>RecursionError\<close> on a document
  nested too deeply for its stack, which 500 levels are not.\<close>

fun deepest :: "nat \<Rightarrow> token list \<Rightarrow> nat" where
  "deepest n [] = n"
| "deepest n (t # ts) =
     max n (deepest (if t = TListOpen \<or> t = TObjOpen then n + 1 else if t = TListClose \<or> t = TObjClose then n - 1 else n) ts)"

definition max_nesting :: nat where
  "max_nesting = 500"

definition parse_tokens :: "token list \<Rightarrow> json reading" where
  "parse_tokens ts =
     (if max_nesting < deepest 0 ts then Beyond
      else case foldl parse_step (WantValue []) ts of Complete v \<Rightarrow> Read v | _ \<Rightarrow> Malformed)"

definition bind_reading :: "'a reading \<Rightarrow> ('a \<Rightarrow> 'b reading) \<Rightarrow> 'b reading" where
  "bind_reading r f = (case r of Read x \<Rightarrow> f x | Malformed \<Rightarrow> Malformed | Beyond \<Rightarrow> Beyond)"

lemma bind_reading_simps [simp]:
  "bind_reading (Read x) f = f x" "bind_reading Malformed f = Malformed" "bind_reading Beyond f = Beyond"
  by (simp_all add: bind_reading_def)

definition json_read_text :: "pystr \<Rightarrow> json reading" where
  "json_read_text s = bind_reading (scan s) parse_tokens"

definition json_read :: "bytes \<Rightarrow> json reading" where
  "json_read bs = bind_reading (decode_document bs) json_read_text"

text \<open>A \<open>loads\<close> (with \<open>Inl\<close> for the two exceptions, and their text) that agrees with the reader, on bytes and on a string.\<close>

definition agrees :: "('d \<Rightarrow> json reading) \<Rightarrow> ('d \<Rightarrow> pystr + json) \<Rightarrow> bool" where
  "agrees read loads \<longleftrightarrow>
     (\<forall>d. case read d of Read v \<Rightarrow> loads d = Inr v | Malformed \<Rightarrow> (\<exists>m. loads d = Inl m) | Beyond \<Rightarrow> True)"

abbreviation "json_reader \<equiv> agrees json_read"
abbreviation "json_text_reader \<equiv> agrees json_read_text"

text \<open>One that agrees on everything: the reader itself.\<close>

definition loads_by :: "('d \<Rightarrow> json reading) \<Rightarrow> 'd \<Rightarrow> pystr + json" where
  "loads_by read d = (case read d of Read v \<Rightarrow> Inr v | _ \<Rightarrow> Inl [])"

lemma agrees_loads_by [simp]: "agrees read (loads_by read)"
  by (simp add: agrees_def loads_by_def split: reading.split)

lemma agrees_Read: "agrees read loads \<Longrightarrow> read d = Read v \<Longrightarrow> loads d = Inr v"
  unfolding agrees_def by (auto dest: spec [of _ d])

section \<open>Printed text\<close>

text \<open>The tokens of a value, and the values that can be printed and read back: no repeated keys, and no
  integer that \<open>int\<close> or \<open>repr\<close> would refuse.\<close>

fun tokens_of :: "json \<Rightarrow> token list" where
  "tokens_of JNull = [TNull]"
| "tokens_of (JBool b) = [TBool b]"
| "tokens_of (JInt n) = [TInt n]"
| "tokens_of (JStr s) = [TStr s]"
| "tokens_of (JList vs) =
     TListOpen # (case map tokens_of vs of [] \<Rightarrow> [] | p # ps \<Rightarrow> p @ concat (map ((#) TComma) ps)) @ [TListClose]"
| "tokens_of (JObj kvs) =
     TObjOpen # (case map (\<lambda>(k, v). TStr k # TColon # tokens_of v) kvs of [] \<Rightarrow> [] | p # ps \<Rightarrow> p @ concat (map ((#) TComma) ps))
       @ [TObjClose]"

fun readable :: "json \<Rightarrow> bool" where
  "readable (JInt n) \<longleftrightarrow> length (show_nat (nat \<bar>n\<bar>)) \<le> max_str_digits"
| "readable (JList vs) \<longleftrightarrow> list_all readable vs"
| "readable (JObj kvs) \<longleftrightarrow> distinct (map fst kvs) \<and> list_all (\<lambda>(k, v). readable v) kvs"
| "readable _ \<longleftrightarrow> True"

fun nesting :: "json \<Rightarrow> nat" where
  "nesting (JList vs) = Suc (Max (insert 0 (set (map nesting vs))))"
| "nesting (JObj kvs) = Suc (Max (insert 0 (set (map (\<lambda>(k, v). nesting v) kvs))))"
| "nesting _ = 0"

lemma dict_put_fresh: "k \<notin> fst ` set kvs \<Longrightarrow> dict_put k v kvs = kvs @ [(k, v)]"
  by (induction kvs) auto

lemma parse_value_open: "parse_step (WantValue fs) t = parse_value fs t" by simp

lemma tokens_of_head: "\<exists>t ts. tokens_of v = t # ts \<and> t \<noteq> TListClose"
  by (cases v) auto

text \<open>Parsing the tokens of a value where a value is wanted delivers that value.\<close>

lemma parse_items:
  assumes "\<And>v fs. v \<in> set vs \<Longrightarrow> foldl parse_step (WantValue fs) (tokens_of v) = deliver v fs"
  shows "foldl parse_step (AfterItem us fs) (concat (map ((#) TComma) (map tokens_of vs))) = AfterItem (us @ vs) fs"
  using assms
proof (induction vs arbitrary: us)
  case (Cons v vs)
  have "foldl parse_step (WantValue (InList us # fs)) (tokens_of v) = AfterItem (us @ [v]) fs"
    using Cons.prems by simp
  then show ?case using Cons.IH [of "us @ [v]"] Cons.prems by simp
qed simp

lemma parse_members:
  assumes "\<And>k v fs. (k, v) \<in> set kvs \<Longrightarrow> foldl parse_step (WantValue fs) (tokens_of v) = deliver v fs"
    and "distinct (map fst (us @ kvs))"
  shows "foldl parse_step (AfterMember us fs) (concat (map ((#) TComma) (map (\<lambda>(k, v). TStr k # TColon # tokens_of v) kvs)))
    = AfterMember (us @ kvs) fs"
  using assms
proof (induction kvs arbitrary: us)
  case (Cons kv kvs)
  obtain k v where kv: "kv = (k, v)" by (cases kv)
  have "k \<notin> fst ` set us" using Cons.prems(2) kv by auto
  then have "foldl parse_step (WantValue (InObj us k # fs)) (tokens_of v) = AfterMember (us @ [(k, v)]) fs"
    using Cons.prems(1) [of k v "InObj us k # fs"] kv by (simp add: dict_put_fresh)
  moreover have "foldl parse_step (AfterMember (us @ [(k, v)]) fs)
      (concat (map ((#) TComma) (map (\<lambda>(k, v). TStr k # TColon # tokens_of v) kvs))) = AfterMember ((us @ [(k, v)]) @ kvs) fs"
  proof (rule Cons.IH)
    show "foldl parse_step (WantValue fs) (tokens_of v') = deliver v' fs" if "(k', v') \<in> set kvs" for k' v' fs
      by (rule Cons.prems(1) [of k']) (simp add: that)
  qed (use Cons.prems(2) kv in simp)
  ultimately show ?case using kv by simp
qed simp

lemma parse_tokens_of: "readable v \<Longrightarrow> foldl parse_step (WantValue fs) (tokens_of v) = deliver v fs"
proof (induction v arbitrary: fs)
  case (JList vs)
  show ?case
  proof (cases vs)
    case (Cons u us)
    obtain t ts where t: "tokens_of u = t # ts" "t \<noteq> TListClose" using tokens_of_head by blast
    have IH: "foldl parse_step (WantValue fs) (tokens_of v) = deliver v fs" if "v \<in> set vs" for v fs
      using JList that by (simp add: list_all_iff)
    have "foldl parse_step (FirstItem fs) (tokens_of u) = foldl parse_step (WantValue (InList [] # fs)) (tokens_of u)"
      using t by simp
    also have "\<dots> = AfterItem [u] fs" using IH [of u] Cons by simp
    finally show ?thesis using parse_items [of us "[u]" fs] IH Cons by simp
  qed simp
next
  case (JObj kvs)
  show ?case
  proof (cases kvs)
    case (Cons kv us)
    obtain k v where kv: "kv = (k, v)" by (cases kv)
    have IH: "foldl parse_step (WantValue fs) (tokens_of v) = deliver v fs" if "(k, v) \<in> set kvs" for k v fs
      using JObj that by (fastforce simp: list_all_iff)
    have "foldl parse_step (WantValue (InObj [] k # fs)) (tokens_of v) = AfterMember [(k, v)] fs"
      using IH [of k v "InObj [] k # fs"] Cons kv by simp
    moreover have "foldl parse_step (AfterMember [(k, v)] fs)
        (concat (map ((#) TComma) (map (\<lambda>(k, v). TStr k # TColon # tokens_of v) us))) = AfterMember ([(k, v)] @ us) fs"
      by (rule parse_members) (use IH Cons kv JObj.prems in auto)
    ultimately show ?thesis using Cons kv by simp
  qed simp
qed simp_all

text \<open>Nesting as the tokens show it.\<close>

definition brackets :: "token \<Rightarrow> nat \<Rightarrow> nat" where
  "brackets t n = (if t = TListOpen \<or> t = TObjOpen then n + 1 else if t = TListClose \<or> t = TObjClose then n - 1 else n)"

lemma deepest_Cons: "deepest n (t # ts) = max n (deepest (brackets t n) ts)"
  by (simp add: brackets_def)

lemma deepest_ge: "n \<le> deepest n ts"
  by (cases ts) simp_all

lemma deepest_append: "deepest n (ts @ us) = max (deepest n ts) (deepest (foldl (\<lambda>n t. brackets t n) n ts) us)"
  using deepest_ge [of _ us] by (induction ts arbitrary: n) (simp_all add: deepest_Cons max_absorb2 max.assoc del: deepest.simps(2))

definition balanced :: "nat \<Rightarrow> token list \<Rightarrow> bool" where
  "balanced d ts \<longleftrightarrow> (\<forall>n. foldl (\<lambda>n t. brackets t n) n ts = n \<and> deepest n ts \<le> n + d)"

lemma balanced_append: "balanced d ts \<Longrightarrow> balanced d us \<Longrightarrow> balanced d (ts @ us)"
  by (simp add: balanced_def deepest_append)

lemma balanced_concat: "\<forall>ts \<in> set tss. balanced d ts \<Longrightarrow> balanced d (concat tss)"
  by (induction tss) (simp_all add: balanced_append, simp add: balanced_def)

lemma balanced_Cons: "t \<notin> {TListOpen, TListClose, TObjOpen, TObjClose} \<Longrightarrow> balanced d ts \<Longrightarrow> balanced d (t # ts)"
  by (simp add: balanced_def deepest_Cons brackets_def del: deepest.simps(2))

lemma balanced_bracket:
  "balanced d ts \<Longrightarrow> (b, e) \<in> {(TListOpen, TListClose), (TObjOpen, TObjClose)} \<Longrightarrow> balanced (Suc d) (b # ts @ [e])"
  unfolding balanced_def
proof (intro allI)
  fix n
  assume "\<forall>n. foldl (\<lambda>n t. brackets t n) n ts = n \<and> deepest n ts \<le> n + d"
    and be: "(b, e) \<in> {(TListOpen, TListClose), (TObjOpen, TObjClose)}"
  then have "foldl (\<lambda>n t. brackets t n) (n + 1) ts = n + 1" "deepest (n + 1) ts \<le> n + 1 + d" by blast+
  moreover have "brackets b n = n + 1" "brackets e (n + 1) = n" using be by (auto simp: brackets_def)
  ultimately show "foldl (\<lambda>n t. brackets t n) n (b # ts @ [e]) = n \<and> deepest n (b # ts @ [e]) \<le> n + Suc d"
    by (simp add: deepest_Cons deepest_append del: deepest.simps(2))
qed

lemma balanced_mono: "balanced d ts \<Longrightarrow> d \<le> e \<Longrightarrow> balanced e ts"
  by (meson add_left_mono balanced_def le_trans)

text \<open>The parts of a container, and the tokens between its brackets.\<close>

definition commas :: "token list list \<Rightarrow> token list" where
  "commas tss = (case tss of [] \<Rightarrow> [] | p # ps \<Rightarrow> p @ concat (map ((#) TComma) ps))"

lemma commas_simps [simp]:
  "commas [] = []" "commas [p] = p" "commas (p # q # ps) = p @ TComma # commas (q # ps)"
  by (simp_all add: commas_def)

lemma tokens_of_container:
  "tokens_of (JList vs) = TListOpen # commas (map tokens_of vs) @ [TListClose]"
  "tokens_of (JObj kvs) = TObjOpen # commas (map (\<lambda>(k, v). TStr k # TColon # tokens_of v) kvs) @ [TObjClose]"
  by (simp_all add: commas_def)

lemma balanced_commas: "\<forall>ts \<in> set tss. balanced d ts \<Longrightarrow> balanced d (commas tss)"
  by (cases tss) (auto simp: commas_def intro!: balanced_append balanced_concat balanced_Cons, simp add: balanced_def)

lemma balanced_tokens_of: "balanced (nesting v) (tokens_of v)"
proof (induction v)
  case (JList vs)
  have "balanced (Max (insert 0 (set (map nesting vs)))) (tokens_of v)" if "v \<in> set vs" for v
    using JList [OF that] by (rule balanced_mono) (use that in simp)
  then have "balanced (Max (insert 0 (set (map nesting vs)))) (commas (map tokens_of vs))"
    by (intro balanced_commas) simp
  then show ?case unfolding tokens_of_container nesting.simps by (rule balanced_bracket) simp
next
  case (JObj kvs)
  have "balanced (Max (insert 0 (set (map (\<lambda>(k, v). nesting v) kvs)))) (TStr k # TColon # tokens_of v)"
    if "(k, v) \<in> set kvs" for k v
  proof -
    have "nesting v \<in> set (map (\<lambda>(k, v). nesting v) kvs)" using that by force
    then have "nesting v \<le> Max (insert 0 (set (map (\<lambda>(k, v). nesting v) kvs)))" by (intro Max_ge) simp_all
    moreover have "balanced (nesting v) (tokens_of v)" using JObj that by fastforce
    ultimately show ?thesis by (intro balanced_Cons) (auto elim: balanced_mono)
  qed
  then have "balanced (Max (insert 0 (set (map (\<lambda>(k, v). nesting v) kvs)))) (commas (map (\<lambda>(k, v). TStr k # TColon # tokens_of v) kvs))"
    by (auto intro!: balanced_commas)
  then show ?case unfolding tokens_of_container nesting.simps by (rule balanced_bracket) simp
qed (simp_all add: balanced_def brackets_def)

lemma parse_readable: "readable v \<Longrightarrow> nesting v \<le> max_nesting \<Longrightarrow> parse_tokens (tokens_of v) = Read v"
proof -
  assume v: "readable v" "nesting v \<le> max_nesting"
  have "deepest 0 (tokens_of v) \<le> 0 + nesting v" using balanced_tokens_of [of v] unfolding balanced_def by blast
  with v show ?thesis by (simp add: parse_tokens_def parse_tokens_of)
qed

section \<open>Scanning what was printed\<close>

text \<open>A text spells some tokens when the scanner finds them in front of anything that ends a value.\<close>

definition put_tokens :: "token list \<Rightarrow> token list reading \<Rightarrow> token list reading" where
  "put_tokens ts r = map_reading ((@) ts) r"

lemma put_tokens_simps [simp]:
  "put_tokens [] r = r" "put_tokens (ts @ us) r = put_tokens ts (put_tokens us r)" "map_reading ((#) t) r = put_tokens [t] r"
  "put_tokens ts (Read us) = Read (ts @ us)"
  by (cases r; simp add: put_tokens_def)+

definition ends_value :: "pystr \<Rightarrow> bool" where
  "ends_value s \<longleftrightarrow> s = [] \<or> is_json_space (hd s) \<or> hd s \<in> {CHR '','', CHR '']'', CHR 0x7D}"

definition spells :: "pystr \<Rightarrow> token list \<Rightarrow> bool" where
  "spells s ts \<longleftrightarrow> (\<forall>r. ends_value r \<longrightarrow> scan (s @ r) = put_tokens ts (scan r))"

text \<open>A text that spells its tokens in front of anything.\<close>

definition spells_freely :: "pystr \<Rightarrow> token list \<Rightarrow> bool" where
  "spells_freely s ts \<longleftrightarrow> (\<forall>r. scan (s @ r) = put_tokens ts (scan r))"

lemma spells_freely_Nil: "spells_freely [] []"
  by (simp add: spells_freely_def)

lemma spells_freely_spells: "spells_freely s ts \<Longrightarrow> spells s ts"
  by (simp add: spells_freely_def spells_def)

lemma spells_freely_append: "spells_freely s ts \<Longrightarrow> spells_freely t us \<Longrightarrow> spells_freely (s @ t) (ts @ us)"
  by (simp add: spells_freely_def)

lemma spells_after: "spells_freely s ts \<Longrightarrow> spells t us \<Longrightarrow> spells (s @ t) (ts @ us)"
  by (simp add: spells_freely_def spells_def)

lemma spells_before:
  assumes "spells s ts" "spells_freely t us" "t \<noteq> []" "ends_value t"
  shows "spells_freely (s @ t) (ts @ us)"
  unfolding spells_freely_def
proof
  fix r
  have "ends_value (t @ r)" using assms(3,4) by (simp add: ends_value_def)
  with assms(1,2) show "scan ((s @ t) @ r) = put_tokens (ts @ us) (scan r)"
    by (simp add: spells_def spells_freely_def)
qed

lemma spells_space: "list_all is_json_space s \<Longrightarrow> spells_freely s []"
  by (induction s) (simp_all add: spells_freely_def)

lemma spells_punctuation:
  "spells_freely ''['' [TListOpen]" "spells_freely '']'' [TListClose]" "spells_freely [CHR 0x7B] [TObjOpen]"
  "spells_freely [CHR 0x7D] [TObjClose]" "spells_freely '','' [TComma]" "spells_freely '':'' [TColon]"
  by (simp_all add: spells_freely_def is_json_space_def punctuation_def)

lemma hex4_code: "n < 256 \<Longrightarrow> hex4 (CHR ''0'') (CHR ''0'') (hex_digit (n div 16)) (hex_digit (n mod 16)) = Some n"
proof -
  assume n: "n < 256"
  have "hex_val (CHR ''0'') = Some 0" by (simp add: hex_val_def in_range_def)
  moreover have "hex_val (hex_digit (n div 16)) = Some (n div 16)" using n by (intro hex_val_digit) (simp add: less_mult_imp_div_less)
  moreover have "hex_val (hex_digit (n mod 16)) = Some (n mod 16)" by (intro hex_val_digit) simp
  ultimately show ?thesis by (simp add: hex4_def)
qed

lemma scan_json_char:
  "scan_string (json_char c @ s) = map_reading (\<lambda>(t, rest). (c # t, rest)) (scan_string s)"
proof -
  consider "c \<in> {CHR 0x22, CHR 0x5C, CHR 0x0A, CHR 0x0D, CHR 0x09, CHR 0x0C, CHR 0x08}"
    | "c \<notin> {CHR 0x22, CHR 0x5C, CHR 0x0A, CHR 0x0D, CHR 0x09, CHR 0x0C, CHR 0x08}" "in_range 32 126 c"
    | "c \<notin> {CHR 0x22, CHR 0x5C, CHR 0x0A, CHR 0x0D, CHR 0x09, CHR 0x0C, CHR 0x08}" "\<not> in_range 32 126 c" by blast
  then show ?thesis
  proof cases
    case 1
    then show ?thesis by (auto simp: json_char_def scan_escape_def json_escape_char_def)
  next
    case 2
    then have "\<not> in_range 0 31 c" by (simp add: in_range_def)
    with 2 show ?thesis by (simp add: json_char_def)
  next
    case 3
    have "(of_char c :: nat) < 256" by simp
    then have "scan_escape (CHR ''u'' # CHR ''0'' # CHR ''0'' # hex_digit (of_char c div 16) # hex_digit (of_char c mod 16) # s) = Read (c, s)"
      by (simp add: scan_escape_def hex4_code)
    with 3 show ?thesis by (simp add: json_char_def)
  qed
qed

lemma scan_json_string: "scan_string (concat (map json_char s) @ CHR 0x22 # r) = Read (s, r)"
  by (induction s) (simp_all add: scan_json_char)

lemma spells_string: "spells_freely (json_string s) [TStr s]"
proof -
  have "scan (CHR 0x22 # x) = (case scan_string x of Read (t, rest) \<Rightarrow> map_reading ((#) (TStr t)) (scan rest)
      | Malformed \<Rightarrow> Malformed | Beyond \<Rightarrow> Beyond)" for x
    by (simp add: is_json_space_def punctuation_def)
  then show ?thesis by (simp add: spells_freely_def json_string_def scan_json_string del: scan.simps)
qed

lemma digit_facts:
  assumes "is_digit c"
  shows "\<not> is_json_space c" "punctuation c = None" "c \<noteq> CHR 0x22" "c \<noteq> CHR ''-''" "c \<noteq> CHR ''I''"
  using assms by (auto simp: is_json_space_def punctuation_def is_digit_def in_range_def)

lemma ends_value_not_number:
  assumes "ends_value r"
  shows "\<not> is_float_tail r" "takeWhile is_digit r = []"
  using assms by (cases r; auto simp: ends_value_def is_float_tail_def is_json_space_def is_digit_def in_range_def)+

lemma show_nat_leading_zero: "hd (show_nat n) = CHR ''0'' \<Longrightarrow> n = 0"
proof (induction n rule: show_nat.induct)
  case (1 n)
  show ?case
  proof (cases "n < 10")
    case True
    then have "(of_char (hd (show_nat n)) :: nat) = 48 + n" by (subst show_nat.simps) simp
    with 1(2) show ?thesis by simp
  next
    case False
    then have "hd (show_nat n) = hd (show_nat (n div 10))" by (subst show_nat.simps) simp
    with 1 False have "n div 10 = 0" by simp
    with False show ?thesis by simp
  qed
qed

lemma scan_int_show_nat:
  assumes "ends_value r" "length (show_nat n) \<le> max_str_digits"
  shows "scan_int neg (show_nat n @ r) = Read (if neg then - int n else int n, r)"
proof -
  have all: "takeWhile is_digit (show_nat n @ r) = show_nat n"
    using show_nat_digits [of n] ends_value_not_number(2) [OF assms(1)]
    by (simp add: list_all_iff takeWhile_append2)
  have z: "(if take 1 (show_nat n) = ''0'' then ''0'' else show_nat n) = show_nat n"
  proof (cases "take 1 (show_nat n) = ''0''")
    case True
    then have "n = 0" using show_nat_leading_zero by (cases "show_nat n") auto
    then show ?thesis by (simp add: show_nat.simps digit_char_def)
  qed simp
  show ?thesis
    using assms ends_value_not_number(1) [OF assms(1)]
    unfolding scan_int_def Let_def all z by (simp add: nat_of_digits_show_nat)
qed

lemma spells_int:
  assumes "length (show_nat (nat \<bar>n\<bar>)) \<le> max_str_digits"
  shows "spells (show_int n) [TInt n]"
  unfolding spells_def
proof (intro allI impI)
  fix r
  assume r: "ends_value r"
  let ?d = "show_nat (nat \<bar>n\<bar>)"
  obtain c t where ct: "?d = c # t" by (cases ?d) auto
  have c: "is_digit c" using show_nat_ends [of "nat \<bar>n\<bar>"] ct by simp
  show "scan (show_int n @ r) = put_tokens [TInt n] (scan r)"
  proof (cases "n < 0")
    case True
    then have n: "show_int n = CHR ''-'' # c # t" using ct by (simp add: show_int_def)
    have s: "scan_int True (c # t @ r) = Read (n, r)" using scan_int_show_nat [OF r assms, of True] ct True by simp
    from s digit_facts(5) [OF c] show ?thesis by (simp add: n is_json_space_def punctuation_def is_digit_def in_range_def)
  next
    case False
    then have n: "show_int n = c # t" using ct by (simp add: show_int_def)
    have s: "scan_int False (c # t @ r) = Read (n, r)" using scan_int_show_nat [OF r assms, of False] ct False by simp
    then show ?thesis using digit_facts [OF c] c by (simp add: n)
  qed
qed

lemma spells_literals: "spells_freely ''null'' [TNull]" "spells_freely (if b then ''true'' else ''false'') [TBool b]"
  by (simp_all add: spells_freely_def is_json_space_def punctuation_def is_digit_def in_range_def)

section \<open>Printers\<close>

text \<open>A list of parts, printed between two brackets with some white space and a comma between them.\<close>

lemma join_with_Cons: "join_with sep (p # ps) = p @ concat (map ((@) sep) ps)"
  by (induction ps arbitrary: p) simp_all

lemma spells_parts:
  assumes "\<And>x. x \<in> set xs \<Longrightarrow> spells (f x) (g x)" "list_all is_json_space sp" "spells_freely close end" "close \<noteq> []" "ends_value close"
  shows "spells_freely (join_with (CHR '','' # sp) (map f xs) @ close) (commas (map g xs) @ end)"
  using assms(1)
proof (induction xs rule: induct_list012)
  case 1
  then show ?case using assms(3) by simp
next
  case (2 x)
  then show ?case using spells_before [OF _ assms(3-5)] by simp
next
  case (3 x y zs)
  have "spells_freely ('','' @ sp) [TComma]"
    using spells_freely_append [OF spells_punctuation(5) spells_space [OF assms(2)]] by simp
  from spells_freely_append [OF this "3.IH"(2)] "3.prems"
  have rest: "spells_freely (CHR '','' # sp @ join_with (CHR '','' # sp) (map f (y # zs)) @ close)
      (TComma # commas (map g (y # zs)) @ end)" by simp
  have "spells (f x) (g x)" using "3.prems" by simp
  from spells_before [OF this rest] show ?case by (simp add: ends_value_def)
qed

lemma spells_member:
  assumes "spells s ts" "list_all is_json_space sp"
  shows "spells (json_string k @ CHR '':'' # sp @ s) (TStr k # TColon # ts)"
proof -
  have "spells (sp @ s) ts" using spells_after [OF spells_space [OF assms(2)] assms(1)] by simp
  from spells_after [OF spells_punctuation(6) this] have "spells (CHR '':'' # sp @ s) (TColon # ts)" by simp
  from spells_after [OF spells_string this] show ?thesis by simp
qed

lemma spells_atom: "readable v \<Longrightarrow> (\<nexists>vs. v = JList vs) \<Longrightarrow> (\<nexists>kvs. v = JObj kvs) \<Longrightarrow> spells (dumps v) (tokens_of v)"
  using spells_int spells_string spells_literals spells_freely_spells by (cases v) auto

lemma spells_closing:
  assumes "list_all is_json_space post" "(c, t) \<in> {(CHR '']'', TListClose), (CHR 0x7D, TObjClose)}"
  shows "spells_freely (post @ [c]) [t]" "post @ [c] \<noteq> []" "ends_value (post @ [c])"
proof -
  have "spells_freely [c] [t]" using assms(2) spells_punctuation by auto
  from spells_freely_append [OF spells_space [OF assms(1)] this] show "spells_freely (post @ [c]) [t]" by simp
  show "post @ [c] \<noteq> []" "ends_value (post @ [c])" using assms by (cases post; auto simp: ends_value_def)+
qed

lemma spells_list:
  assumes "\<And>v. v \<in> set vs \<Longrightarrow> spells (f v) (tokens_of v)"
    and "list_all is_json_space pre" "list_all is_json_space sep" "list_all is_json_space post"
  shows "spells (''['' @ pre @ join_with (CHR '','' # sep) (map f vs) @ post @ '']'') (tokens_of (JList vs))"
proof -
  note close = spells_closing [OF assms(4), of "CHR '']''" TListClose, simplified]
  have "spells_freely (join_with (CHR '','' # sep) (map f vs) @ post @ '']'') (commas (map tokens_of vs) @ [TListClose])"
    by (rule spells_parts) (use assms close in simp_all)
  from spells_freely_append [OF spells_freely_append [OF spells_punctuation(1) spells_space [OF assms(2)]] this]
  show ?thesis unfolding tokens_of_container by (intro spells_freely_spells) simp
qed

lemma spells_obj:
  assumes "\<And>k v. (k, v) \<in> set kvs \<Longrightarrow> spells (f v) (tokens_of v)"
    and "list_all is_json_space pre" "list_all is_json_space sep" "list_all is_json_space post" "list_all is_json_space sp"
  shows "spells (CHR 0x7B # pre @ join_with (CHR '','' # sep) (map (\<lambda>(k, v). json_string k @ CHR '':'' # sp @ f v) kvs) @ post @ [CHR 0x7D])
    (tokens_of (JObj kvs))"
proof -
  note close = spells_closing [OF assms(4), of "CHR 0x7D" TObjClose, simplified]
  have m: "spells (case kv of (k, v) \<Rightarrow> json_string k @ CHR '':'' # sp @ f v) (case kv of (k, v) \<Rightarrow> TStr k # TColon # tokens_of v)"
    if "kv \<in> set kvs" for kv
    using spells_member [OF assms(1) assms(5)] that by (cases kv) auto
  have "spells_freely (join_with (CHR '','' # sep) (map (\<lambda>(k, v). json_string k @ CHR '':'' # sp @ f v) kvs) @ post @ [CHR 0x7D])
      (commas (map (\<lambda>(k, v). TStr k # TColon # tokens_of v) kvs) @ [TObjClose])"
    by (rule spells_parts [OF m]) (use assms close in simp_all)
  from spells_freely_append [OF spells_freely_append [OF spells_punctuation(3) spells_space [OF assms(2)]] this]
  show ?thesis unfolding tokens_of_container by (intro spells_freely_spells) simp
qed

text \<open>\<open>json.dumps\<close> with compact separators.\<close>

lemma spells_dumps: "readable v \<Longrightarrow> spells (dumps v) (tokens_of v)"
proof (induction v)
  case (JList vs)
  then show ?case using spells_list [of vs dumps "[]" "[]" "[]"] by (simp add: list_all_iff del: tokens_of.simps)
next
  case (JObj kvs)
  have "spells (dumps v) (tokens_of v)" if "(k, v) \<in> set kvs" for k v using JObj that by (fastforce simp: list_all_iff)
  then show ?case using spells_obj [of kvs dumps "[]" "[]" "[]" "[]"] by (simp del: tokens_of.simps)
qed (rule spells_atom; simp)+

section \<open>Reading back\<close>

lemma decode_latin_utf8_inverse: "decode_latin_utf8 (encode_utf8 s) = Read s"
proof (induction s)
  case (Cons c s)
  have n: "(of_char c :: nat) < 256" by simp
  show ?case
  proof (cases "(of_char c :: nat) < 128")
    case True
    with Cons show ?thesis by (simp add: encode_utf8_Cons utf8_char_def)
  next
    case False
    let ?n = "of_char c :: nat"
    have hi: "?n div 64 = 2 \<or> ?n div 64 = 3" using False n by linarith
    define x y :: byte where xy: "x = of_nat (192 + ?n div 64)" "y = of_nat (128 + ?n mod 64)"
    have u: "unat x = 192 + ?n div 64" "unat y = 128 + ?n mod 64"
      unfolding xy using hi by (intro unat_of_nat_byte; linarith)+
    have x: "x = 0xC2 \<or> x = 0xC3" using hi by (auto simp: xy)
    have e: "encode_utf8 (c # s) = x # y # encode_utf8 s"
      using False by (simp only: encode_utf8_Cons utf8_char_def Let_def if_False append_Cons append_Nil xy)
    have "?n mod 64 < 64" by simp
    with Cons x show ?thesis by (simp add: e u)
  qed
qed simp

definition printed_char :: "char \<Rightarrow> bool" where
  "printed_char c \<longleftrightarrow> in_range 32 126 c \<or> c = CHR 0x0A"

lemma decode_document_printed: "list_all printed_char s \<Longrightarrow> decode_document (encode_utf8 s) = Read s"
proof -
  assume s: "list_all printed_char s"
  have u: "utf8_char c = [of_char c] \<and> (of_char c :: byte) \<noteq> 0 \<and> unat (of_char c :: byte) < 128" if "c \<in> set s" for c
  proof -
    have "printed_char c" using s that by (simp add: list_all_iff)
    then have n: "0 < (of_char c :: nat)" "(of_char c :: nat) < 128" by (auto simp: printed_char_def in_range_def)
    have e: "(of_char c :: byte) = of_nat (of_char c :: nat)" by (simp only: of_nat_of_char)
    have v: "unat (of_char c :: byte) = of_char c" unfolding e using n(2) by (intro unat_of_nat_byte) simp
    with n have "(of_char c :: byte) \<noteq> 0" by (metis less_numeral_extra(3) unat_0)
    with n v show ?thesis by (simp add: utf8_char_def of_nat_of_char)
  qed
  then have e: "encode_utf8 s = map of_char s" by (simp add: encode_utf8_def concat_map_singleton cong: map_cong)
  have b: "b \<noteq> 0 \<and> unat b < 128" if "b \<in> set (encode_utf8 s)" for b using that u by (auto simp: e)
  have "0 \<notin> set (take 4 (encode_utf8 s))" using b in_set_takeD by fastforce
  moreover have "take 1 (encode_utf8 s) \<notin> {[0xEF], [0xFE], [0xFF]}"
    using b [of "hd (encode_utf8 s)"] by (cases "encode_utf8 s") auto
  ultimately show ?thesis unfolding decode_document_def using decode_latin_utf8_inverse by simp
qed

text \<open>Any text that spells the tokens of a value reads back as the value.\<close>

lemma read_spelled:
  assumes "spells s (tokens_of v)" "readable v" "nesting v \<le> max_nesting"
  shows "json_read_text s = Read v" "list_all printed_char s \<Longrightarrow> json_read (encode_utf8 s) = Read v"
proof -
  have "ends_value []" by (simp add: ends_value_def)
  then have "scan s = Read (tokens_of v)" using assms(1) by (fastforce simp: spells_def)
  then show "json_read_text s = Read v" using assms by (simp add: json_read_text_def parse_readable)
  then show "list_all printed_char s \<Longrightarrow> json_read (encode_utf8 s) = Read v"
    by (simp add: json_read_def decode_document_printed)
qed

lemma read_dumps:
  assumes "readable v" "nesting v \<le> max_nesting"
  shows "json_read (encode_utf8 (dumps v)) = Read v"
proof (rule read_spelled [OF spells_dumps])
  show "list_all printed_char (dumps v)" using dumps_printable [of v] by (simp add: list_all_iff printed_char_def)
qed (use assms in simp_all)

end
