(* ===== verification/IsoTime.thy ===== *)
theory IsoTime
  imports JsonRead
begin

text \<open>
  \<open>datetime.fromisoformat\<close>, which \<open>events.parse_timestamp\<close> and \<open>logs._parse_local_datetime\<close> call, on the extended
  format: a date \<open>YYYY-MM-DD\<close>, then any one character, hours, minutes, seconds and a fraction, each optional, and a
  zone, \<open>Z\<close> or a signed offset. The other formats it takes (the basic format, week dates) are \<open>Beyond\<close>. What
  \<open>format_timestamp\<close> prints reads back as the same microsecond.
\<close>

section \<open>Fields\<close>

definition digits_val :: "pystr \<Rightarrow> int" where
  "digits_val s = int (nat_of_digits (map digit_val s))"

definition fixed :: "nat \<Rightarrow> pystr \<Rightarrow> (int \<times> pystr) option" where
  "fixed w s = (if w \<le> length s \<and> list_all is_digit (take w s) then Some (digits_val (take w s), drop w s) else None)"

definition lit :: "char \<Rightarrow> pystr \<Rightarrow> pystr option" where
  "lit c s = (case s of d # r \<Rightarrow> if d = c then Some r else None | [] \<Rightarrow> None)"

definition iso_date :: "pystr \<Rightarrow> ((int \<times> int \<times> int) \<times> pystr) option" where
  "iso_date s =
     Option.bind (fixed 4 s) (\<lambda>(y, s). Option.bind (lit (CHR ''-'') s) (\<lambda>s.
     Option.bind (fixed 2 s) (\<lambda>(m, s). Option.bind (lit (CHR ''-'') s) (\<lambda>s.
     Option.bind (fixed 2 s) (\<lambda>(d, s). Some ((y, m, d), s))))))"

definition micros :: "pystr \<Rightarrow> int" where
  "micros f = digits_val (take 6 (f @ replicate 6 (CHR ''0'')))"

text \<open>A time of day: what the digits left out stand for is 0, and digits past the microsecond are cut off.\<close>

definition iso_clock :: "pystr \<Rightarrow> (int \<times> int \<times> int \<times> int) option" where
  "iso_clock s =
     Option.bind (fixed 2 s) (\<lambda>(h, s).
       if s = [] then Some (h, 0, 0, 0)
       else Option.bind (Option.bind (lit (CHR '':'') s) (fixed 2)) (\<lambda>(m, s).
         if s = [] then Some (h, m, 0, 0)
         else Option.bind (Option.bind (lit (CHR '':'') s) (fixed 2)) (\<lambda>(sec, s).
           case s of
             [] \<Rightarrow> Some (h, m, sec, 0)
           | c # f \<Rightarrow> if (c = CHR ''.'' \<or> c = CHR '','') \<and> f \<noteq> [] \<and> list_all is_digit f then Some (h, m, sec, micros f) else None)))"

definition clock_us :: "int \<times> int \<times> int \<times> int \<Rightarrow> int" where
  "clock_us c = (case c of (h, m, s, us) \<Rightarrow> ((h * 60 + m) * 60 + s) * 1000000 + us)"

section \<open>The reader\<close>

text \<open>What \<open>datetime(...)\<close> accepts; hour 24 depends on the version of Python.\<close>

definition valid_date :: "int \<times> int \<times> int \<Rightarrow> bool" where
  "valid_date x = (case x of (y, m, d) \<Rightarrow> 1 \<le> y \<and> y \<le> 9999 \<and> 1 \<le> m \<and> m \<le> 12 \<and> 1 \<le> d \<and> d \<le> days_in_month y m)"

definition iso_offset :: "pystr \<Rightarrow> usec option reading" where
  "iso_offset z =
     (case z of
        [] \<Rightarrow> Read None
      | c # t \<Rightarrow>
          if c = CHR ''Z'' then (if t = [] then Read (Some 0) else Malformed)
          else case iso_clock t of
            Some (h, m, s, us) \<Rightarrow>
              if h < 24 \<and> m < 60 \<and> s < 60
              then Read (Some (if c = CHR ''-'' then - clock_us (h, m, s, us) else clock_us (h, m, s, us)))
              else Beyond
          | None \<Rightarrow> Beyond)"

definition iso_time :: "pystr \<Rightarrow> (int \<times> usec option) reading" where
  "iso_time t =
     (let no_zone = (\<lambda>c. c \<noteq> CHR ''-'' \<and> c \<noteq> CHR ''+'' \<and> c \<noteq> CHR ''Z'') in
      case iso_clock (takeWhile no_zone t) of
        None \<Rightarrow> Beyond
      | Some (h, m, s, us) \<Rightarrow>
          if h = 24 then Beyond
          else bind_reading (iso_offset (dropWhile no_zone t)) (\<lambda>zone.
            if h < 24 \<and> m < 60 \<and> s < 60 then Read (clock_us (h, m, s, us), zone) else Malformed))"

text \<open>The wall clock, in microseconds since the start of 1970, and the offset when there is one.\<close>

definition iso_read :: "pystr \<Rightarrow> (usec \<times> usec option) reading" where
  "iso_read s =
     (case iso_date s of
        None \<Rightarrow> Beyond
      | Some (x, rest) \<Rightarrow>
          bind_reading (case rest of [] \<Rightarrow> Read (0, None) | c # t \<Rightarrow> iso_time t) (\<lambda>(clock, zone).
            if valid_date x then Read ((ymd_to_days x - EPOCH_DAYS) * DAY_US + clock, zone) else Malformed))"

text \<open>A \<open>parse_timestamp\<close> and a \<open>fromisoformat(...).replace(tzinfo=UTC)\<close> that agree with the reader. The timestamp of a
  datetime without a zone depends on the zone of the machine.\<close>

definition timestamp_reader :: "(pystr \<Rightarrow> usec py) \<Rightarrow> bool" where
  "timestamp_reader parse_ts \<longleftrightarrow>
     (\<forall>s. case iso_read s of
        Read (t, Some z) \<Rightarrow> parse_ts s = Inr (t - z)
      | Read (t, None) \<Rightarrow> True
      | Malformed \<Rightarrow> (\<exists>m. parse_ts s = Inl (ValueErr m))
      | Beyond \<Rightarrow> True)"

definition local_reader :: "(pystr \<Rightarrow> usec py) \<Rightarrow> bool" where
  "local_reader parse_iso \<longleftrightarrow>
     (\<forall>s. case iso_read s of Read (t, _) \<Rightarrow> parse_iso s = Inr t | Malformed \<Rightarrow> (\<exists>m. parse_iso s = Inl (ValueErr m)) | Beyond \<Rightarrow> True)"

section \<open>Padded numbers\<close>

lemma length_show_nat: "0 < w \<Longrightarrow> n < 10 ^ w \<Longrightarrow> length (show_nat n) \<le> w"
proof (induction w arbitrary: n)
  case (Suc w)
  show ?case
  proof (cases "n < 10")
    case False
    then have "w \<noteq> 0" using Suc.prems by (intro notI) simp
    moreover have "n div 10 < 10 ^ w" using Suc.prems by (simp add: less_mult_imp_div_less mult.commute)
    ultimately have "length (show_nat (n div 10)) \<le> w" using Suc.IH by simp
    with False show ?thesis by (subst show_nat.simps) simp
  qed (subst show_nat.simps, simp)
qed simp

lemma digits_val_zeros: "digits_val (replicate k (CHR ''0'') @ s) = digits_val s"
proof -
  have "foldl (\<lambda>a d. 10 * a + d) 0 (replicate k 0 @ ds) = foldl (\<lambda>a d. 10 * a + d) 0 ds" for ds :: "nat list"
    by (induction k) simp_all
  then show ?thesis by (simp add: digits_val_def nat_of_digits_def digit_val_def)
qed

lemma pad_facts:
  assumes "0 \<le> n" "n < 10 ^ w" "0 < w"
  shows "length (pad w n) = w" "list_all is_digit (pad w n)" "digits_val (pad w n) = n"
proof -
  have "nat n < 10 ^ w" using assms by (simp add: nat_less_iff)
  then have l: "length (show_nat (nat n)) \<le> w" by (rule length_show_nat [OF assms(3)])
  then show "length (pad w n) = w" by (simp add: pad_def Let_def)
  show "list_all is_digit (pad w n)"
    using show_nat_digits [of "nat n"] by (auto simp: pad_def Let_def list_all_iff is_digit_def in_range_def)
  show "digits_val (pad w n) = n"
    using assms(1) unfolding pad_def Let_def digits_val_zeros by (simp add: digits_val_def nat_of_digits_show_nat)
qed

lemma fixed_pad: "0 \<le> n \<Longrightarrow> n < 10 ^ w \<Longrightarrow> 0 < w \<Longrightarrow> fixed w (pad w n @ r) = Some (n, r)"
  using pad_facts [of n w] by (simp add: fixed_def)

lemma lit_same [simp]: "lit c (c # r) = Some r"
  by (simp add: lit_def)

section \<open>The calendar\<close>

lemma ymd_month_day:
  assumes "month_day y n = (m, d)"
  shows "days_before_month y m + (d - 1) = n"
  using assms by (auto simp: month_day_def Let_def)

lemma days_before_next_month: "1 \<le> m \<Longrightarrow> days_before_month y (m + 1) = days_before_month y m + days_in_month y m"
  using upto_rec2 [of 1 m] by (simp add: days_before_month_def)

lemma days_before_december: "days_before_month y 12 = (if is_leap y then 335 else 334)"
  by (simp add: days_before_month_def days_in_month_def upto.simps)

lemma month_day_valid:
  assumes "month_day y n = (m, d)" "0 \<le> n" "n < (if is_leap y then 366 else 365)"
  shows "1 \<le> m \<and> m \<le> 12 \<and> 1 \<le> d \<and> d \<le> days_in_month y m"
proof (cases "find (\<lambda>m. n < days_before_month y (m + 1)) [1 .. 11]")
  case None
  have "\<not> n < days_before_month y (11 + 1)" using None unfolding find_None_iff by (metis atLeastAtMost_iff set_upto order_refl one_le_numeral)
  with None assms show ?thesis
    by (auto simp: month_day_def Let_def days_before_december days_in_month_def split: if_splits)
next
  case (Some k)
  then obtain i where i: "i < length [1 .. 11 :: int]" "n < days_before_month y ([1 .. 11] ! i + 1)" "k = [1 .. 11] ! i"
      "\<forall>j < i. \<not> n < days_before_month y ([1 .. 11] ! j + 1)" unfolding find_Some_iff by auto
  have k: "k = 1 + int i" "i < 11" using i(1,3) by simp_all
  have "days_before_month y k \<le> n"
  proof (cases i)
    case 0
    then show ?thesis using assms(2) k by (simp add: days_before_month_def)
  next
    case (Suc j)
    then have "\<not> n < days_before_month y ([1 .. 11] ! j + 1)" using i(4) by blast
    then show ?thesis using Suc k by simp
  qed
  moreover have "n < days_before_month y k + days_in_month y k" using i(2,3) k days_before_next_month [of k] by simp
  ultimately show ?thesis using assms(1) Some k by (auto simp: month_day_def Let_def)
qed

text \<open>A day number as cycles of 400, 100, 4 and 1 years and a day of the year.\<close>

lemma cycles:
  fixes n :: int
  defines "a \<equiv> n div 146097" and "b \<equiv> n mod 146097 div 36524" and "c \<equiv> n mod 146097 mod 36524 div 1461"
    and "d \<equiv> n mod 146097 mod 36524 mod 1461 div 365" and "e \<equiv> n mod 146097 mod 36524 mod 1461 mod 365"
  shows "n = 146097 * a + 36524 * b + 1461 * c + 365 * d + e" "0 \<le> b" "b \<le> 4" "0 \<le> c" "c \<le> 24" "0 \<le> d" "d \<le> 4"
    "0 \<le> e" "e < 365" "b = 4 \<Longrightarrow> c = 0 \<and> d = 0 \<and> e = 0" "d = 4 \<Longrightarrow> e = 0 \<and> c < 24"
proof -
  have steps: "n = 146097 * a + n mod 146097" "n mod 146097 = 36524 * b + n mod 146097 mod 36524"
    "n mod 146097 mod 36524 = 1461 * c + n mod 146097 mod 36524 mod 1461" "n mod 146097 mod 36524 mod 1461 = 365 * d + e"
    unfolding assms by simp_all
  have rests: "0 \<le> n mod 146097" "n mod 146097 < 146097" "0 \<le> n mod 146097 mod 36524" "n mod 146097 mod 36524 < 36524"
    "0 \<le> n mod 146097 mod 36524 mod 1461" "n mod 146097 mod 36524 mod 1461 < 1461" by simp_all
  show "0 \<le> e" "e < 365" unfolding assms by simp_all
  show "n = 146097 * a + 36524 * b + 1461 * c + 365 * d + e" using steps by linarith
  show bcd: "0 \<le> b" "0 \<le> c" "0 \<le> d" unfolding assms by (simp_all add: pos_imp_zdiv_nonneg_iff)
  show "b \<le> 4" "c \<le> 24" "d \<le> 4" using steps rests \<open>0 \<le> e\<close> by linarith+
  show "c = 0 \<and> d = 0 \<and> e = 0" if "b = 4"
  proof -
    have "n mod 146097 mod 36524 = 0" using that steps(2) rests by linarith
    with steps(3,4) rests bcd \<open>0 \<le> e\<close> show ?thesis by linarith
  qed
  show "e = 0 \<and> c < 24" if "d = 4" using that steps(3,4) rests \<open>0 \<le> e\<close> by linarith
qed

lemma days_before_year_cycles:
  assumes "0 \<le> b" "b \<le> 3" "0 \<le> c" "c \<le> 24" "0 \<le> d" "d \<le> 3"
  shows "days_before_year (400 * a + 100 * b + 4 * c + d + 1) = 146097 * a + 36524 * b + 1461 * c + 365 * d"
proof -
  let ?p = "400 * a + 100 * b + 4 * c + d"
  have "?p div 4 = 100 * a + 25 * b + c" "?p div 100 = 4 * a + b" "?p div 400 = a"
    by (rule int_div_pos_eq [of _ _ _ d] int_div_pos_eq [of _ _ _ "4 * c + d"] int_div_pos_eq [of _ _ _ "100 * b + 4 * c + d"];
        use assms in simp)+
  then show ?thesis by (simp add: days_before_year_def Let_def)
qed

lemma mod_first_multiple: "0 < x \<Longrightarrow> x \<le> k \<Longrightarrow> x mod k = 0 \<longleftrightarrow> x = k" for x k :: int
  by (cases "x = k") simp_all

lemma leap_cycles:
  assumes "0 \<le> b" "b \<le> 3" "0 \<le> c" "c \<le> 24" "0 \<le> d" "d \<le> 3"
  shows "is_leap (400 * a + 100 * b + 4 * c + d + 1) \<longleftrightarrow> d = 3 \<and> (c < 24 \<or> b = 3)"
proof -
  let ?y = "400 * a + 100 * b + 4 * c + d + 1"
  have "?y mod 4 = (d + 1) mod 4" "?y mod 100 = (4 * c + d + 1) mod 100" "?y mod 400 = (100 * b + 4 * c + d + 1) mod 400"
    using mod_mult_self2 [of "d + 1" 4 "100 * a + 25 * b + c"] mod_mult_self2 [of "4 * c + d + 1" 100 "4 * a + b"]
      mod_mult_self2 [of "100 * b + 4 * c + d + 1" 400 a] by (simp_all add: algebra_simps)
  moreover have "(d + 1) mod 4 = 0 \<longleftrightarrow> d = 3" "(4 * c + d + 1) mod 100 = 0 \<longleftrightarrow> d = 3 \<and> c = 24"
    "(100 * b + 4 * c + d + 1) mod 400 = 0 \<longleftrightarrow> d = 3 \<and> c = 24 \<and> b = 3"
    using assms by (subst mod_first_multiple; linarith)+
  ultimately show ?thesis using assms by (auto simp: is_leap_def)
qed

lemma last_of_leap_year:
  assumes "0 \<le> b" "b \<le> 3" "0 \<le> c" "c \<le> 24" "c < 24 \<or> b = 3" "y = 400 * a + 100 * b + 4 * c + 4"
  shows "ymd_to_days (y, 12, 31) = 146097 * a + 36524 * b + 1461 * c + 1460"
proof -
  have y: "y = 400 * a + 100 * b + 4 * c + 3 + 1" using assms(6) by simp
  have "is_leap y" unfolding y using leap_cycles [of b c 3 a] assms by simp
  moreover have "days_before_year y = 146097 * a + 36524 * b + 1461 * c + 1095"
    unfolding y using days_before_year_cycles [of b c 3 a] assms by simp
  ultimately show ?thesis by (simp add: ymd_to_days_def days_before_december)
qed

text \<open>A date is the date of its day number.\<close>

lemma days_to_ymd_inverse:
  assumes "days_to_ymd n = (y, m, k)"
  shows "ymd_to_days (y, m, k) = n" "1 \<le> m \<and> m \<le> 12 \<and> 1 \<le> k \<and> k \<le> days_in_month y m"
proof -
  define a b c d e where abcde: "a = n div 146097" "b = n mod 146097 div 36524" "c = n mod 146097 mod 36524 div 1461"
    "d = n mod 146097 mod 36524 mod 1461 div 365" "e = n mod 146097 mod 36524 mod 1461 mod 365"
  note cyc = cycles [of n, folded abcde]
  have v: "days_to_ymd n = (if d = 4 \<or> b = 4 then (400 * a + 100 * b + 4 * c + d, 12, 31)
      else (400 * a + 100 * b + 4 * c + d + 1, month_day (400 * a + 100 * b + 4 * c + d + 1) e))"
    by (simp add: days_to_ymd_def Let_def abcde mult.commute)
  consider "b = 4" | "b \<noteq> 4" "d = 4" | "b \<noteq> 4" "d \<noteq> 4" by blast
  then have "ymd_to_days (y, m, k) = n \<and> 1 \<le> m \<and> m \<le> 12 \<and> 1 \<le> k \<and> k \<le> days_in_month y m"
  proof cases
    case 1
    then have "y = 400 * a + 100 * 3 + 4 * 24 + 4" "m = 12" "k = 31" using assms v cyc(10) by simp_all
    with cyc(1,10) 1 last_of_leap_year [of 3 24 y a] show ?thesis by (simp add: days_in_month_def)
  next
    case 2
    then have y: "y = 400 * a + 100 * b + 4 * c + 4" and m: "m = 12" "k = 31" using assms v by simp_all
    have "ymd_to_days (y, 12, 31) = 146097 * a + 36524 * b + 1461 * c + 1460"
      using last_of_leap_year [OF _ _ _ _ _ y] cyc(2-5,11) 2 by simp
    with cyc(1,11) 2 m show ?thesis by (simp add: days_in_month_def)
  next
    case 3
    then have y: "y = 400 * a + 100 * b + 4 * c + d + 1" and md: "month_day y e = (m, k)" using assms v by auto
    have "e < (if is_leap y then 366 else 365)" using cyc(9) by simp
    moreover have "days_before_year y = 146097 * a + 36524 * b + 1461 * c + 365 * d"
      unfolding y using cyc(2-7) 3 by (intro days_before_year_cycles) simp_all
    ultimately show ?thesis
      using cyc(1,8) ymd_month_day [OF md] month_day_valid [OF md] by (simp add: ymd_to_days_def)
  qed
  then show "ymd_to_days (y, m, k) = n" "1 \<le> m \<and> m \<le> 12 \<and> 1 \<le> k \<and> k \<le> days_in_month y m" by simp_all
qed

section \<open>Reading a printed timestamp\<close>

text \<open>The years a \<open>datetime\<close> can have.\<close>

definition in_datetime_range :: "usec \<Rightarrow> bool" where
  "in_datetime_range t \<longleftrightarrow> (case days_to_ymd (t div DAY_US + EPOCH_DAYS) of (y, _, _) \<Rightarrow> 1 \<le> y \<and> y \<le> 9999)"

lemma takeWhile_zone:
  assumes "list_all (\<lambda>c. is_digit c \<or> c = CHR '':'' \<or> c = CHR ''.'') s"
  defines "P \<equiv> \<lambda>c. c \<noteq> CHR ''-'' \<and> c \<noteq> CHR ''+'' \<and> c \<noteq> CHR ''Z''"
  shows "takeWhile P (s @ ''Z'') = s" "dropWhile P (s @ ''Z'') = ''Z''"
proof -
  have "P c" if "c \<in> set s" for c using assms(1) that by (auto simp: P_def list_all_iff is_digit_def in_range_def)
  then show "takeWhile P (s @ ''Z'') = s" "dropWhile P (s @ ''Z'') = ''Z''"
    by (simp_all add: P_def)
qed

lemma micros_pad: "0 \<le> f \<Longrightarrow> f < 1000000 \<Longrightarrow> micros (pad 6 f) = f"
  using pad_facts [of f 6] by (simp add: micros_def)

lemma iso_clock_printed:
  assumes "0 \<le> h" "h < 24" "0 \<le> m" "m < 60" "0 \<le> s" "s < 60" "0 \<le> f" "f < 1000000"
  defines "t \<equiv> pad 2 h @ '':'' @ pad 2 m @ '':'' @ pad 2 s @ (if f = 0 then [] else ''.'' @ pad 6 f)"
  shows "iso_clock t = Some (h, m, s, f)" "list_all (\<lambda>c. is_digit c \<or> c = CHR '':'' \<or> c = CHR ''.'') t"
proof -
  have b: "h < 10 ^ 2" "m < 10 ^ 2" "s < 10 ^ 2" "f < 10 ^ 6" using assms by simp_all
  note pads = pad_facts [OF assms(1) b(1)] pad_facts [OF assms(3) b(2)] pad_facts [OF assms(5) b(3)] pad_facts [OF assms(7) b(4)]
  have two: "fixed 2 (pad 2 h @ r) = Some (h, r)" "fixed 2 (pad 2 m @ r) = Some (m, r)" "fixed 2 (pad 2 s @ r) = Some (s, r)" for r
    using fixed_pad [OF assms(1) b(1)] fixed_pad [OF assms(3) b(2)] fixed_pad [OF assms(5) b(3)] by simp_all
  have ne: "pad 6 f \<noteq> []" using pads(10) by auto
  show "iso_clock t = Some (h, m, s, f)"
    using two(3) [of "[]"] pads(11) ne micros_pad [OF assms(7,8)]
    by (simp add: iso_clock_def t_def two)
  show "list_all (\<lambda>c. is_digit c \<or> c = CHR '':'' \<or> c = CHR ''.'') t"
    using pads(2,5,8,11) by (auto simp: t_def list_all_iff)
qed

text \<open>A timestamp on the wire is the timestamp that was put there, to the microsecond.\<close>

lemma iso_read_format:
  assumes "in_datetime_range t"
  shows "iso_read (format_timestamp t) = Read (t, Some 0)"
proof -
  define us where "us = t mod DAY_US"
  obtain y m d where ymd: "days_to_ymd (t div DAY_US + EPOCH_DAYS) = (y, m, d)" by (metis prod_cases3)
  have y: "1 \<le> y" "y \<le> 9999" using assms ymd by (simp_all add: in_datetime_range_def)
  note inv = days_to_ymd_inverse [OF ymd]
  have dm: "days_in_month y m \<le> 31" by (simp add: days_in_month_def)
  define h mi s f where hmsf: "h = us div 1000000 div 3600" "mi = us div 1000000 div 60 mod 60" "s = us div 1000000 mod 60" "f = us mod 1000000"
  have us: "0 \<le> us" "us < 86400000000" by (simp_all add: us_def DAY_US_def)
  have hb: "0 \<le> h" "h < 24" using us by (simp_all add: hmsf pos_imp_zdiv_nonneg_iff)
  have bounds: "0 \<le> mi" "mi < 60" "0 \<le> s" "s < 60" "0 \<le> f" "f < 1000000" by (simp_all add: hmsf)
  define c where "c = pad 2 h @ '':'' @ pad 2 mi @ '':'' @ pad 2 s @ (if f = 0 then [] else ''.'' @ pad 6 f)"
  note clock = iso_clock_printed [OF hb bounds, folded c_def]
  have prt: "format_timestamp t = pad 4 y @ ''-'' @ pad 2 m @ ''-'' @ pad 2 d @ CHR ''T'' # c @ ''Z''"
    by (simp add: format_timestamp_def ymd Let_def c_def hmsf us_def)
  have date: "iso_date (format_timestamp t) = Some ((y, m, d), CHR ''T'' # c @ ''Z'')"
    unfolding prt using y inv(2) dm fixed_pad [of y 4] fixed_pad [of m 2] fixed_pad [of d 2]
    by (simp add: iso_date_def)
  have total: "clock_us (h, mi, s, f) = us"
  proof -
    have "us div 1000000 = 60 * (us div 1000000 div 60) + s" by (simp add: hmsf)
    moreover have "us div 1000000 div 60 = 60 * h + mi" by (simp add: hmsf zdiv_zmult2_eq [of 60 _ 60, simplified])
    ultimately have "us div 1000000 = 3600 * h + 60 * mi + s" by simp
    moreover have "us = 1000000 * (us div 1000000) + f" by (simp add: hmsf)
    ultimately show ?thesis by (simp add: clock_us_def)
  qed
  have "iso_time (c @ ''Z'') = Read (us, Some 0)"
    using clock takeWhile_zone [OF clock(2)] hb bounds total by (simp add: iso_time_def iso_offset_def Let_def)
  moreover have "valid_date (y, m, d)" using y inv(2) by (simp add: valid_date_def)
  moreover have "(ymd_to_days (y, m, d) - EPOCH_DAYS) * DAY_US + us = t" by (simp add: inv(1) us_def)
  ultimately show ?thesis by (simp add: iso_read_def date)
qed

lemma timestamp_reader_format:
  "timestamp_reader parse_ts \<Longrightarrow> in_datetime_range t \<Longrightarrow> parse_ts (format_timestamp t) = Inr t"
  using iso_read_format [of t] unfolding timestamp_reader_def by (auto dest!: spec [of _ "format_timestamp t"])

end
