(* ===== verification/WireFormat.thy ===== *)
theory WireFormat
  imports IsoTime Ingest GwConfig LogRoutes
begin

text \<open>
  What the program writes as JSON, read back with the reader of \<open>JsonRead\<close>: the event of the gateway
  (\<open>VerifyEvent.to_json_bytes\<close>), the exported configuration (\<open>gwconfig.marshal\<close>) with \<open>config.load_config\<close>, and the frames of the log stream.
\<close>

section \<open>The other two printers\<close>

lemma spells_dumps_indent: "readable v \<Longrightarrow> spells (dumps_indent n v) (tokens_of v)"
proof (induction v arbitrary: n)
  case (JList vs)
  have sp: "list_all is_json_space (newline_indent m)" for m
    by (simp add: newline_indent_def list_all_iff is_json_space_def)
  have "spells (dumps_indent (Suc n) v) (tokens_of v)" if "v \<in> set vs" for v
    using JList that by (simp add: list_all_iff)
  from spells_list [of vs "dumps_indent (Suc n)" "newline_indent (Suc n)" "newline_indent (Suc n)" "newline_indent n", OF this sp sp sp] spells_list [of "[]" "dumps_indent (Suc n)" "[]" "[]" "[]"]
  show ?case by (cases "vs = []") (simp_all del: tokens_of.simps)
next
  case (JObj kvs)
  have sp: "list_all is_json_space (newline_indent m)" for m
    by (simp add: newline_indent_def list_all_iff is_json_space_def)
  have "spells (dumps_indent (Suc n) v) (tokens_of v)" if "(k, v) \<in> set kvs" for k v
    using JObj that by (fastforce simp: list_all_iff)
  from spells_obj [of kvs "dumps_indent (Suc n)" "newline_indent (Suc n)" "newline_indent (Suc n)" "newline_indent n" "'' ''", OF this sp sp sp] spells_obj [of "[]" "dumps_indent (Suc n)" "[]" "[]" "[]" "[]"]
  show ?case by (cases "kvs = []") (simp_all add: is_json_space_def del: tokens_of.simps)
qed (simp only: dumps_indent.simps, (rule spells_atom; simp))+

lemma spells_dumps_spaced: "readable v \<Longrightarrow> spells (dumps_spaced v) (tokens_of v)"
proof (induction v)
  case (JList vs)
  have "spells (dumps_spaced v) (tokens_of v)" if "v \<in> set vs" for v using JList that by (simp add: list_all_iff)
  from spells_list [of vs dumps_spaced "[]" "'' ''" "[]", OF this] show ?case by (simp add: is_json_space_def del: tokens_of.simps)
next
  case (JObj kvs)
  have "spells (dumps_spaced v) (tokens_of v)" if "(k, v) \<in> set kvs" for k v using JObj that by (fastforce simp: list_all_iff)
  from spells_obj [of kvs dumps_spaced "[]" "'' ''" "[]" "'' ''", OF this] show ?case by (simp add: is_json_space_def del: tokens_of.simps)
qed (simp only: dumps_spaced.simps, (rule spells_atom; simp))+

section \<open>Events\<close>

definition event_readable :: "VerifyEvent \<Rightarrow> bool" where
  "event_readable e \<longleftrightarrow>
     in_datetime_range (ev_timestamp e)
     \<and> list_all (\<lambda>n. length (show_nat (nat \<bar>n\<bar>)) \<le> max_str_digits) [ev_upstream_status e, ev_latency_ms e, ev_body_bytes e]"

lemma read_event: "event_readable e \<Longrightarrow> json_read (to_json_bytes e) = Read (to_json_dict e)"
  unfolding to_json_bytes_def
  by (rule read_dumps) (simp_all add: to_json_dict_def event_readable_def max_nesting_def)

lemma from_to_json_dict:
  assumes "parse_ts (format_timestamp (ev_timestamp ev)) = Inr (ev_timestamp ev)"
  shows "\<exists>data. to_json_dict ev = JObj data \<and> from_json_dict parse_ts data = Inr ev"
  using assms by (simp add: to_json_dict_def from_json_dict_def json_get_def)

text \<open>What the gateway encodes, the Console decodes.\<close>

lemma decode_to_json_bytes:
  assumes "json_reader loads" "timestamp_reader parse_ts" "event_readable e"
  shows "decode loads parse_ts (to_json_bytes e) = Inr e"
proof -
  have "loads (to_json_bytes e) = Inr (to_json_dict e)" by (rule agrees_Read [OF assms(1) read_event [OF assms(3)]])
  moreover have "parse_ts (format_timestamp (ev_timestamp e)) = Inr (ev_timestamp e)"
    using assms(2,3) timestamp_reader_format by (simp add: event_readable_def)
  ultimately show ?thesis using from_to_json_dict [of parse_ts e] by (auto simp: decode_def)
qed

text \<open>A parser of timestamps that agrees with the reader.\<close>

definition demo_parse_ts :: "pystr \<Rightarrow> usec py" where
  "demo_parse_ts s = (case iso_read s of Read (t, Some z) \<Rightarrow> Inr (t - z) | _ \<Rightarrow> Inl (ValueErr ''Invalid isoformat string''))"

lemma demo_parse_ts_ok: "timestamp_reader demo_parse_ts"
  by (auto simp: timestamp_reader_def demo_parse_ts_def split: reading.split option.split)

section \<open>Configurations\<close>

text \<open>\<open>config.load_config\<close> on the text of the file, and the same two calls in \<open>gwconfig.import_config\<close>; pydantic's
  \<open>Config.model_validate\<close> is an argument. What is relied on: it turns an object with the fields of a \<open>Config\<close>, each route with
  the fields of a \<open>Route\<close>, into that \<open>Config\<close>, and a field left out takes its default.\<close>

definition load_config :: "(pystr \<Rightarrow> pystr + json) \<Rightarrow> (json \<Rightarrow> Config py) \<Rightarrow> pystr \<Rightarrow> Config py" where
  "load_config loads model_validate raw =
     (case loads raw of Inl m \<Rightarrow> Inl (ValueErr m) | Inr v \<Rightarrow> model_validate v)"

definition config_json :: "Config \<Rightarrow> json" where
  "config_json config = JObj [(''routes'', JList (map route_item (routes config)))]"

definition config_schema :: "(json \<Rightarrow> Config py) \<Rightarrow> bool" where
  "config_schema model_validate \<longleftrightarrow> (\<forall>config. model_validate (config_json config) = Inr config)"

lemma read_marshal: "json_read_text (marshal config) = Read (config_json config)"
proof -
  have r: "readable (config_json config)" by (auto simp: config_json_def route_item_def list_all_iff)
  have "nesting (route_item x) = 1" for x by (cases "route_webhook_id x = []") (simp_all add: route_item_def)
  then have "nesting (config_json config) \<le> 3" by (auto simp: config_json_def)
  then have n: "nesting (config_json config) \<le> max_nesting" by (simp add: max_nesting_def)
  have "spells_freely [CHR 0x0A] []" "ends_value [CHR 0x0A]"
    using spells_space [of "[CHR 0x0A]"] by (simp_all add: is_json_space_def ends_value_def)
  from spells_before [OF spells_dumps_indent [OF r, of 0] this(1) _ this(2)]
  have "spells (marshal config) (tokens_of (config_json config))"
    by (intro spells_freely_spells) (simp add: marshal_def config_json_def del: dumps_indent.simps tokens_of.simps)
  from read_spelled(1) [OF this r n] show ?thesis .
qed

lemma load_marshal:
  assumes "json_text_reader loads" "config_schema model_validate"
  shows "load_config loads model_validate (marshal config) = Inr config"
  using agrees_Read [OF assms(1) read_marshal] assms(2) by (simp add: load_config_def config_schema_def)

section \<open>The log stream\<close>

lemma fits_sql_readable: "fits_sql n \<Longrightarrow> length (show_nat (nat \<bar>n\<bar>)) \<le> max_str_digits"
proof -
  assume "fits_sql n"
  then have "nat \<bar>n\<bar> < 10 ^ 19" by (auto simp: fits_sql_def abs_if)
  from length_show_nat [OF _ this] show ?thesis by (simp add: max_str_digits_def)
qed

definition row_storable :: "LogRow \<Rightarrow> bool" where
  "row_storable r \<longleftrightarrow> list_all fits_sql [lrow_id r, lrow_upstream_status r, lrow_latency_ms r, lrow_body_bytes r]"

lemma dumps_spaced_printable: "list_all (in_range 32 126) (dumps_spaced v)"
proof (induction v)
  case (JList vs)
  then have "list_all (in_range 32 126) (join_with '', '' (map dumps_spaced vs))"
    using in_range_sep by (intro join_with_all) (auto simp: in_range_def [of _ _ "CHR '' ''"])
  then show ?case by (simp add: in_range_def list_all_iff)
next
  case (JObj kvs)
  have "list_all (in_range 32 126) (dumps_spaced v)" if "(k, v) \<in> set kvs" for k v using JObj that by fastforce
  then have "list_all (in_range 32 126) (join_with '', '' (map (\<lambda>(k, v). json_string k @ '': '' @ dumps_spaced v) kvs))"
    using json_string_printable in_range_sep by (intro join_with_all) (auto simp: in_range_def [of _ _ "CHR '' ''"])
  then show ?case by (simp add: in_range_def list_all_iff)
qed (simp_all only: dumps_spaced.simps dumps_printable)

text \<open>A frame with events is one line of JSON between its prefix and the blank line that ends it: no field of an
  event, whoever wrote it, can end the frame or begin another.\<close>

lemma stream_frame_one_event:
  assumes "rows \<noteq> []" "list_all row_storable rows"
  defines "line \<equiv> dumps_spaced (JList (map log_row_json rows))"
  shows "stream_frame rows = ''data: '' @ line @ [CHR 0x0A, CHR 0x0A]"
    and "CHR 0x0A \<notin> set line" and "json_read_text line = Read (JList (map log_row_json rows))"
proof -
  show "stream_frame rows = ''data: '' @ line @ [CHR 0x0A, CHR 0x0A]" using assms(1) by (simp add: stream_frame_def line_def)
  show "CHR 0x0A \<notin> set line"
    using dumps_spaced_printable [of "JList (map log_row_json rows)"] unfolding line_def by (auto simp: list_all_iff in_range_def)
  have "readable (JList (map log_row_json rows))"
    using assms(2) by (auto simp: list_all_iff log_row_json_def row_storable_def fits_sql_readable)
  moreover have "nesting (log_row_json r) = 1" for r by (simp add: log_row_json_def)
  then have "nesting (JList (map log_row_json rows)) \<le> 2" by auto
  then have "nesting (JList (map log_row_json rows)) \<le> max_nesting" by (rule order_trans) (simp add: max_nesting_def)
  ultimately show "json_read_text line = Read (JList (map log_row_json rows))"
    unfolding line_def by (intro read_spelled(1) [OF spells_dumps_spaced])
qed

section \<open>An export imports\<close>

text \<open>C32: an exported file imports as it was exported. The text \<open>json.dumps\<close> writes for a table of rows, read by
  \<open>json.loads\<close> and checked against the schema, is imported exactly when every exported row passes validation, and
  then gives back the rows, in order, without their database columns; otherwise the whole file is refused with an error the
  command catches.\<close>

theorem export_import:
  assumes "json_text_reader loads" "config_schema model_validate"
  shows "case import_config (load_config loads model_validate) (marshal (export_config es)) of
      Inr fs \<Rightarrow> list_all (\<lambda>e. validate (from_endpoint e) = Inr ()) es \<and> fs = map row_shell es
    | Inl x \<Rightarrow> list_ex (\<lambda>e. validate (from_endpoint e) \<noteq> Inr ()) es \<and> is_value_error x"
proof -
  have "load_config loads model_validate (marshal (export_config es)) = Inr (export_config es)"
    by (rule load_marshal [OF assms])
  from import_loaded [where load = "load_config loads model_validate" and es = es, OF this] show ?thesis
    by (cases "import_config (load_config loads model_validate) (marshal (export_config es))")
       (auto simp: list_all_iff list_ex_iff)
qed

text \<open>A reader of the schema, for the documents the program writes.\<close>

definition string_field :: "(pystr \<times> json) list \<Rightarrow> pystr \<Rightarrow> pystr" where
  "string_field kvs k = (case map_of kvs k of Some (JStr s) \<Rightarrow> s | _ \<Rightarrow> [])"

definition demo_schema :: "json \<Rightarrow> Config py" where
  "demo_schema v =
     (case v of
        JObj [(k, JList rs)] \<Rightarrow>
          Inr \<lparr>routes = map (\<lambda>r. case r of JObj kvs \<Rightarrow>
              \<lparr>route_path = string_field kvs ''path'', route_provider = string_field kvs ''provider'',
               route_upstream = string_field kvs ''upstream'', route_replay_window = string_field kvs ''replay_window'',
               route_secret_env = string_field kvs ''secret_env'', route_webhook_id = string_field kvs ''webhook_id''\<rparr>) rs\<rparr>
      | _ \<Rightarrow> Inl (ValueErr ''schema''))"

lemma demo_schema_ok: "config_schema demo_schema"
proof -
  have "(case route_item r of JObj kvs \<Rightarrow>
      \<lparr>route_path = string_field kvs ''path'', route_provider = string_field kvs ''provider'',
       route_upstream = string_field kvs ''upstream'', route_replay_window = string_field kvs ''replay_window'',
       route_secret_env = string_field kvs ''secret_env'', route_webhook_id = string_field kvs ''webhook_id''\<rparr>) = r" for r
    by (cases r) (simp add: route_item_def string_field_def)
  then show ?thesis by (simp add: config_schema_def config_json_def demo_schema_def comp_def)
qed

theorem export_import_witness:
  "import_config (load_config (loads_by json_read_text) demo_schema) (marshal (export_config [demo_row])) = Inr [to_endpoint demo_route]"
proof -
  have "validate (from_endpoint demo_row) = Inr ()"
    by (simp add: validate_iff demo_row_def from_endpoint_def to_endpoint_def demo_route_def)
  moreover have "row_shell demo_row = to_endpoint demo_route" by (simp add: row_shell_def demo_row_def to_endpoint_def)
  ultimately show ?thesis
    using export_import [OF agrees_loads_by demo_schema_ok, of "[demo_row]"]
    by (cases "import_config (load_config (loads_by json_read_text) demo_schema) (marshal (export_config [demo_row]))") simp_all
qed

end
