(* ===== verification/Deployment.thy ===== *)
theory Deployment
  imports GatewayApp ConsoleProps WireFormat "HOL-Library.Multiset"
begin

text \<open>
  Both services as one system: a gateway that handles requests and posts its verdicts, the network between the two, and a
  Console that receives them among everything else it does. A POST is on the wire from the moment the delivery task starts it; it may
  arrive, also after the task gave it up, or be lost. The Console's side is \<open>call\<close> and \<open>job_step\<close>; of its other
  requests the only thing assumed is that none of them carries a signature of the gateway.
\<close>

section \<open>State\<close>

text \<open>A call of the gateway's handler: what it was given.\<close>

record 'cert handled =
  hd_route :: Route
  hd_verifier :: verifier
  hd_env :: handler_env
  hd_request :: GatewayApp.request
  hd_certs :: "'cert paypal_state"

type_synonym post = "pystr \<times> bytes \<times> (pystr \<times> pystr) list"

record 'cert deployment =
  dep_gateway :: "'cert gateway_state"
  dep_handled :: "'cert handled list"
  dep_wire :: "post list"
  dep_console :: console

definition set_emitter :: "emitter \<Rightarrow> 'cert deployment \<Rightarrow> 'cert deployment" where
  "set_emitter em d = d\<lparr>dep_gateway := (dep_gateway d)\<lparr>gw_emitter := em\<rparr>\<rparr>"

abbreviation dep_emitter :: "'cert deployment \<Rightarrow> emitter" where
  "dep_emitter d \<equiv> gw_emitter (dep_gateway d)"

abbreviation set_console :: "console \<Rightarrow> 'cert deployment \<Rightarrow> 'cert deployment" where
  "set_console c d \<equiv> d\<lparr>dep_console := c\<rparr>"

section \<open>Steps\<close>

text \<open>Clocks within the years of \<open>datetime\<close>, durations of 64 bits, and statuses of three digits.\<close>

definition plausible_env :: "handler_env \<Rightarrow> bool" where
  "plausible_env env \<longleftrightarrow>
     in_datetime_range (h_recorded env) \<and> fits_sql (millis (h_ended env - h_started env))
     \<and> (\<forall>r. case h_upstream env r of UpResponse code _ _ \<Rightarrow> code < 1000 | _ \<Rightarrow> True)"

definition posting :: "emitter \<Rightarrow> VerifyEvent list" where
  "posting em = (case em_task em of Posting ev _ \<Rightarrow> [ev] | _ \<Rightarrow> [])"

inductive deploy_step ::
  "('cert, 'key) crypto_lib \<Rightarrow> (Route \<times> verifier) list \<Rightarrow> bytes \<Rightarrow> 'cert deployment \<Rightarrow> 'cert deployment \<Rightarrow> bool"
  for lib table secret where
  Handles: "(route, v) \<in> set table \<Longrightarrow> plausible_env env \<Longrightarrow>
    handler lib route v secret env req (dep_gateway d) = (resp, g) \<Longrightarrow>
    deploy_step lib table secret d (d\<lparr>dep_gateway := g, dep_handled := dep_handled d @
      [\<lparr>hd_route = route, hd_verifier = v, hd_env = env, hd_request = req, hd_certs = gw_paypal (dep_gateway d)\<rparr>]\<rparr>)"
| Sends: "posting (dep_emitter d) = [] \<Longrightarrow> task_step now r (dep_emitter d) = Some em \<Longrightarrow>
    deploy_step lib table secret d
      ((set_emitter em d)\<lparr>dep_wire := dep_wire d @ map (post_request em) (posting em)\<rparr>)"
| PostEnds: "posting (dep_emitter d) \<noteq> [] \<Longrightarrow> task_step now r (dep_emitter d) = Some em \<Longrightarrow>
    deploy_step lib table secret d (set_emitter em d)"
| Opens: "deploy_step lib table secret d (set_emitter (start (dep_emitter d)) d)"
| Stops: "deploy_step lib table secret d (set_emitter (aclose_begin (dep_emitter d)) d)"
| Closed: "aclose_end (dep_emitter d) = Some em \<Longrightarrow> deploy_step lib table secret d (set_emitter em d)"
| GatewayRestarts: "deploy_step lib table secret d
    (d\<lparr>dep_gateway := \<lparr>gw_paypal = fresh_state, gw_emitter = new_emitter url secret, gw_forwarded = []\<rparr>\<rparr>)"
| Lost: "dep_wire d = ws @ w # vs \<Longrightarrow> deploy_step lib table secret d (d\<lparr>dep_wire := ws @ vs\<rparr>)"
| Arrives: "dep_wire d = ws @ (url, body, hs) # vs \<Longrightarrow> env_body e = body \<Longrightarrow> Console.request.req_headers req = header_lookup hs \<Longrightarrow>
    json_reader (env_loads e) \<Longrightarrow> timestamp_reader (env_parse_ts e) \<Longrightarrow> call e IngestEvent req (dep_console d) = (resp', c) \<Longrightarrow>
    deploy_step lib table secret d (set_console c (d\<lparr>dep_wire := ws @ vs\<rparr>))"
| Answers: "(v = IngestEvent \<Longrightarrow>
      \<not> ingest_authentic (con_internal_secret (dep_console d)) (Console.request.req_headers req) (env_body e)) \<Longrightarrow>
    call e v req (dep_console d) = (resp', c) \<Longrightarrow> deploy_step lib table secret d (set_console c d)"
| Loads: "load_session now cookie (con_store (dep_console d)) = (who, st) \<Longrightarrow>
    deploy_step lib table secret d (set_console (set_store st (dep_console d)) d)"
| Jobs: "job_step (dep_console d) c \<Longrightarrow> deploy_step lib table secret d (set_console c d)"

inductive deployed ::
  "('cert, 'key) crypto_lib \<Rightarrow> (Route \<times> verifier) list \<Rightarrow> bytes \<Rightarrow> 'cert deployment \<Rightarrow> bool"
  for lib table secret where
  Starts: "deployed lib table secret
    \<lparr>dep_gateway = \<lparr>gw_paypal = fresh_state, gw_emitter = new_emitter url secret, gw_forwarded = []\<rparr>, dep_handled = [], dep_wire = [],
     dep_console = lifespan_start (console_of_config config empty_store)\<rparr>"
| Step: "deployed lib table secret d \<Longrightarrow> deploy_step lib table secret d d' \<Longrightarrow> deployed lib table secret d'"

section \<open>What a row says\<close>

type_synonym verdict_key = "pystr \<times> pystr \<times> pystr \<times> pystr \<times> pystr"

definition row_key :: "Event \<Rightarrow> verdict_key" where
  "row_key r = (evt_path r, evt_provider r, evt_verdict r, evt_reason r, evt_body_sha256 r)"

definition event_key :: "VerifyEvent \<Rightarrow> verdict_key" where
  "event_key ev = row_key (to_row ev)"

text \<open>What the row of a handled request has to say: the route's path and provider, the verdict of the route's verifier on the
  body, headers and moment of the request, and the hash of the body.\<close>

definition judged :: "('cert, 'key) crypto_lib \<Rightarrow> 'cert handled \<Rightarrow> verdict_key" where
  "judged lib h =
     (let body = concat (req_stream (hd_request h));
          result = fst (run_verify lib (h_verify (hd_env h)) (hd_verifier h) body
                     (GatewayApp.request.req_headers (hd_request h)) (hd_certs h)) in
      (route_path (hd_route h), route_provider (hd_route h),
       (case result of Inr _ \<Rightarrow> ''accepted'' | Inl _ \<Rightarrow> ''rejected''),
       (case result of Inr _ \<Rightarrow> [] | Inl e \<Rightarrow> classify_reason (Some e)),
       hex_encode (sha256 body)))"

section \<open>Queues\<close>

lemma mset_put_dropping: "mset (put_dropping n q x) \<subseteq># add_mset x (mset q)"
proof -
  have "put_dropping n q x \<in> {q @ [x], tl q @ [x], tl q, q}"
    by (cases q) (auto simp: put_dropping_def put_nowait_def get_nowait_def Let_def)
  moreover have "mset (tl q) \<subseteq># mset q" by (cases q) auto
  ultimately show ?thesis by (auto intro: subset_mset.trans simp: mset_subset_eq_add_mset_cancel)
qed

lemma set_put_dropping: "set (put_dropping n q x) \<subseteq> insert x (set q)"
  using set_mset_mono [OF mset_put_dropping [of n q x]] by simp

definition console_queue :: "console \<Rightarrow> Event list" where
  "console_queue c = (case con_batcher c of None \<Rightarrow> [] | Some b \<Rightarrow> bat_queue b)"

text \<open>What the Console holds of the feed: the rows and the queue.\<close>

definition held :: "console \<Rightarrow> verdict_key multiset" where
  "held c = mset (map row_key (events (con_store c) @ console_queue c))"


lemma held_enqueue:
  assumes "con_batcher c = Some b"
  shows "held (c\<lparr>con_batcher := Some (enqueue b r)\<rparr>) \<subseteq># add_mset (row_key r) (held c)"
  using image_mset_subseteq_mono [OF mset_put_dropping [of BATCH_QUEUE_SIZE "bat_queue b" r], of row_key] assms
  by (simp add: held_def console_queue_def enqueue_queue) 

section \<open>The Console's side\<close>

lemma held_frame: "events (con_store c') = events (con_store c) \<Longrightarrow> con_batcher c' = con_batcher c \<Longrightarrow> held c' = held c"
  by (simp add: held_def console_queue_def)

lemma others_handler_held:
  assumes "v \<noteq> IngestEvent"
  shows "held (snd (call e v req c)) = held c"
proof (rule held_frame)
  show "con_batcher (snd (call e v req c)) = con_batcher c" using assms by (cases v) simp_all
  show "events (con_store (snd (call e v req c))) = events (con_store c)"
    using assms by (cases v)
      (simp_all add: content_auth_handlers [THEN content_events] content_reset_password [THEN content_events]
        content_settings_handlers [THEN content_events] others_endpoint_handlers [THEN others_events])
qed

lemma ingest_effect:
  "snd (call e IngestEvent req c) = c\<lparr>con_batcher :=
     (if ingest_authentic (con_internal_secret c) (Console.request.req_headers req) (env_body e)
      then case decode (env_loads e) (env_parse_ts e) (env_body e) of
         Inr ev \<Rightarrow> map_option (\<lambda>b. enqueue b (to_row ev)) (con_batcher c) | Inl _ \<Rightarrow> con_batcher c
      else con_batcher c)\<rparr>"
  by (auto simp: ingest_route_def handle_ingest_def ingest_checks split: sum.split pyexn.split prod.split)

lemma ingest_held:
  "held (snd (call e IngestEvent req c)) \<subseteq># held c +
     (if ingest_authentic (con_internal_secret c) (Console.request.req_headers req) (env_body e)
      then case decode (env_loads e) (env_parse_ts e) (env_body e) of Inr ev \<Rightarrow> {#event_key ev#} | Inl _ \<Rightarrow> {#}
      else {#})"
  unfolding ingest_effect using held_enqueue
  by (cases "con_batcher c") (auto simp: event_key_def held_def console_queue_def split: sum.split)

lemma sweep_events: "mset (events (snd (sweep st now))) \<subseteq># mset (events st)"
  by (auto simp: sweep_def delete_events_older_than_def delete_where_def mset_filter split: sum.split)

lemma persist_events: "events (persist es st) = foldl add_event (events st) (takeWhile storable es)"
proof -
  have u: "events (snd (executemany upsert_rollup_row ds st)) = events st" for ds st
    by (induction ds arbitrary: st) (auto simp: upsert_rollup_row_def)
  have "events (snd (insert_events es st)) = foldl add_event (events st) (takeWhile storable es)"
    using insert_events_prefix [of es st] by simp
  then show ?thesis by (auto simp: persist_def set_setting_def upsert_rollups_def u split: sum.split prod.split)
qed

lemma drain_held:
  assumes "con_batcher c = Some b" "drain_and_persist (b, con_store c) = (b', st)"
  shows "held (c\<lparr>con_store := st, con_batcher := Some b'\<rparr>) \<subseteq># held c"
proof (cases "bat_queue b = []")
  case True
  with assms show ?thesis by (simp add: drain_and_persist_def held_def console_queue_def)
next
  case False
  have "map row_key (foldl add_event t es) = map row_key t @ map row_key es" for t es
    by (rule add_events_map) (simp add: row_key_def)
  then have k: "image_mset row_key (mset (foldl add_event t es)) = image_mset row_key (mset t) + image_mset row_key (mset es)" for t es
    by (metis mset_append mset_map)
  have "mset (takeWhile storable q) \<subseteq># mset q" for q
    by (metis mset_subset_eq_add_left mset_append takeWhile_dropWhile_id)
  then have "mset (map row_key (takeWhile storable (bat_queue b))) \<subseteq># mset (map row_key (bat_queue b))"
    by (simp add: image_mset_subseteq_mono)
  with assms False show ?thesis
    by (auto simp: drain_and_persist_def held_def console_queue_def persist_events k)
qed

lemma job_held: "job_step c c' \<Longrightarrow> held c' \<subseteq># held c"
proof (erule job_step_cases)
  show "held c' \<subseteq># held c" if "c' = lifespan_start (console_of_config config (con_store c))" for config
    by (simp add: that held_def console_queue_def new_batcher_def)
  show "held c' \<subseteq># held c" if "c' = c\<lparr>con_store := st, con_batcher := Some b'\<rparr>" "con_batcher c = Some b"
    "drain_and_persist (b, con_store c) = (b', st)" for b b' st
    using drain_held that by blast
  show "held c' \<subseteq># held c" if "c' = snd (run_once now c)" for now
  proof -
    have "con_batcher (snd (run_once now c)) = con_batcher c" by (simp add: run_once_def split: prod.split)
    then show ?thesis
      using image_mset_subseteq_mono [OF sweep_events [of "con_store c" now], of row_key]
      by (simp add: that held_def console_queue_def)
  qed
  show "held c' \<subseteq># held c" if "c' = set_store (snd (cli_reset_password fr now email (con_store c))) c" for fr now email
    by (simp add: that held_def console_queue_def content_events [OF content_reset_command])
  show "held c' \<subseteq># held c" if "c' = set_store (snd (seed_config (load :: pystr \<Rightarrow> Config py) now path data (con_store c))) c"
    for load now path data
    by (simp add: that held_def console_queue_def others_events [OF others_seed])
qed


section \<open>The gateway's side\<close>

lemma event_key_make_event:
  "event_key (make_event now route body ip verdict reason status latency) =
     (route_path route, route_provider route, verdict, reason, hex_encode (sha256 body))"
  by (simp add: event_key_def row_key_def to_row_def make_event_def)

lemma make_event_readable:
  assumes "in_datetime_range now" "fits_sql (millis latency)" "fits_sql status" "length body \<le> MAX_BODY_BYTES"
  shows "event_readable (make_event now route body ip verdict reason status latency)"
proof -
  have "fits_sql (int (length body))" using assms(4) by (simp add: fits_sql_def MAX_BODY_BYTES_def)
  with assms(1-3) show ?thesis
    using fits_sql_readable [of "int (length body)"] by (simp add: event_readable_def make_event_def fits_sql_readable)
qed

text \<open>What recording does to the emitter: nothing, or it queues one event, with the given key.\<close>

definition records :: "emitter \<Rightarrow> verdict_key \<Rightarrow> emitter \<Rightarrow> bool" where
  "records em k em' \<longleftrightarrow> em' = em \<or> (\<exists>ev. em' = emit em ev \<and> event_readable ev \<and> event_key ev = k)"

lemma record_event_records:
  assumes "plausible_env env" "length body \<le> MAX_BODY_BYTES" "fits_sql status"
  shows "records em (route_path route, route_provider route, verdict, reason, hex_encode (sha256 body))
    (Emitter.record_event em (h_recorded env) route body ip verdict reason status (h_ended env - h_started env))"
  using assms by (auto simp: records_def Emitter.record_event_def plausible_env_def event_key_make_event intro: make_event_readable)

lemma handler_unrecorded:
  assumes "handler lib route v secret env req g = (resp, g')" "length (concat (req_stream req)) \<le> MAX_BODY_BYTES"
    "run_verify lib (h_verify env) v (concat (req_stream req)) (GatewayApp.request.req_headers req) (gw_paypal g) = (Inl e, certs)"
    "\<nexists>m. e = VerificationErr m"
  shows "gw_emitter g' = gw_emitter g"
  using assms by (auto simp: handler_def read_capped_body_eq Let_def split: pyexn.splits)

lemma handler_accepted_records:
  assumes "handler lib route v secret env req g = (resp, g')" "length (concat (req_stream req)) \<le> MAX_BODY_BYTES"
    "run_verify lib (h_verify env) v (concat (req_stream req)) (GatewayApp.request.req_headers req) (gw_paypal g) = (Inr (), certs)"
    "plausible_env env"
  shows "records (gw_emitter g)
    (route_path route, route_provider route, ''accepted'', [], hex_encode (sha256 (concat (req_stream req)))) (gw_emitter g')"
proof -
  let ?body = "concat (req_stream req)"
  let ?sent = "\<lambda>status. Emitter.record_event (gw_emitter g) (h_recorded env) route ?body (GatewayApp.request.req_client req)
    ''accepted'' [] status (h_ended env - h_started env)"
  have p: "case h_upstream env (forward_request route ?body secret) of UpResponse code _ _ \<Rightarrow> code < 1000 | _ \<Rightarrow> True"
    using assms(4) unfolding plausible_env_def by blast
  have "gw_emitter g' = gw_emitter g \<or> (\<exists>n < 1000. gw_emitter g' = ?sent (int n))"
  proof (cases "h_upstream env (forward_request route ?body secret)")
    case (UpResponse code b ct)
    with assms(1-3) p have "code < 1000 \<and> gw_emitter g' = ?sent (int code)"
      by (auto simp: handler_def read_capped_body_eq Let_def forward_def)
    then show ?thesis by blast
  next
    case (UpHTTPError m)
    with assms(1-3) have "gw_emitter g' = ?sent (int 0)"
      by (auto simp: handler_def read_capped_body_eq Let_def forward_def)
    then show ?thesis by (intro disjI2 exI [of _ 0]) simp
  qed (use assms(1-3) in \<open>auto simp: handler_def read_capped_body_eq Let_def forward_def\<close>)
  then show ?thesis
  proof (elim disjE exE conjE)
    fix n :: nat
    assume "n < 1000" "gw_emitter g' = ?sent (int n)"
    with record_event_records [OF assms(4,2), of "int n"] show ?thesis by (simp add: fits_sql_def)
  qed (simp add: records_def)
qed

lemma handler_records:
  assumes "handler lib route v secret env req g = (resp, g')" "plausible_env env"
  shows "records (gw_emitter g)
    (judged lib \<lparr>hd_route = route, hd_verifier = v, hd_env = env, hd_request = req, hd_certs = gw_paypal g\<rparr>) (gw_emitter g')"
proof (cases "length (concat (req_stream req)) \<le> MAX_BODY_BYTES")
  case True
  obtain result certs where
    run: "run_verify lib (h_verify env) v (concat (req_stream req)) (GatewayApp.request.req_headers req) (gw_paypal g) = (result, certs)"
    by fastforce
  consider m where "result = Inl (VerificationErr m)" | e where "result = Inl e" "\<nexists>m. e = VerificationErr m" | "result = Inr ()"
    by (cases result) auto
  then show ?thesis
  proof cases
    case 1
    then show ?thesis
      using handler_rejected [of req lib env v g m certs route secret] record_event_records [OF assms(2) True, of 0] assms(1) True run
      by (simp add: judged_def Let_def fits_sql_def)
  next
    case 2
    then show ?thesis using handler_unrecorded [OF assms(1) True run [unfolded 2(1)] 2(2)] by (simp add: records_def)
  next
    case 3
    show ?thesis using handler_accepted_records [OF assms(1) True run [unfolded 3] assms(2)] run 3 by (simp add: judged_def Let_def)
  qed
next
  case False
  with assms(1) show ?thesis by (simp add: handler_too_large records_def)
qed


section \<open>Every row is a verdict\<close>

text \<open>The events on the wire are \<open>evs\<close>. What the Console holds, what is on the wire and what the emitter has queued are different
  requests among those handled.\<close>

definition accounted :: "('cert, 'key) crypto_lib \<Rightarrow> 'cert handled list \<Rightarrow> console \<Rightarrow> VerifyEvent list \<Rightarrow> VerifyEvent list \<Rightarrow> bool" where
  "accounted lib hs c evs q \<longleftrightarrow>
     list_all event_readable (evs @ q) \<and> held c + mset (map event_key (evs @ q)) \<subseteq># mset (map (judged lib) hs)"

definition on_wire :: "post list \<Rightarrow> VerifyEvent list \<Rightarrow> bool" where
  "on_wire wire evs \<longleftrightarrow> map (\<lambda>(url, body, hs). body) wire = map to_json_bytes evs"

definition trail :: "('cert, 'key) crypto_lib \<Rightarrow> 'cert deployment \<Rightarrow> bool" where
  "trail lib d \<longleftrightarrow> (\<exists>evs. on_wire (dep_wire d) evs
     \<and> accounted lib (dep_handled d) (dep_console d) evs (em_queue (dep_emitter d)))"

lemma accounted_mono:
  assumes "accounted lib hs c evs q" "held c' + mset (map event_key (evs' @ q')) \<subseteq># held c + mset (map event_key (evs @ q))"
    "set (evs' @ q') \<subseteq> set (evs @ q)"
  shows "accounted lib hs c' evs' q'"
  using assms by (auto simp: accounted_def list_all_iff intro: subset_mset.trans)

lemma accounted_records:
  assumes "accounted lib hs c evs (em_queue em)" "records em (judged lib h) em'"
  shows "accounted lib (hs @ [h]) c evs (em_queue em')"
proof -
  have grow: "mset (map (judged lib) hs) \<subseteq># mset (map (judged lib) (hs @ [h]))" by simp
  from assms(2) consider "em' = em" | ev where "em' = emit em ev" "event_readable ev" "event_key ev = judged lib h"
    by (auto simp: records_def)
  then show ?thesis
  proof cases
    case 1
    with assms(1) grow show ?thesis by (auto simp: accounted_def intro: subset_mset.trans)
  next
    case 2
    have q: "em_queue em' = put_dropping QUEUE_SIZE (em_queue em) ev" by (simp add: 2(1) emit_def)
    have "image_mset event_key (mset (em_queue em')) \<subseteq># add_mset (judged lib h) (image_mset event_key (mset (em_queue em)))"
      using image_mset_subseteq_mono [OF mset_put_dropping [of QUEUE_SIZE "em_queue em" ev], of event_key] by (simp add: q 2(3))
    then have "held c + mset (map event_key (evs @ em_queue em')) \<subseteq># add_mset (judged lib h) (held c + mset (map event_key (evs @ em_queue em)))"
      by simp
    moreover have "add_mset (judged lib h) (held c + mset (map event_key (evs @ em_queue em))) \<subseteq># mset (map (judged lib) (hs @ [h]))"
      using assms(1) by (simp add: accounted_def)
    ultimately have "held c + mset (map event_key (evs @ em_queue em')) \<subseteq># mset (map (judged lib) (hs @ [h]))"
      by (rule subset_mset.trans)
    moreover have "list_all event_readable (evs @ em_queue em')"
      using assms(1) 2(2) set_put_dropping [of QUEUE_SIZE "em_queue em" ev] by (auto simp: accounted_def list_all_iff q)
    ultimately show ?thesis by (simp add: accounted_def)
  qed
qed

lemma task_step_queue:
  assumes "task_step now r em = Some em'"
  shows "posting em = [] \<Longrightarrow> posting em' @ em_queue em' = em_queue em" "posting em \<noteq> [] \<Longrightarrow> em_queue em' = em_queue em"
  using assms
  by (auto simp: task_step_def posting_def take_event_def split: task.splits if_splits list.splits)

lemma on_wire_split:
  assumes "on_wire (ws @ w # vs) evs"
  obtains es ev fs where "evs = es @ ev # fs" "on_wire (ws @ vs) (es @ fs)" "fst (snd w) = to_json_bytes ev"
proof -
  let ?n = "length ws"
  have l: "length evs = length ws + Suc (length vs)" using map_eq_imp_length_eq [OF assms [unfolded on_wire_def]] by simp
  then have e: "evs = take ?n evs @ evs ! ?n # drop (Suc ?n) evs" by (intro id_take_nth_drop) simp
  from assms have "map (\<lambda>(url, body, hs). body) (ws @ w # vs) = map to_json_bytes (take ?n evs @ evs ! ?n # drop (Suc ?n) evs)"
    using e by (simp add: on_wire_def)
  then have "map (\<lambda>(url, body, hs). body) ws = map to_json_bytes (take ?n evs)" "(\<lambda>(url, body, hs). body) w = to_json_bytes (evs ! ?n)"
    "map (\<lambda>(url, body, hs). body) vs = map to_json_bytes (drop (Suc ?n) evs)"
    using l by (simp_all add: append_eq_append_conv)
  then show ?thesis using that [OF e] by (simp add: on_wire_def case_prod_beta)
qed

lemma accounted_arrives:
  assumes "accounted lib hs c (es @ ev # fs) q" "env_body e = to_json_bytes ev" "json_reader (env_loads e)" "timestamp_reader (env_parse_ts e)"
    "call e IngestEvent req c = (resp, c')"
  shows "accounted lib hs c' (es @ fs) q"
proof (rule accounted_mono [OF assms(1)])
  have "event_readable ev" using assms(1) by (simp add: accounted_def)
  then have "decode (env_loads e) (env_parse_ts e) (env_body e) = Inr ev" unfolding assms(2) by (rule decode_to_json_bytes [OF assms(3,4)])
  with ingest_held [of e req c] assms(5) have "held c' \<subseteq># held c + {#event_key ev#}" 
    by (auto split: if_splits intro: subset_mset.trans)
  then show "held c' + mset (map event_key ((es @ fs) @ q)) \<subseteq># held c + mset (map event_key ((es @ ev # fs) @ q))"
    by (auto simp: ac_simps intro: subset_mset.trans)
qed auto


lemma dep_simps [simp]:
  "dep_emitter (set_emitter em d) = em" "dep_wire (set_emitter em d) = dep_wire d" "dep_handled (set_emitter em d) = dep_handled d"
  "dep_console (set_emitter em d) = dep_console d"
  by (simp_all add: set_emitter_def)

lemma trail_console:
  assumes "trail lib d" "held c \<subseteq># held (dep_console d)"
  shows "trail lib (set_console c d)"
  using assms accounted_mono by (fastforce simp: trail_def)

lemma trail_emitter: "trail lib d \<Longrightarrow> em_queue em = em_queue (dep_emitter d) \<Longrightarrow> trail lib (set_emitter em d)"
  by (simp add: trail_def)

lemma trail_step:
  assumes "deploy_step lib table secret d d'" "trail lib d"
  shows "trail lib d'"
  using assms
proof (induction rule: deploy_step.induct)
  case (Handles route v env req d resp g)
  then obtain evs where "on_wire (dep_wire d) evs" "accounted lib (dep_handled d) (dep_console d) evs (em_queue (dep_emitter d))"
    by (auto simp: trail_def)
  with accounted_records [OF _ handler_records [OF Handles.hyps(3,2)]] show ?case by (auto simp: trail_def)
next
  case (Sends d now r em)
  then obtain evs where evs: "on_wire (dep_wire d) evs" "accounted lib (dep_handled d) (dep_console d) evs (em_queue (dep_emitter d))"
    by (auto simp: trail_def)
  have "on_wire (dep_wire d @ map (post_request em) (posting em)) (evs @ posting em)"
    using evs(1) by (simp add: on_wire_def post_request_def Let_def)
  moreover have "accounted lib (dep_handled d) (dep_console d) (evs @ posting em) (em_queue em)"
    using evs(2) task_step_queue(1) [OF Sends.hyps(2,1), symmetric] by (simp add: accounted_def)
  ultimately show ?case by (auto simp: trail_def)
next
  case (PostEnds d now r em)
  then show ?case using task_step_queue(2) [OF PostEnds.hyps(2,1)] by (simp add: trail_emitter)
next
  case (GatewayRestarts d url)
  then show ?case using accounted_mono by (fastforce simp: trail_def new_emitter_def)
next
  case (Lost d ws w vs)
  then obtain evs where evs: "on_wire (ws @ w # vs) evs" "accounted lib (dep_handled d) (dep_console d) evs (em_queue (dep_emitter d))"
    by (auto simp: trail_def)
  obtain es ev fs where s: "evs = es @ ev # fs" "on_wire (ws @ vs) (es @ fs)" using on_wire_split [OF evs(1)] .
  have "accounted lib (dep_handled d) (dep_console d) (es @ fs) (em_queue (dep_emitter d))"
    by (rule accounted_mono [OF evs(2)]) (auto simp: s(1))
  with s(2) show ?case by (auto simp: trail_def)
next
  case (Arrives d ws url body hs vs e req resp' c)
  then obtain evs where evs: "on_wire (ws @ (url, body, hs) # vs) evs"
    "accounted lib (dep_handled d) (dep_console d) evs (em_queue (dep_emitter d))" by (auto simp: trail_def)
  obtain es ev fs where s: "evs = es @ ev # fs" "on_wire (ws @ vs) (es @ fs)" "body = to_json_bytes ev"
    using on_wire_split [OF evs(1)] by (metis fst_conv snd_conv)
  have "accounted lib (dep_handled d) c (es @ fs) (em_queue (dep_emitter d))"
    by (rule accounted_arrives [OF evs(2) [unfolded s(1)] _ Arrives.hyps(4-6)]) (simp add: Arrives.hyps(2) s(3))
  with s(2) show ?case by (auto simp: trail_def)
next
  case (Answers v d req e resp' c)
  have "held c \<subseteq># held (dep_console d)"
  proof (cases "v = IngestEvent")
    case True
    with Answers.hyps ingest_held [of e req "dep_console d"] show ?thesis by simp
  next
    case False
    with Answers.hyps(2) others_handler_held [of v e req "dep_console d"] show ?thesis by simp
  qed
  with Answers.prems show ?case by (rule trail_console)
next
  case (Loads now cookie d who st)
  have "held (set_store st (dep_console d)) = held (dep_console d)"
    using content_events [OF content_load [of now cookie "con_store (dep_console d)"]] Loads.hyps by (intro held_frame) simp_all
  with Loads.prems show ?case by (intro trail_console) simp_all
next
  case (Jobs d c)
  then show ?case using job_held trail_console by blast
next
  case (Closed d em)
  then show ?case by (auto simp: aclose_end_def intro!: trail_emitter split: if_splits)
qed (simp_all add: trail_emitter start_def aclose_begin_def)

lemma deployed_trail: "deployed lib table secret d \<Longrightarrow> trail lib d"
proof (induction rule: deployed.induct)
  case (Starts url config)
  have "accounted lib [] (lifespan_start (console_of_config config empty_store)) [] []"
    by (simp add: accounted_def held_def console_queue_def new_batcher_def) (simp add: empty_store_def)
  then show ?case by (auto simp: trail_def on_wire_def new_emitter_def)
qed (rule trail_step)

text \<open>C3: what the Console shows happened. In any run of a gateway and a Console, through restarts, lost and late deliveries and
  whatever else the Console serves, each row of the events table stands for a request of its own that the gateway handled:
  it names the route of that request and the hash of its body, and its verdict and reason are those of the route's
  verifier on that very request. Nothing is shown twice, and nothing is shown as accepted that was not verified. (What is assumed of other
  senders is that they cannot sign as the gateway does.)\<close>

theorem rows_are_verdicts:
  assumes "deployed lib table secret d"
  shows "mset (map row_key (events (con_store (dep_console d)))) \<subseteq># mset (map (judged lib) (dep_handled d))"
proof -
  obtain evs where "held (dep_console d) + mset (map event_key (evs @ em_queue (dep_emitter d))) \<subseteq># mset (map (judged lib) (dep_handled d))"
    using deployed_trail [OF assms] by (auto simp: trail_def accounted_def)
  moreover have "mset (map row_key (events (con_store (dep_console d)))) \<subseteq># held (dep_console d)" by (simp add: held_def)
  ultimately show ?thesis by (meson mset_subset_eq_add_left subset_mset.trans)
qed


text \<open>A run in which a request without a signature is refused, and its verdict becomes a row.\<close>

definition demo_handler_env :: handler_env where
  "demo_handler_env = \<lparr>h_started = 0,
     h_verify = \<lparr>verify_env.env_now = 0, env_t0 = 0, env_t1 = 0, env_client = (\<lambda>_. FetchRaised [])\<rparr>,
     h_ended = 0, h_recorded = 0, h_upstream = (\<lambda>_. UpHTTPError [])\<rparr>"

definition demo_hook :: GatewayApp.request where
  "demo_hook = \<lparr>req_stream = [], req_headers = Map.empty, req_client = None\<rparr>"

definition demo_verdict :: VerifyEvent where
  "demo_verdict = make_event 0 demo_route [] [] ''rejected''
     (classify_reason (Some (VerificationErr (''missing '' @ GITHUB_HEADER @ '' header'')))) 0 0"

definition demo_secret_console :: console where
  "demo_secret_console = lifespan_start (console_of_config (default_config\<lparr>cfg_internal_secret := [107]\<rparr>) empty_store)"

definition demo_arrival :: env where
  "demo_arrival = demo_env\<lparr>env_loads := loads_by json_read, env_parse_ts := demo_parse_ts, env_body := to_json_bytes demo_verdict\<rparr>"

lemma demo_plausible: "plausible_env demo_handler_env" "event_readable demo_verdict" "storable (to_row demo_verdict)"
proof -
  have t: "in_datetime_range 0"
    by (simp add: in_datetime_range_def days_to_ymd_def Let_def DAY_US_def EPOCH_DAYS_def)
  have m: "fits_sql (millis 0)" by code_simp
  have z: "fits_sql 0" by (simp add: fits_sql_def)
  show "plausible_env demo_handler_env" using t m by (simp add: plausible_env_def demo_handler_env_def)
  show "event_readable demo_verdict" unfolding demo_verdict_def using t m z by (intro make_event_readable) simp_all
  show "storable (to_row demo_verdict)" using m z by (simp add: storable_def to_row_def demo_verdict_def make_event_def)
qed

lemma demo_handled:
  "handler lib demo_route (GitHubVerifier k) secret demo_handler_env demo_hook g
   = (Inr (plain 401 (line ''unauthorized'')), g\<lparr>gw_emitter := if enabled (gw_emitter g) then emit (gw_emitter g) demo_verdict else gw_emitter g\<rparr>)"
proof -
  have "run_verify lib (h_verify demo_handler_env) (GitHubVerifier k) (concat (req_stream demo_hook))
      (GatewayApp.request.req_headers demo_hook) (gw_paypal g)
      = (Inl (VerificationErr (''missing '' @ GITHUB_HEADER @ '' header'')), gw_paypal g)"
    by (simp add: run_verify_def github_verify_def demo_hook_def)
  from handler_rejected [OF _ this, of demo_route secret] show ?thesis
    by (simp add: Emitter.record_event_def demo_verdict_def demo_hook_def demo_handler_env_def remote_ip_def)
qed

lemma demo_received:
  assumes "Console.request.req_headers req = header_lookup (snd (snd (post_request em demo_verdict)))" "em_secret em = [107]"
  shows "snd (call demo_arrival IngestEvent req demo_secret_console)
    = demo_secret_console\<lparr>con_batcher := Some (enqueue new_batcher (to_row demo_verdict))\<rparr>"
proof -
  have "ingest_authentic [107] (Console.request.req_headers req) (to_json_bytes demo_verdict)"
    using assms by (simp add: ingest_authentic_def post_request_def Let_def header_lookup_def PROVIDER_HEADER_def HEADER_def sign_def)
  moreover have "decode (loads_by json_read) demo_parse_ts (to_json_bytes demo_verdict) = Inr demo_verdict"
    by (rule decode_to_json_bytes [OF agrees_loads_by demo_parse_ts_ok demo_plausible(2)])
  ultimately show ?thesis
    unfolding ingest_effect
    by (simp add: demo_arrival_def) (simp add: demo_secret_console_def lifespan_start_def console_of_config_def)
qed


text \<open>Its states: the emitter, what was handled, the wire and the Console.\<close>

definition demo_deployment :: "emitter \<Rightarrow> nat handled list \<Rightarrow> post list \<Rightarrow> console \<Rightarrow> nat deployment" where
  "demo_deployment em hs ws c =
     \<lparr>dep_gateway = \<lparr>gw_paypal = fresh_state, gw_emitter = em, gw_forwarded = []\<rparr>, dep_handled = hs, dep_wire = ws, dep_console = c\<rparr>"

abbreviation demo_step :: "nat deployment \<Rightarrow> nat deployment \<Rightarrow> bool" where
  "demo_step \<equiv> deploy_step paypal_sample_lib [(demo_route, GitHubVerifier [115])] [107]"

definition demo_call :: "nat handled" where
  "demo_call = \<lparr>hd_route = demo_route, hd_verifier = GitHubVerifier [115], hd_env = demo_handler_env, hd_request = demo_hook,
     hd_certs = fresh_state\<rparr>"

definition demo_queued :: console where
  "demo_queued = demo_secret_console\<lparr>con_batcher := Some (enqueue new_batcher (to_row demo_verdict))\<rparr>"

definition demo_stored :: console where
  "demo_stored = demo_queued\<lparr>con_store := persist [to_row demo_verdict] empty_store, con_batcher := Some new_batcher\<rparr>"

lemma demo_handles:
  "enabled em \<Longrightarrow> demo_step (demo_deployment em [] [] c) (demo_deployment (emit em demo_verdict) [demo_call] [] c)"
  using deploy_step.Handles [of demo_route "GitHubVerifier [115]" "[(demo_route, GitHubVerifier [115])]" demo_handler_env,
      OF _ demo_plausible(1) demo_handled, of paypal_sample_lib "[107]" "demo_deployment em [] [] c"]
  by (simp add: demo_deployment_def demo_call_def)

lemma demo_sends:
  assumes "em_queue em = [demo_verdict]" "em_task em = Waiting"
  shows "demo_step (demo_deployment em hs [] c) (demo_deployment (take_event False em) hs [post_request (take_event False em) demo_verdict] c)"
proof -
  have "posting (dep_emitter (demo_deployment em hs [] c)) = []"
    "task_step 0 PostRaised (dep_emitter (demo_deployment em hs [] c)) = Some (take_event False em)"
    "posting (take_event False em) = [demo_verdict]"
    using assms by (simp_all add: demo_deployment_def posting_def task_step_def take_event_def)
  with deploy_step.Sends [OF this(1,2)] show ?thesis by (simp add: demo_deployment_def set_emitter_def)
qed

lemma demo_arrives:
  assumes "em_secret em = [107]"
  shows "demo_step (demo_deployment em hs [post_request em demo_verdict] demo_secret_console) (demo_deployment em hs [] demo_queued)"
proof -
  obtain url body hds where p: "post_request em demo_verdict = (url, body, hds)" by (metis prod_cases3)
  let ?d = "demo_deployment em hs [(url, body, hds)] demo_secret_console"
  define req where "req = demo_signup\<lparr>Console.request.req_headers := header_lookup hds\<rparr>"
  have b: "env_body demo_arrival = body" using p by (auto simp: demo_arrival_def post_request_def Let_def)
  have r: "Console.request.req_headers req = header_lookup hds" by (simp add: req_def)
  have c: "call demo_arrival IngestEvent req (dep_console ?d) = (fst (call demo_arrival IngestEvent req demo_secret_console), demo_queued)"
    using demo_received [of req em] p r assms by (simp add: demo_queued_def demo_deployment_def prod_eq_iff)
  have "demo_step ?d (set_console demo_queued (?d\<lparr>dep_wire := [] @ []\<rparr>))"
    by (rule deploy_step.Arrives [OF _ b r _ _ c]) (simp_all add: demo_deployment_def demo_arrival_def demo_parse_ts_ok)
  then show ?thesis by (simp add: p demo_deployment_def)
qed

lemma demo_ticks: "demo_step (demo_deployment em hs ws demo_queued) (demo_deployment em hs ws demo_stored)"
proof -
  have q: "enqueue new_batcher (to_row demo_verdict) = \<lparr>bat_queue = [to_row demo_verdict], bat_dropped = 0\<rparr>"
    by (simp add: enqueue_def new_batcher_def put_nowait_def BATCH_QUEUE_SIZE_def)
  have "con_store demo_queued = empty_store" by (simp add: demo_queued_def demo_secret_console_def)
  then have "drain_and_persist (enqueue new_batcher (to_row demo_verdict), con_store demo_queued)
      = (new_batcher, persist [to_row demo_verdict] empty_store)"
    by (simp only: q drain_and_persist_def prod.case) (simp add: new_batcher_def)
  then have "job_step demo_queued demo_stored"
    unfolding demo_stored_def by (intro job_step.BatchTick) (simp_all add: demo_queued_def)
  then show ?thesis using deploy_step.Jobs [of "demo_deployment em hs ws demo_queued" demo_stored] by (simp add: demo_deployment_def)
qed

lemma demo_run:
  "\<exists>d. deployed paypal_sample_lib [(demo_route, GitHubVerifier [115])] [107] d
     \<and> map row_key (events (con_store (dep_console d))) = [event_key demo_verdict]"
proof -
  let ?em0 = "new_emitter ''u'' [107]"
  let ?em2 = "emit (start ?em0) demo_verdict"
  have em: "enabled (start ?em0)" "em_queue ?em2 = [demo_verdict]" "em_task ?em2 = Waiting" "em_secret (take_event False ?em2) = [107]"
    by (simp_all add: start_def enabled_def new_emitter_def emit_def put_dropping_def put_nowait_def QUEUE_SIZE_def take_event_def)
  have s0: "deployed paypal_sample_lib [(demo_route, GitHubVerifier [115])] [107] (demo_deployment ?em0 [] [] demo_secret_console)"
    unfolding demo_deployment_def demo_secret_console_def by (rule deployed.Starts)
  have s1: "demo_step (demo_deployment ?em0 [] [] demo_secret_console) (demo_deployment (start ?em0) [] [] demo_secret_console)"
    using deploy_step.Opens [of _ _ _ "demo_deployment ?em0 [] [] demo_secret_console"]
    by (simp add: demo_deployment_def set_emitter_def)
  note run = s0 [THEN deployed.Step, OF s1, THEN deployed.Step, OF demo_handles [OF em(1)], THEN deployed.Step, OF demo_sends [OF em(2,3)],
      THEN deployed.Step, OF demo_arrives [OF em(4)], THEN deployed.Step, OF demo_ticks]
  have "map row_key (events (persist [to_row demo_verdict] empty_store)) = [event_key demo_verdict]"
    using demo_plausible(3)
    by (simp add: persist_events) (simp add: add_event_def append_row_def empty_store_def row_key_def event_key_def)
  then have "map row_key (events (con_store (dep_console (demo_deployment em hs ws demo_stored)))) = [event_key demo_verdict]" for em hs ws
    by (simp add: demo_deployment_def demo_stored_def)
  with run show ?thesis by (intro exI conjI)
qed

theorem rows_are_verdicts_witness:
  "\<exists>d :: nat deployment. map row_key (events (con_store (dep_console d))) = [event_key demo_verdict]
     \<and> event_key demo_verdict \<in> judged paypal_sample_lib ` set (dep_handled d)"
proof -
  obtain d where d: "deployed paypal_sample_lib [(demo_route, GitHubVerifier [115])] [107] d"
    "map row_key (events (con_store (dep_console d))) = [event_key demo_verdict]" using demo_run by (elim exE conjE)
  from set_mset_mono [OF rows_are_verdicts [OF d(1)]]
  have "set (map row_key (events (con_store (dep_console d)))) \<subseteq> set (map (judged paypal_sample_lib) (dep_handled d))"
    by (simp only: set_mset_mset)
  then have "event_key demo_verdict \<in> judged paypal_sample_lib ` set (dep_handled d)" unfolding d(2) by simp
  with d(2) show ?thesis by (intro exI [of _ d] conjI)
qed

end
