(* ===== verification/RouteTable.thy ===== *)
theory RouteTable
  imports ConsoleSystem
begin

text \<open>
  The abstract view of the routes a console keeps: a finite map from ids to a route and whether it is
  active, and what each request does to it. The rows of the \<open>endpoints\<close> table, with their order, time stamps and constraints,
  implement it: on this view, every answer of the Console is the change its request asks for, and nothing else changes the routes but a seed.
\<close>

type_synonym table = "int \<rightharpoonup> Route \<times> bool"

definition route_table :: "store \<Rightarrow> table" where
  "route_table st n = map_option (\<lambda>e. (from_endpoint e, end_active e)) (find_key end_id n (endpoints st))"

section \<open>The abstract operations\<close>

definition at_path :: "table \<Rightarrow> pystr \<Rightarrow> int set" where
  "at_path t path = {n. \<exists>r a. t n = Some (r, a) \<and> route_path r = path}"

definition new_key :: "table \<Rightarrow> int" where
  "new_key t = Max (insert 0 (dom t)) + 1"

definition table_add :: "Route \<Rightarrow> table \<Rightarrow> table" where
  "table_add r t = (if at_path t (route_path r) = {} then t(new_key t \<mapsto> (r, True)) else t)"

definition table_edit :: "int \<Rightarrow> Route \<Rightarrow> table \<Rightarrow> table" where
  "table_edit n r t =
     (case t n of None \<Rightarrow> t | Some (_, active) \<Rightarrow> if at_path t (route_path r) \<subseteq> {n} then t(n \<mapsto> (r, active)) else t)"

definition table_toggle :: "int \<Rightarrow> table \<Rightarrow> table" where
  "table_toggle n t = (case t n of None \<Rightarrow> t | Some (r, active) \<Rightarrow> t(n \<mapsto> (r, \<not> active)))"

definition table_remove :: "int \<Rightarrow> table \<Rightarrow> table" where
  "table_remove n t = t(n := None)"

text \<open>What a request does to the table. Whoever is signed in and sends the session's token may change it; the body of a \<open>DELETE\<close> is not read,
  so there the token has to be in the header.\<close>

definition may_write :: "request \<Rightarrow> bool" where
  "may_write req \<longleftrightarrow> req_user req \<noteq> None \<and> (\<exists>s. csrf_guard req = Inr s)"

definition without_form :: "pystr \<Rightarrow> request \<Rightarrow> request" where
  "without_form meth req = (if meth = ''POST'' then req else req\<lparr>req_form := Map.empty\<rparr>)"

fun table_answer :: "pystr \<Rightarrow> view \<Rightarrow> request \<Rightarrow> table \<Rightarrow> table" where
  "table_answer meth EndpointCreate req = (if submission_ok req then table_add (from_endpoint (submitted req 0)) else id)"
| "table_answer meth EndpointUpdate req =
     (if submission_ok req then table_edit (req_path_id req) (from_endpoint (submitted req 0)) else id)"
| "table_answer meth EndpointToggle req = (if may_write req then table_toggle (req_path_id req) else id)"
| "table_answer meth EndpointDelete req = (if may_write (without_form meth req) then table_remove (req_path_id req) else id)"
| "table_answer meth v req = id"

text \<open>What a seed does: it adds the routes of the file whose path is free, in their order, if all of them are valid.\<close>

definition table_seed :: "('d \<Rightarrow> Config py) \<Rightarrow> (pystr + 'd) \<Rightarrow> table \<Rightarrow> table" where
  "table_seed load data t =
     (case data of
        Inl _ \<Rightarrow> t
      | Inr contents \<Rightarrow>
          (case load contents of
             Inl _ \<Rightarrow> t
           | Inr config \<Rightarrow> if list_all (\<lambda>r. validate r = Inr ()) (routes config) then fold table_add (routes config) t else t))"

section \<open>The operations of the store\<close>

lemma route_path_from [simp]: "route_path (from_endpoint e) = end_path e"
  by (simp add: from_endpoint_def)

lemma keyed_endpoints: "endpoints_valid st \<Longrightarrow> keyed end_id (endpoints st)"
  by (simp add: endpoints_valid_def endpoints_ok_def)

lemma route_table_Some:
  assumes "endpoints_valid st"
  shows "route_table st n = Some x \<longleftrightarrow> (\<exists>e \<in> set (endpoints st). end_id e = n \<and> x = (from_endpoint e, end_active e))"
  using endpoint_table.find_key_iff [OF keyed_endpoints [OF assms], of n] by (auto simp: route_table_def)

lemma route_table_dom: "dom (route_table st) = end_id ` set (endpoints st)"
  using endpoint_table.find_key_None [of _ "endpoints st"] by (auto simp: route_table_def dom_def)

lemma at_path_rows:
  assumes "endpoints_valid st"
  shows "at_path (route_table st) path = end_id ` {e \<in> set (endpoints st). end_path e = path}"
proof -
  have "n \<in> at_path (route_table st) path \<longleftrightarrow> (\<exists>e \<in> set (endpoints st). end_id e = n \<and> end_path e = path)" for n
    unfolding at_path_def mem_Collect_eq route_table_Some [OF assms] by (auto intro: route_path_from)
  then show ?thesis by auto
qed

lemma new_key_next: "new_key (route_table st) = next_id end_id (endpoints st)"
proof -
  have "foldr (\<lambda>r m. max (end_id r) m) rows 0 = Max (insert 0 (end_id ` set rows))" for rows :: "Endpoint list"
    by (induction rows) (simp_all add: insert_commute [of 0])
  then show ?thesis by (simp add: new_key_def route_table_dom next_id_def)
qed

lemma route_table_frame: "endpoints st' = endpoints st \<Longrightarrow> route_table st' = route_table st"
  by (rule ext) (simp add: route_table_def)

lemma add_row_table:
  assumes "endpoints_valid st" "end_active e"
  shows "route_table (st\<lparr>endpoints := append_row end_id (\<lambda>n r. r\<lparr>end_id := n\<rparr>) e (endpoints st)\<rparr>)
    = (route_table st)(new_key (route_table st) \<mapsto> (from_endpoint e, True))"
proof (rule ext)
  fix n
  note k = keyed_endpoints [OF assms(1)]
  show "route_table (st\<lparr>endpoints := append_row end_id (\<lambda>n r. r\<lparr>end_id := n\<rparr>) e (endpoints st)\<rparr>) n
    = ((route_table st)(new_key (route_table st) \<mapsto> (from_endpoint e, True))) n"
    using endpoint_table.find_key_append_new [OF k, of e] endpoint_table.find_key_append_old [OF k, of n e] assms(2)
    by (simp add: route_table_def new_key_next from_endpoint_cong)
qed

lemma free_path: "endpoints_valid st \<Longrightarrow> at_path (route_table st) path = {} \<longleftrightarrow> path \<notin> end_path ` set (endpoints st)"
  by (auto simp: at_path_rows)

section \<open>The handlers\<close>

lemma create_table:
  assumes "endpoints_valid (con_store c)"
  shows "route_table (con_store (snd (handle_endpoint_create now req c)))
    = table_answer meth EndpointCreate req (route_table (con_store c))"
proof -
  have ok: "endpoints_ok (con_store c)" using assms by (simp add: endpoints_valid_def)
  show ?thesis
    unfolding create_rows [OF ok]
    using add_row_table [OF assms, of "(submitted req 0)\<lparr>end_created_at := millis now, end_updated_at := millis now, end_active := True\<rparr>"]
    by (simp add: table_add_def free_path [OF assms] from_endpoint_cong)
qed

lemma update_table:
  assumes "endpoints_valid (con_store c)"
  shows "route_table (con_store (snd (handle_endpoint_update now req c)))
    = table_answer meth EndpointUpdate req (route_table (con_store c))"
proof -
  let ?n = "req_path_id req" and ?st = "con_store c" and ?r = "from_endpoint (submitted req 0)"
  have ok: "endpoints_ok ?st" using assms by (simp add: endpoints_valid_def)
  have free: "at_path (route_table ?st) (end_path (submitted req 0)) \<subseteq> {?n} \<longleftrightarrow> \<not> path_taken req (endpoints ?st)"
    by (auto simp: at_path_rows [OF assms] path_taken_def)
  have new: "route_table (?st\<lparr>endpoints := update_where (\<lambda>r. end_id r = ?n) (edited now req) (endpoints ?st)\<rparr>) m =
      (case route_table ?st m of None \<Rightarrow> None | Some (r, a) \<Rightarrow> Some (if m = ?n then ?r else r, a))" for m
  proof -
    have "find_key end_id m (update_where (\<lambda>r. end_id r = ?n) (edited now req) (endpoints ?st))
        = map_option (\<lambda>r. if end_id r = ?n then edited now req r else r) (find_key end_id m (endpoints ?st))"
      by (rule endpoint_table.find_key_update) (simp add: edited_def)
    moreover have "find_key end_id m (endpoints ?st) = Some e \<Longrightarrow> end_id e = m" for e
      using endpoint_table.find_key_iff [OF keyed_endpoints [OF assms]] by blast
    ultimately show ?thesis
      by (cases "find_key end_id m (endpoints ?st)") (auto simp: route_table_def edited_def from_endpoint_cong)
  qed
  show ?thesis
  proof (cases "submission_ok req \<and> ?n \<in> end_id ` set (endpoints ?st) \<and> \<not> path_taken req (endpoints ?st)")
    case True
    then obtain r a where t: "route_table ?st ?n = Some (r, a)" using route_table_dom [of ?st] by force
    have "route_table (?st\<lparr>endpoints := update_where (\<lambda>r. end_id r = ?n) (edited now req) (endpoints ?st)\<rparr>)
        = (route_table ?st)(?n \<mapsto> (?r, a))"
      by (rule ext) (auto simp: new t split: option.split)
    then show ?thesis unfolding update_rows [OF ok] using True t free by (simp add: table_edit_def)
  next
    case False
    then have "table_answer meth EndpointUpdate req (route_table ?st) = route_table ?st"
      using free route_table_dom [of ?st] by (auto simp: table_edit_def dom_def split: option.split)
    then show ?thesis unfolding update_rows [OF ok] using False by auto
  qed
qed

lemma guarded_table:
  "route_table (con_store (snd (guarded g req body c))) =
     (case g of Inl _ \<Rightarrow> route_table (con_store c) | Inr x \<Rightarrow> route_table (con_store (snd (body x c))))"
  by (cases g) simp_all

lemma auth_guard_Inl: "auth_guard req = Inl s \<Longrightarrow> req_user req = None"
  using auth_guard_iff [of req] by (cases "req_user req") auto

lemma toggle_table:
  assumes "endpoints_valid (con_store c)"
  shows "route_table (con_store (snd (handle_endpoint_toggle_active now req c)))
    = table_answer meth EndpointToggle req (route_table (con_store c))"
proof -
  let ?n = "req_path_id req" and ?st = "con_store c"
  have set: "route_table (set_endpoint_active ?n b t ?st) = (route_table ?st)(?n := map_option (\<lambda>(r, a). (r, b)) (route_table ?st ?n))" for b t
  proof (rule ext)
    fix m
    have "find_key end_id m (update_where (\<lambda>r. end_id r = ?n) (\<lambda>r. r\<lparr>end_active := b, end_updated_at := t\<rparr>) (endpoints ?st))
        = map_option (\<lambda>r. if end_id r = ?n then r\<lparr>end_active := b, end_updated_at := t\<rparr> else r) (find_key end_id m (endpoints ?st))"
      by (rule endpoint_table.find_key_update) simp
    moreover have "find_key end_id m (endpoints ?st) = Some e \<Longrightarrow> end_id e = m" for e
      using endpoint_table.find_key_iff [OF keyed_endpoints [OF assms]] by blast
    ultimately show "route_table (set_endpoint_active ?n b t ?st) m
        = ((route_table ?st)(?n := map_option (\<lambda>(r, a). (r, b)) (route_table ?st ?n))) m"
      by (cases "find_key end_id m (endpoints ?st)") (auto simp: route_table_def set_endpoint_active_def from_endpoint_cong)
  qed
  show ?thesis
  proof (cases "may_write req")
    case True
    then obtain u s where g: "auth_guard req = Inr u" "csrf_guard req = Inr s" by (auto simp: may_write_def auth_guard_iff)
    then show ?thesis
      using True set
      by (cases "find_key end_id ?n (endpoints ?st)")
         (auto simp: handle_endpoint_toggle_active_def Let_def get_endpoint_by_id_def table_toggle_def route_table_def [of ?st ?n])
  next
    case False
    then show ?thesis
      by (auto simp: handle_endpoint_toggle_active_def guarded_table may_write_def auth_guard_iff split: sum.split)
  qed
qed

lemma delete_table:
  assumes "endpoints_valid (con_store c)"
  shows "route_table (con_store (snd (handle_endpoint_delete meth req c)))
    = table_answer meth EndpointDelete req (route_table (con_store c))"
proof -
  let ?req = "req\<lparr>req_form := (if meth = ''POST'' then req_form req else Map.empty)\<rparr>"
  have r: "without_form meth req = ?req" by (simp add: without_form_def)
  have "route_table (delete_endpoint n (con_store c)) = table_remove n (route_table (con_store c))" for n
  proof (rule ext)
    fix m
    show "route_table (delete_endpoint n (con_store c)) m = table_remove n (route_table (con_store c)) m"
    proof (cases "find_key end_id m (endpoints (con_store c))")
      case (Some e)
      then have "end_id e = m" using endpoint_table.find_key_iff [OF keyed_endpoints [OF assms]] by blast
      then show ?thesis
        using Some endpoint_table.find_key_delete [OF keyed_endpoints [OF assms], of m "\<lambda>r. end_id r = n"]
        by (simp add: route_table_def delete_endpoint_def table_remove_def)
    qed (use endpoint_table.find_key_delete [OF keyed_endpoints [OF assms], of m "\<lambda>r. end_id r = n"] in
         \<open>simp add: route_table_def delete_endpoint_def table_remove_def\<close>)
  qed
  note del = this
  show ?thesis
  proof (cases "auth_guard req")
    case (Inl s)
    then show ?thesis using auth_guard_Inl [OF Inl] by (simp add: handle_endpoint_delete_def may_write_def r)
  next
    case (Inr u)
    then have "req_user ?req = Some u" by (simp add: auth_guard_iff)
    with Inr del show ?thesis
      unfolding handle_endpoint_delete_def table_answer.simps r may_write_def by (cases "csrf_guard ?req") simp_all
  qed
qed

lemmas account_handlers_table =
  content_auth_handlers [THEN content_endpoints, THEN route_table_frame]
  content_reset_password [THEN content_endpoints, THEN route_table_frame]
  content_settings_handlers [THEN content_endpoints, THEN route_table_frame]

lemma call_table:
  "endpoints_valid (con_store c) \<Longrightarrow>
     route_table (con_store (snd (call e v req c))) = table_answer (env_method e) v req (route_table (con_store c))"
  by (cases v)
     (simp_all only: call.simps create_table [where meth = "env_method e"] update_table [where meth = "env_method e"]
        toggle_table [where meth = "env_method e"] delete_table, simp_all add: account_handlers_table)

section \<open>The jobs\<close>

lemma seed_table:
  "endpoints_valid st \<Longrightarrow> list_all (\<lambda>e. validate (from_endpoint e) = Inr () \<and> end_active e) es \<Longrightarrow>
     route_table (snd (seed_routes now es st)) = fold table_add (map from_endpoint es) (route_table st)"
proof (induction es arbitrary: st)
  case (Cons e es)
  let ?e = "e\<lparr>end_created_at := now, end_updated_at := now\<rparr>"
  have v: "validate (from_endpoint ?e) = Inr ()" "end_active ?e" using Cons.prems(2) by (simp_all add: from_endpoint_cong)
  show ?case
  proof (cases "end_path e \<in> end_path ` set (endpoints st)")
    case True
    then obtain x where "get_endpoint_by_path (end_path e) st = Inr x"
      by (cases "find (\<lambda>r. end_path r = end_path e) (endpoints st)") (auto simp: get_endpoint_by_path_def find_None_iff)
    moreover have "table_add (from_endpoint e) (route_table st) = route_table st"
      using True by (simp add: table_add_def free_path [OF Cons.prems(1)])
    ultimately show ?thesis using Cons by simp
  next
    case False
    then have n: "find (\<lambda>r. end_path r = end_path e) (endpoints st) = None"
      unfolding find_None_iff by (metis imageI)
    have ck: "endpoint_check ?e" using v(1) validate_usable [of "from_endpoint ?e"]
      by (simp add: row_shell_def endpoint_check_def)
    let ?st1 = "st\<lparr>endpoints := append_row end_id (\<lambda>n r. r\<lparr>end_id := n\<rparr>) ?e (endpoints st)\<rparr>"
    have c: "create_endpoint ?e st = Inr (next_id end_id (endpoints st), ?st1)"
      using False ck by (simp add: create_endpoint_def)
    have "route_table ?st1 = table_add (from_endpoint e) (route_table st)"
      using add_row_table [OF Cons.prems(1) v(2)] False by (simp add: table_add_def free_path [OF Cons.prems(1)] from_endpoint_cong)
    moreover have "route_table (snd (seed_routes now es ?st1)) = fold table_add (map from_endpoint es) (route_table ?st1)"
      using Cons.IH [OF create_endpoint_valid [OF Cons.prems(1) v(1) c]] Cons.prems(2) by simp
    moreover have "snd (seed_routes now (e # es) st) = snd (seed_routes now es ?st1)"
      using n c by (simp add: get_endpoint_by_path_def case_prod_beta)
    ultimately show ?thesis by simp
  qed
qed simp

lemma seed_config_table:
  assumes "endpoints_valid st"
  shows "route_table (snd (seed_config load now path data st)) = table_seed load data (route_table st)"
proof (cases data)
  case (Inr contents)
  show ?thesis
  proof (cases "load contents")
    case (Inl e)
    then show ?thesis using \<open>data = Inr contents\<close> by (cases e) (simp_all add: seed_config_def import_config_def table_seed_def)
  next
    case (Inr config)
    show ?thesis
    proof (cases "list_all (\<lambda>r. validate r = Inr ()) (routes config)")
      case True
      then have i: "import_config load contents = Inr (map to_endpoint (routes config))"
        using Inr import_routes_iff by (simp add: import_config_def)
      have "list_all (\<lambda>e. validate (from_endpoint e) = Inr () \<and> end_active e) (map to_endpoint (routes config))"
        using True by (simp add: list_all_iff) (simp add: to_endpoint_def)
      from seed_table [OF assms this] True show ?thesis
        using \<open>data = Inr contents\<close> Inr i by (simp add: seed_config_def table_seed_def o_def)
    next
      case False
      then obtain x where "import_config load contents = Inl x"
        using Inr import_routes_iff [of 0 "routes config"]
        by (cases "import_routes 0 (routes config)") (auto simp: import_config_def)
      then show ?thesis using \<open>data = Inr contents\<close> Inr False by (cases x) (simp_all add: seed_config_def table_seed_def)
    qed
  qed
qed (simp add: seed_config_def table_seed_def)

lemma persist_table: "route_table (persist es st) = route_table st"
proof -
  have "endpoints (persist es st) = endpoints st"
    by (rule persist_keeps [where P = "\<lambda>st'. endpoints st' = endpoints st"])
       (simp_all add: set_setting_def, (drule event_writes_endpoints, simp)+)
  then show ?thesis by (rule route_table_frame)
qed

lemma job_table:
  assumes "job_step c c'"
  shows "route_table (con_store c') = route_table (con_store c)
    \<or> (\<exists>(load :: pystr \<Rightarrow> Config py) now path data. con_store c' = snd (seed_config load now path data (con_store c)))"
  using assms
proof cases
  case (BatchTick b b' st)
  then have "route_table st = route_table (con_store c)"
    using drain_keeps [of b "con_store c" b' st "\<lambda>st'. route_table st' = route_table (con_store c)"] persist_table by simp
  with BatchTick show ?thesis by simp
next
  case (Sweep now)
  then show ?thesis using route_table_frame [OF sweep_frame(3)] by simp
next
  case (ResetCommand fr now email)
  then show ?thesis using route_table_frame [OF content_endpoints [OF content_reset_command]] by simp
next
  case (SeedCommand load now path data)
  then show ?thesis by auto
qed simp

text \<open>C14: the Console implements a table of routes. In every reachable state, the answer to a request changes the abstract table
  by exactly the operation the request asks for: a creation adds the submitted route, active, under a new id if it is
  valid and its path free; an edit replaces the route of its id by the submitted one under the same conditions, and keeps whether it is active;
  a toggle and a deletion concern the route of their id; all of them only for a signed-in user with the session's token; and every other
  request leaves the table alone. So do the arrival of a request and the jobs, except for the seed command, which adds the routes of its file with a free path.
  And the routes an export lists are exactly the active entries of the table.\<close>

theorem console_refines_table:
  assumes "console_reachable (c, pending)"
  shows "route_table (con_store (snd (call e v req c))) = table_answer (env_method e) v req (route_table (con_store c))
    \<and> route_table (snd (load_session now cookie (con_store c))) = route_table (con_store c)
    \<and> route_table (snd (seed_config load now path data (con_store c))) = table_seed load data (route_table (con_store c))
    \<and> (\<forall>c'. job_step c c' \<longrightarrow> route_table (con_store c') = route_table (con_store c)
        \<or> (\<exists>(load :: pystr \<Rightarrow> Config py) now path data. con_store c' = snd (seed_config load now path data (con_store c))))
    \<and> set (routes (export_config (list_active_endpoints (con_store c)))) = {r. \<exists>n. route_table (con_store c) n = Some (r, True)}"
proof -
  have v: "endpoints_valid (con_store c)" using routes_inv.holds [OF assms] by simp
  have "set (routes (export_config (list_active_endpoints (con_store c)))) = {r. \<exists>n. route_table (con_store c) n = Some (r, True)}"
    by (auto simp: route_table_Some [OF v] export_config_def list_active_endpoints_def)
  moreover have "route_table (snd (load_session now cookie (con_store c))) = route_table (con_store c)"
    by (rule route_table_frame [OF content_endpoints [OF content_load]])
  ultimately show ?thesis using call_table [OF v] job_table seed_config_table [OF v] by blast
qed

text \<open>A console just started, seeded with one route.\<close>

theorem console_refines_table_witness:
  "route_table (snd (seed_config demo_load 0 ''f'' (Inr (marshal (export_config [demo_row]))) empty_store)) = [1 \<mapsto> (demo_route, True)]"
proof -
  let ?t = "marshal (export_config [demo_row])"
  have l: "demo_load ?t = Inr (export_config [demo_row])" by (simp add: demo_load_def)
  have r: "routes (export_config [demo_row]) = [demo_route]" "validate demo_route = Inr ()"
    by (simp_all add: export_config_def demo_row_def from_endpoint_cong) (simp add: validate_iff demo_route_def)
  have "route_table empty_store = Map.empty" by (rule ext) (simp add: route_table_def empty_store_def find_key_def)
  moreover have "table_seed demo_load (Inr ?t) Map.empty = [1 \<mapsto> (demo_route, True)]"
    using r by (simp add: table_seed_def l table_add_def at_path_def new_key_def)
  ultimately show ?thesis
    using console_refines_table [OF Boot [of default_config], where load = demo_load and now = 0 and path = "''f''" and data = "Inr ?t"]
    by (simp add: lifespan_start_def console_of_config_def)
qed

end
