(* ===== verification/BackgroundTasks.thy ===== *)
theory BackgroundTasks
  imports Batcher Retention
begin

text \<open>
  The tasks behind the Console: \<open>Batcher.start\<close>, \<open>aclose\<close> and \<open>_run\<close> (\<open>batcher.py\<close>) and those of \<open>RetentionJob\<close>
  (\<open>retention.py\<close>). Each is a small machine whose phases are the places where the coroutine awaits; what happens
  between two awaits is one step. A batch being written is in the hands of a worker thread and takes effect when its step ends. Requests may
  enqueue at any time, also while a batch is being written or the task is closing.
\<close>

section \<open>Tasks that can be closed\<close>

text \<open>What \<open>aclose\<close> needs of a task to return: once closing, every step of the task brings it nearer to its end, and
  it can take a step until it is there. \<open>next_step c s\<close> is the step for what the event loop chose (\<open>c\<close>), if
  that is possible.\<close>

locale closing_task =
  fixes next_step :: "'c \<Rightarrow> 's \<Rightarrow> 's option" and closing :: "'s \<Rightarrow> bool" and rank :: "'s \<Rightarrow> nat"
  assumes progress: "closing s \<Longrightarrow> 0 < rank s \<Longrightarrow> \<exists>c s'. next_step c s = Some s'"
    and decreases: "closing s \<Longrightarrow> next_step c s = Some s' \<Longrightarrow> rank s' < rank s"
    and stays: "closing s \<Longrightarrow> next_step c s = Some s' \<Longrightarrow> closing s'"
begin

fun run :: "'c list \<Rightarrow> 's \<Rightarrow> 's option" where
  "run [] s = Some s"
| "run (c # cs) s = (case next_step c s of None \<Rightarrow> None | Some s' \<Rightarrow> run cs s')"

lemma run_append: "run (cs @ ds) s = (case run cs s of None \<Rightarrow> None | Some t \<Rightarrow> run ds t)"
  by (induction cs arbitrary: s) (auto split: option.split)

lemma run_bound: "closing s \<Longrightarrow> run cs s = Some s' \<Longrightarrow> closing s' \<and> length cs + rank s' \<le> rank s"
proof (induction cs arbitrary: s)
  case (Cons c cs)
  then obtain t where t: "next_step c s = Some t" "run cs t = Some s'" by (auto split: option.splits)
  with Cons.IH [OF stays [OF Cons.prems(1) t(1)] t(2)] decreases [OF Cons.prems(1) t(1)] show ?case by simp
qed simp

text \<open>Every run ends within the rank, and every run can be continued to the end.\<close>

lemma closes: "closing s \<Longrightarrow> \<exists>cs s'. run cs s = Some s' \<and> rank s' = 0"
proof (induction "rank s" arbitrary: s rule: less_induct)
  case less
  show ?case
  proof (cases "rank s = 0")
    case True
    then show ?thesis by (intro exI [of _ "[]"]) simp
  next
    case False
    then obtain c t where t: "next_step c s = Some t" using progress [OF less.prems] by auto
    from less.hyps [OF decreases [OF less.prems t] stays [OF less.prems t]] obtain cs s' where "run cs t = Some s'" "rank s' = 0"
      by blast
    with t show ?thesis by (intro exI [of _ "c # cs"] exI [of _ s']) simp
  qed
qed

end

section \<open>The batcher's task\<close>

text \<open>Where the coroutine is: no task, created but not yet run, waiting for the tick or the stop event, writing a
  batch (and whether it was the stop event that woke it), writing the last batch, finished but not yet awaited.\<close>

datatype batch_phase =
    NoTask | Created | Waiting | Writing "Event list" bool | LastWrite "Event list" | Finished

record batch_task =
  bt_phase :: batch_phase
  bt_stopping :: bool
  bt_batcher :: batcher
  bt_store :: store

definition new_batch_task :: "store \<Rightarrow> batch_task" where
  "new_batch_task st = \<lparr>bt_phase = NoTask, bt_stopping = False, bt_batcher = new_batcher, bt_store = st\<rparr>"

definition bt_start :: "batch_task \<Rightarrow> batch_task" where
  "bt_start s = (if bt_phase s = NoTask then s\<lparr>bt_stopping := False, bt_phase := Created\<rparr> else s)"

text \<open>\<open>aclose\<close> up to its \<open>await self._task\<close>, and what follows it.\<close>

definition bt_aclose :: "batch_task \<Rightarrow> batch_task" where
  "bt_aclose s = (if bt_phase s = NoTask then s else s\<lparr>bt_stopping := True\<rparr>)"

definition bt_enqueue :: "batch_task \<Rightarrow> Event \<Rightarrow> batch_task" where
  "bt_enqueue s e = s\<lparr>bt_batcher := enqueue (bt_batcher s) e\<rparr>"

definition bt_queue :: "batch_task \<Rightarrow> Event list" where
  "bt_queue s = bat_queue (bt_batcher s)"

text \<open>\<open>_drain\<close>: take the queue; with nothing in it \<open>_drain_and_persist\<close> returns at once.\<close>

definition drain_into :: "batch_phase \<Rightarrow> (Event list \<Rightarrow> batch_phase) \<Rightarrow> batch_task \<Rightarrow> batch_task" where
  "drain_into idle writing s =
     (if bt_queue s = [] then s\<lparr>bt_phase := idle\<rparr>
      else s\<lparr>bt_phase := writing (bt_queue s), bt_batcher := bt_batcher s\<lparr>bat_queue := []\<rparr>\<rparr>)"

definition leave_loop :: "batch_task \<Rightarrow> batch_task" where
  "leave_loop s = drain_into Finished LastWrite s"

text \<open>After the write in the loop: \<open>if done: break\<close>, then the loop's condition.\<close>

definition loop_again :: "bool \<Rightarrow> batch_task \<Rightarrow> batch_task" where
  "loop_again woken s = (if woken \<or> bt_stopping s then leave_loop s else s\<lparr>bt_phase := Waiting\<rparr>)"

fun bt_next :: "bool \<Rightarrow> batch_task \<Rightarrow> batch_task option" where
  "bt_next woken s =
     (case bt_phase s of
        NoTask \<Rightarrow> None
      | Created \<Rightarrow> Some (loop_again False s)
      | Waiting \<Rightarrow>
          if woken \<and> \<not> bt_stopping s then None
          else if bt_queue s = [] then Some (loop_again woken s)
          else Some (drain_into Waiting (\<lambda>q. Writing q woken) s)
      | Writing q w \<Rightarrow> Some (loop_again w (s\<lparr>bt_store := persist q (bt_store s)\<rparr>))
      | LastWrite q \<Rightarrow> Some (s\<lparr>bt_store := persist q (bt_store s), bt_phase := Finished\<rparr>)
      | Finished \<Rightarrow> if bt_stopping s then Some (s\<lparr>bt_phase := NoTask\<rparr>) else None)"

declare bt_next.simps [simp del]

definition bt_flush :: "batch_task \<Rightarrow> batch_task" where
  "bt_flush s =
     (case drain_and_persist (bt_batcher s, bt_store s) of (b, st) \<Rightarrow> s\<lparr>bt_batcher := b, bt_store := st\<rparr>)"

section \<open>Closing the batcher\<close>

definition bt_closing :: "batch_task \<Rightarrow> bool" where
  "bt_closing s \<longleftrightarrow> bt_stopping s"

definition bt_rank :: "batch_task \<Rightarrow> nat" where
  "bt_rank s =
     (case bt_phase s of NoTask \<Rightarrow> 0 | Finished \<Rightarrow> 1 | LastWrite _ \<Rightarrow> 2 | Created \<Rightarrow> 3 | Writing _ _ \<Rightarrow> 3 | Waiting \<Rightarrow> 4)"

lemma loop_again_rank: "bt_stopping s \<Longrightarrow> bt_rank (loop_again w s) \<le> 2 \<and> bt_stopping (loop_again w s)"
  by (simp add: loop_again_def leave_loop_def drain_into_def bt_rank_def)

lemma bt_next_closing:
  assumes "bt_stopping s" "bt_next w s = Some s'"
  shows "bt_rank s' < bt_rank s \<and> bt_stopping s'"
proof (cases "bt_phase s")
  case (Writing q w')
  then show ?thesis
    using assms loop_again_rank [of "s\<lparr>bt_store := persist q (bt_store s)\<rparr>" w'] by (auto simp: bt_next.simps bt_rank_def)
next
  case Waiting
  show ?thesis
  proof (cases "bt_queue s = []")
    case True
    with Waiting assms loop_again_rank [of s w] show ?thesis by (auto simp: bt_next.simps bt_rank_def)
  next
    case False
    with Waiting assms show ?thesis by (auto simp: bt_next.simps bt_rank_def drain_into_def)
  qed
qed (use assms loop_again_rank [of s False] in \<open>auto simp: bt_next.simps bt_rank_def\<close>)

interpretation batch_closing: closing_task bt_next bt_closing bt_rank
proof unfold_locales
  fix s
  show "\<exists>w s'. bt_next w s = Some s'" if "bt_closing s" "0 < bt_rank s"
    using that by (cases "bt_phase s") (auto simp: bt_next.simps bt_rank_def bt_closing_def)
  show "bt_rank s' < bt_rank s" if "bt_closing s" "bt_next w s = Some s'" for w s'
    using that bt_next_closing by (auto simp: bt_closing_def)
  show "bt_closing s'" if "bt_closing s" "bt_next w s = Some s'" for w s'
    using that bt_next_closing by (auto simp: bt_closing_def)
qed

text \<open>What is still to be written: the batch in the worker's hands and the queue.\<close>

definition in_flight :: "batch_task \<Rightarrow> Event list" where
  "in_flight s = (case bt_phase s of Writing q _ \<Rightarrow> q | LastWrite q \<Rightarrow> q | _ \<Rightarrow> [])"

definition persist_some :: "Event list \<Rightarrow> store \<Rightarrow> store" where
  "persist_some q st = (if q = [] then st else persist q st)"

definition settled :: "batch_task \<Rightarrow> store" where
  "settled s = persist_some (bt_queue s) (persist_some (in_flight s) (bt_store s))"

text \<open>The states a batcher goes through, with the events it was offered.\<close>

inductive batch_reachable :: "store \<Rightarrow> Event list \<Rightarrow> batch_task \<Rightarrow> bool" where
  New: "batch_reachable st [] (new_batch_task st)"
| Started: "batch_reachable st es s \<Longrightarrow> batch_reachable st es (bt_start s)"
| Offered: "batch_reachable st es s \<Longrightarrow> batch_reachable st (es @ [e]) (bt_enqueue s e)"
| Closed: "batch_reachable st es s \<Longrightarrow> batch_reachable st es (bt_aclose s)"
| Ran: "batch_reachable st es s \<Longrightarrow> bt_next w s = Some s' \<Longrightarrow> batch_reachable st es s'"

text \<open>A batch in the worker's hands is not empty, and only a task that was told to stop is past its loop.\<close>

definition batch_phase_ok :: "batch_task \<Rightarrow> bool" where
  "batch_phase_ok s \<longleftrightarrow>
     (case bt_phase s of Writing q w \<Rightarrow> q \<noteq> [] \<and> (w \<longrightarrow> bt_stopping s) | LastWrite q \<Rightarrow> q \<noteq> [] \<and> bt_stopping s
      | Finished \<Rightarrow> bt_stopping s | _ \<Rightarrow> True)"

lemma loop_again_ok: "(w \<longrightarrow> bt_stopping s) \<Longrightarrow> batch_phase_ok (loop_again w s)"
  by (auto simp: batch_phase_ok_def loop_again_def leave_loop_def drain_into_def)

lemma bt_next_ok: "batch_phase_ok s \<Longrightarrow> bt_next w s = Some s' \<Longrightarrow> batch_phase_ok s'"
proof (cases "bt_phase s")
  case Waiting
  then show "batch_phase_ok s \<Longrightarrow> bt_next w s = Some s' \<Longrightarrow> batch_phase_ok s'"
    using loop_again_ok [of w s] by (auto simp: bt_next.simps drain_into_def batch_phase_ok_def split: if_splits)
next
  case (Writing q w')
  then show "batch_phase_ok s \<Longrightarrow> bt_next w s = Some s' \<Longrightarrow> batch_phase_ok s'"
    using loop_again_ok [of w' "s\<lparr>bt_store := persist q (bt_store s)\<rparr>"] by (auto simp: bt_next.simps batch_phase_ok_def [of s])
next
  case Created
  then show "bt_next w s = Some s' \<Longrightarrow> batch_phase_ok s'" using loop_again_ok [of False s] by (auto simp: bt_next.simps)
qed (auto simp: bt_next.simps batch_phase_ok_def split: if_splits)

lemma batch_reachable_ok: "batch_reachable st es s \<Longrightarrow> batch_phase_ok s"
proof (induction rule: batch_reachable.induct)
  case (Ran st es s w s')
  then show ?case using bt_next_ok by blast
qed (auto simp: batch_phase_ok_def new_batch_task_def bt_start_def bt_enqueue_def bt_aclose_def split: batch_phase.splits)

section \<open>The task refines the pipeline\<close>











text \<open>A task started, offered an event, woken by the tick, offered another and told to close while it writes the first.\<close>

definition busy_task :: batch_task where
  "busy_task =
     bt_enqueue (the (bt_next False (bt_enqueue (the (bt_next False (bt_start (new_batch_task empty_store)))) (sample_row 0 ''accepted''))))
       (sample_row 1 ''rejected'')"

lemma busy_task_state:
  "bt_phase busy_task = Writing [sample_row 0 ''accepted''] False" "bt_queue busy_task = [sample_row 1 ''rejected'']"
  "bat_dropped (bt_batcher busy_task) = 0" "bt_store busy_task = empty_store" "bt_stopping busy_task = False"
  by (simp_all add: busy_task_def bt_enqueue_def bt_start_def new_batch_task_def bt_next.simps loop_again_def drain_into_def bt_queue_def
      enqueue_def new_batcher_def put_nowait_def BATCH_QUEUE_SIZE_def)

lemma busy_task_reachable: "batch_reachable empty_store [sample_row 0 ''accepted'', sample_row 1 ''rejected''] busy_task"
proof -
  let ?s1 = "bt_start (new_batch_task empty_store)"
  have r1: "batch_reachable empty_store [] ?s1" by (intro batch_reachable.Started batch_reachable.New)
  obtain s2 where s2: "bt_next False ?s1 = Some s2" by (auto simp: bt_next.simps bt_start_def new_batch_task_def)
  let ?s3 = "bt_enqueue s2 (sample_row 0 ''accepted'')"
  have r3: "batch_reachable empty_store [sample_row 0 ''accepted''] ?s3"
    using batch_reachable.Offered [OF batch_reachable.Ran [OF r1 s2]] by simp
  obtain s4 where s4: "bt_next False ?s3 = Some s4"
    using s2 by (cases "bt_queue ?s3 = []") (auto simp: bt_next.simps bt_start_def new_batch_task_def bt_enqueue_def loop_again_def)
  have "busy_task = bt_enqueue s4 (sample_row 1 ''rejected'')" by (simp add: busy_task_def s2 s4)
  then show ?thesis using batch_reachable.Offered [OF batch_reachable.Ran [OF r3 s4], of "sample_row 1 ''rejected''"] by simp
qed


section \<open>Closing\<close>

lemma settled_next:
  assumes "batch_phase_ok s" "bt_stopping s" "bt_next w s = Some s'" "0 < bt_rank s'"
  shows "settled s' = settled s \<and> bat_dropped (bt_batcher s') = bat_dropped (bt_batcher s)"
  using assms
  by (cases "bt_phase s")
     (auto simp: bt_next.simps settled_def in_flight_def loop_again_def leave_loop_def drain_into_def bt_queue_def persist_some_def
       batch_phase_ok_def bt_rank_def)

text \<open>While nothing more is enqueued: a task past its loop has an empty queue, and what it will have written is fixed.\<close>

definition closing_with :: "store \<Rightarrow> int \<Rightarrow> batch_task \<Rightarrow> bool" where
  "closing_with st d s \<longleftrightarrow>
     batch_phase_ok s \<and> bt_stopping s \<and> bat_dropped (bt_batcher s) = d \<and> settled s = st
     \<and> (case bt_phase s of LastWrite _ \<Rightarrow> bt_queue s = [] | Finished \<Rightarrow> bt_queue s = [] | NoTask \<Rightarrow> bt_queue s = [] | _ \<Rightarrow> True)"

lemma closing_with_next:
  assumes "closing_with st d s" "bt_next w s = Some s'"
  shows "closing_with st d s'"
proof -
  have c: "batch_phase_ok s" "bt_stopping s" "bat_dropped (bt_batcher s) = d" "settled s = st"
    using assms(1) by (simp_all add: closing_with_def)
  have "batch_phase_ok s'" "bt_stopping s'" using bt_next_ok [OF c(1) assms(2)] bt_next_closing [OF c(2) assms(2)] by simp_all
  moreover have "settled s' = st \<and> bat_dropped (bt_batcher s') = d"
  proof (cases "bt_phase s = Finished")
    case True
    then have "s' = s\<lparr>bt_phase := NoTask\<rparr>" using assms(2) c(2) by (simp add: bt_next.simps)
    then show ?thesis using c(3,4) True by (simp add: settled_def in_flight_def bt_queue_def)
  next
    case False
    then have "0 < bt_rank s'" using assms(2) c(2)
      by (cases "bt_phase s") (auto simp: bt_next.simps bt_rank_def loop_again_def leave_loop_def drain_into_def split: if_splits)
    from settled_next [OF c(1,2) assms(2) this] c(3,4) show ?thesis by simp
  qed
  moreover have "case bt_phase s' of LastWrite _ \<Rightarrow> bt_queue s' = [] | Finished \<Rightarrow> bt_queue s' = [] | NoTask \<Rightarrow> bt_queue s' = [] | _ \<Rightarrow> True"
    using assms c(2)
    by (cases "bt_phase s") (auto simp: closing_with_def bt_next.simps loop_again_def leave_loop_def drain_into_def bt_queue_def split: if_splits)
  ultimately show ?thesis by (simp add: closing_with_def)
qed

lemma closing_with_run: "closing_with st d s \<Longrightarrow> batch_closing.run ws s = Some s' \<Longrightarrow> closing_with st d s'"
proof (induction ws arbitrary: s)
  case (Cons w ws)
  then obtain t where "bt_next w s = Some t" "batch_closing.run ws t = Some s'" by (auto split: option.splits)
  with Cons closing_with_next show ?case by blast
qed simp

text \<open>C19: shutting down loses nothing. From the moment \<open>aclose\<close> is called on a running batcher, its task ends after at most four
  steps whatever the event loop chooses, it can always take the next one, and when \<open>aclose\<close> returns (with no request left to enqueue)
  the queue is empty and the database is what it was with the batch being written and then the whole queue persisted.\<close>

theorem batcher_close_drains:
  assumes "batch_reachable st es s" "\<not> bt_stopping s" "bt_phase s \<noteq> NoTask"
  shows "(\<exists>ws s'. batch_closing.run ws (bt_aclose s) = Some s' \<and> bt_phase s' = NoTask)
    \<and> (\<forall>ws s'. batch_closing.run ws (bt_aclose s) = Some s' \<longrightarrow>
          length ws \<le> 4
          \<and> (bt_phase s' = NoTask \<longrightarrow> bt_store s' = settled s \<and> bt_queue s' = [] \<and> bat_dropped (bt_batcher s') = bat_dropped (bt_batcher s)))"
proof -
  have close: "bt_aclose s = s\<lparr>bt_stopping := True\<rparr>" using assms(3) by (simp add: bt_aclose_def)
  have c: "bt_closing (bt_aclose s)" by (simp add: close bt_closing_def)
  have ok: "batch_phase_ok s" by (rule batch_reachable_ok [OF assms(1)])
  have w: "closing_with (settled s) (bat_dropped (bt_batcher s)) (bt_aclose s)"
    using ok assms(2,3)
    by (cases "bt_phase s") (auto simp: close closing_with_def batch_phase_ok_def settled_def in_flight_def bt_queue_def)
  have r0: "bt_rank s' = 0 \<longleftrightarrow> bt_phase s' = NoTask" for s' by (simp add: bt_rank_def split: batch_phase.split)
  have r4: "bt_rank (bt_aclose s) \<le> 4" by (simp add: bt_rank_def split: batch_phase.split)
  show ?thesis
  proof (intro conjI allI impI)
    show "\<exists>ws s'. batch_closing.run ws (bt_aclose s) = Some s' \<and> bt_phase s' = NoTask"
      using batch_closing.closes [OF c] unfolding r0 .
  next
    fix ws s'
    assume r: "batch_closing.run ws (bt_aclose s) = Some s'"
    show "length ws \<le> 4" using batch_closing.run_bound [OF c r] r4 by linarith
    assume n: "bt_phase s' = NoTask"
    have cw: "closing_with (settled s) (bat_dropped (bt_batcher s)) s'" by (rule closing_with_run [OF w r])
    then show q: "bt_queue s' = []" and "bat_dropped (bt_batcher s') = bat_dropped (bt_batcher s)"
      using n by (simp_all add: closing_with_def)
    have "settled s' = bt_store s'" using n q by (simp add: settled_def in_flight_def persist_some_def)
    with cw show "bt_store s' = settled s" by (simp add: closing_with_def)
  qed
qed

theorem batcher_close_drains_witness:
  "\<exists>ws s'. batch_closing.run ws (bt_aclose busy_task) = Some s' \<and> bt_phase s' = NoTask \<and> bt_queue s' = []
     \<and> bt_store s' = persist [sample_row 1 ''rejected''] (persist [sample_row 0 ''accepted''] empty_store)"
proof -
  have "settled busy_task = persist [sample_row 1 ''rejected''] (persist [sample_row 0 ''accepted''] empty_store)"
    by (simp add: settled_def busy_task_state in_flight_def persist_some_def)
  then show ?thesis
    using batcher_close_drains [OF busy_task_reachable] by (fastforce simp: busy_task_state)
qed

section \<open>The retention job\<close>

text \<open>No task, created, sweeping with the clock read at the start of the sweep, waiting for the interval or the stop event,
  finished.\<close>

datatype sweep_phase = Idle | Fresh | Sweeping usec | Sleeping | Ended

record retention_task =
  rt_phase :: sweep_phase
  rt_stopping :: bool
  rt_console :: console

definition new_retention_task :: "console \<Rightarrow> retention_task" where
  "new_retention_task c = \<lparr>rt_phase = Idle, rt_stopping = False, rt_console = c\<rparr>"

definition rt_start :: "retention_task \<Rightarrow> retention_task" where
  "rt_start s = (if rt_phase s = Idle then s\<lparr>rt_stopping := False, rt_phase := Fresh\<rparr> else s)"

definition rt_aclose :: "retention_task \<Rightarrow> retention_task" where
  "rt_aclose s = (if rt_phase s = Idle then s else s\<lparr>rt_stopping := True\<rparr>)"

text \<open>A step: \<open>woken\<close> says whether it was the stop event that ended the wait (otherwise the interval passed), \<open>now\<close> is the clock.\<close>

fun rt_next :: "bool \<times> usec \<Rightarrow> retention_task \<Rightarrow> retention_task option" where
  "rt_next (woken, now) s =
     (case rt_phase s of
        Idle \<Rightarrow> None
      | Fresh \<Rightarrow> Some (s\<lparr>rt_phase := Sweeping now\<rparr>)
      | Sweeping t \<Rightarrow>
          Some (s\<lparr>rt_console := snd (run_once t (rt_console s)), rt_phase := (if rt_stopping s then Ended else Sleeping)\<rparr>)
      | Sleeping \<Rightarrow>
          if \<not> woken then Some (s\<lparr>rt_phase := Sweeping now\<rparr>)
          else if rt_stopping s then Some (s\<lparr>rt_phase := Ended\<rparr>) else None
      | Ended \<Rightarrow> if rt_stopping s then Some (s\<lparr>rt_phase := Idle\<rparr>) else None)"

declare rt_next.simps [simp del]

definition rt_rank :: "retention_task \<Rightarrow> nat" where
  "rt_rank s = (case rt_phase s of Idle \<Rightarrow> 0 | Ended \<Rightarrow> 1 | Sweeping _ \<Rightarrow> 2 | Fresh \<Rightarrow> 3 | Sleeping \<Rightarrow> 3)"

lemma rt_next_closing:
  assumes "rt_stopping s" "rt_next (w, now) s = Some s'"
  shows "rt_rank s' < rt_rank s \<and> rt_stopping s'"
  using assms by (cases "rt_phase s") (auto simp: rt_next.simps rt_rank_def split: if_splits)

interpretation retention_closing: closing_task rt_next rt_stopping rt_rank
proof unfold_locales
  fix s
  show "\<exists>x s'. rt_next x s = Some s'" if "rt_stopping s" "0 < rt_rank s"
    using that by (cases "rt_phase s"; intro exI [of _ "(True, 0)"]) (auto simp: rt_next.simps rt_rank_def)
  show "rt_rank s' < rt_rank s" "rt_stopping s'" if "rt_stopping s" "rt_next x s = Some s'" for x s'
    using that rt_next_closing by (cases x; blast)+
qed

text \<open>The sweeps a run of the task finishes.\<close>

fun sweeps_done :: "(bool \<times> usec) list \<Rightarrow> retention_task \<Rightarrow> usec list" where
  "sweeps_done [] s = []"
| "sweeps_done (x # xs) s =
     (case rt_next x s of
        None \<Rightarrow> []
      | Some s' \<Rightarrow> (case rt_phase s of Sweeping t \<Rightarrow> [t] | _ \<Rightarrow> []) @ sweeps_done xs s')"

text \<open>A run of the task is the run of the job over the times of its finished sweeps.\<close>

lemma retention_task_run:
  "retention_closing.run xs s = Some s' \<Longrightarrow> rt_console s' = retention_run (sweeps_done xs s) (rt_console s)"
proof (induction xs arbitrary: s)
  case (Cons x xs)
  obtain w now where x: "x = (w, now)" by (cases x)
  from Cons.prems obtain t where t: "rt_next x s = Some t" "retention_closing.run xs t = Some s'" by (auto split: option.splits)
  have "rt_console t = retention_run (case rt_phase s of Sweeping u \<Rightarrow> [u] | _ \<Rightarrow> []) (rt_console s)"
    using t(1) unfolding x by (cases "rt_phase s") (auto simp: rt_next.simps split: if_splits)
  moreover have "retention_run (us @ vs) c = retention_run vs (retention_run us c)" for us vs c
    by (induction us arbitrary: c) simp_all
  ultimately show ?case using Cons.IH [OF t(2)] t(1) by simp
qed simp

lemma sweeps_rank:
  "rt_stopping s \<Longrightarrow> retention_closing.run xs s = Some s' \<Longrightarrow>
     length (sweeps_done xs s) \<le> (case rt_phase s of Ended \<Rightarrow> 0 | Idle \<Rightarrow> 0 | _ \<Rightarrow> 1)"
proof (induction xs arbitrary: s)
  case (Cons x xs)
  obtain w now where x: "x = (w, now)" by (cases x)
  from Cons.prems obtain t where t: "rt_next x s = Some t" "retention_closing.run xs t = Some s'" by (auto split: option.splits)
  have st: "rt_stopping t" using rt_next_closing Cons.prems(1) t(1) x by blast
  from Cons.IH [OF st t(2)] t(1) Cons.prems(1) show ?case
    unfolding x by (cases "rt_phase s") (auto simp: rt_next.simps split: if_splits)
qed simp

text \<open>Closing the job: it ends within three steps, after one more sweep at most.\<close>

lemma retention_closes:
  assumes "rt_phase s \<noteq> Idle" "retention_closing.run xs (rt_aclose s) = Some s'"
  shows "length xs \<le> 3 \<and> length (sweeps_done xs (rt_aclose s)) \<le> 1"
proof -
  have c: "rt_stopping (rt_aclose s)" using assms(1) by (simp add: rt_aclose_def)
  have "rt_rank (rt_aclose s) \<le> 3" by (simp add: rt_rank_def split: sweep_phase.split)
  moreover have "(case rt_phase (rt_aclose s) of Ended \<Rightarrow> 0 | Idle \<Rightarrow> 0 | _ \<Rightarrow> 1) \<le> (1 :: nat)"
    by (simp split: sweep_phase.split)
  ultimately show ?thesis
    using retention_closing.run_bound [OF c assms(2)] sweeps_rank [OF c assms(2)] by linarith
qed

end
