(* ===== verification/StoreFile.thy ===== *)
theory StoreFile
  imports StoreUsers StoreEndpoints StoreEvents
begin

text \<open>
  The database file under the store: \<open>connect\<close>, \<open>apply_schema_if_needed\<close> and \<open>open_store\<close> (\<open>store/_base.py\<close>,
  \<open>store/store.py\<close>) on the list of names in \<open>sqlite_master\<close>, and the form of one row, the tuple of SQL values a method
  binds and the record \<open>_row_to_...\<close> makes of the tuple a query returns. The record tables of \<open>StoreModel\<close> are what
  these decoders make of the rows the statements write.
\<close>

section \<open>SQL values\<close>

datatype sql_value = SNull | SInt int | SText pystr | SBlob bytes

text \<open>\<open>_scalar\<close>: the first column of the first row, unless there is none or it is NULL.\<close>

definition scalar :: "sql_value list option \<Rightarrow> sql_value \<Rightarrow> sql_value" where
  "scalar row d = (case row of Some (v # _) \<Rightarrow> if v = SNull then d else v | _ \<Rightarrow> d)"

definition sql_bool :: "bool \<Rightarrow> sql_value" where
  "sql_bool b = SInt (if b then 1 else 0)"

text \<open>\<open>value or ""\<close> on a nullable text column.\<close>

definition or_empty :: "sql_value \<Rightarrow> pystr option" where
  "or_empty v = (case v of SNull \<Rightarrow> Some [] | SText s \<Rightarrow> Some s | _ \<Rightarrow> None)"

section \<open>Rows\<close>

text \<open>The parameters of the inserts, and the decoders. A decoder is \<open>None\<close> on a tuple that its query cannot return.\<close>

definition user_params :: "pystr \<Rightarrow> pystr \<Rightarrow> pystr \<Rightarrow> int \<Rightarrow> sql_value list" where
  "user_params email password_hash role created_at = [SText email, SText password_hash, SText role, SInt 1, SInt created_at]"

definition row_to_user :: "sql_value list \<Rightarrow> User option" where
  "row_to_user row =
     (case row of
        [SInt n, SText email, SText password_hash, SText role, SInt active, SInt created_at] \<Rightarrow>
          Some \<lparr>user_id = n, user_email = email, user_password_hash = password_hash, user_role = role,
                user_active = (active \<noteq> 0), user_created_at = created_at\<rparr>
      | _ \<Rightarrow> None)"

definition session_params :: "Session \<Rightarrow> sql_value list" where
  "session_params s =
     [SBlob (sess_token_hash s), SInt (sess_user_id s), SText (sess_csrf_token s), SInt (sess_created_at s),
      SInt (sess_last_seen_at s), SInt (sess_expires_at s), SText (sess_ip s), SText (sess_user_agent s)]"

definition row_to_session :: "sql_value list \<Rightarrow> Session option" where
  "row_to_session row =
     (case row of
        [SInt n, SBlob token_hash, SInt uid, SText csrf_token, SInt created_at, SInt last_seen_at, SInt expires_at, ip, user_agent] \<Rightarrow>
          (case (or_empty ip, or_empty user_agent) of
             (Some i, Some a) \<Rightarrow>
               Some \<lparr>sess_id = n, sess_token_hash = token_hash, sess_user_id = uid, sess_csrf_token = csrf_token,
                     sess_created_at = created_at, sess_last_seen_at = last_seen_at, sess_expires_at = expires_at,
                     sess_ip = i, sess_user_agent = a\<rparr>
           | _ \<Rightarrow> None)
      | _ \<Rightarrow> None)"

definition endpoint_params :: "Endpoint \<Rightarrow> sql_value list" where
  "endpoint_params e =
     [SText (end_path e), SText (end_provider e), SText (end_upstream_url e), SText (end_replay_window e),
      SText (end_secret_env e), SText (end_webhook_id e), sql_bool (end_active e), SInt (end_created_at e), SInt (end_updated_at e)]"

definition row_to_endpoint :: "sql_value list \<Rightarrow> Endpoint option" where
  "row_to_endpoint row =
     (case row of
        [SInt n, SText path, SText provider, SText upstream_url, SText replay_window, SText secret_env, SText webhook_id,
         SInt active, SInt created_at, SInt updated_at] \<Rightarrow>
          Some \<lparr>end_id = n, end_path = path, end_provider = provider, end_upstream_url = upstream_url,
                end_replay_window = replay_window, end_secret_env = secret_env, end_webhook_id = webhook_id,
                end_active = (active \<noteq> 0), end_created_at = created_at, end_updated_at = updated_at\<rparr>
      | _ \<Rightarrow> None)"

definition event_params :: "Event \<Rightarrow> sql_value list" where
  "event_params e =
     [SInt (evt_received_at e), SText (evt_path e), SText (evt_provider e), SText (evt_verdict e), SText (evt_reason e),
      SInt (evt_upstream_status e), SInt (evt_latency_ms e), SInt (evt_body_bytes e), SText (evt_body_sha256 e), SText (evt_remote_ip e)]"

definition row_to_event :: "sql_value list \<Rightarrow> Event option" where
  "row_to_event row =
     (case row of
        [SInt n, SInt received_at, SText path, SText provider, SText verdict, SText reason, SInt upstream_status,
         SInt latency_ms, SInt body_bytes, SText body_sha256, SText remote_ip] \<Rightarrow>
          Some \<lparr>evt_id = n, evt_received_at = received_at, evt_path = path, evt_provider = provider, evt_verdict = verdict,
                evt_reason = reason, evt_upstream_status = upstream_status, evt_latency_ms = latency_ms,
                evt_body_bytes = body_bytes, evt_body_sha256 = body_sha256, evt_remote_ip = remote_ip\<rparr>
      | _ \<Rightarrow> None)"

definition auth_event_params :: "AuthEvent \<Rightarrow> sql_value list" where
  "auth_event_params e =
     [SInt (aev_at e), (case aev_user_id e of None \<Rightarrow> SNull | Some n \<Rightarrow> SInt n), SText (aev_email e), SText (aev_kind e), SText (aev_ip e)]"

definition row_to_auth_event :: "sql_value list \<Rightarrow> AuthEvent option" where
  "row_to_auth_event row =
     (case row of
        [SInt n, SInt t, uid, SText email, SText kind, SText ip] \<Rightarrow>
          (case uid of
             SNull \<Rightarrow> Some \<lparr>aev_id = n, aev_at = t, aev_user_id = None, aev_email = email, aev_kind = kind, aev_ip = ip\<rparr>
           | SInt u \<Rightarrow> Some \<lparr>aev_id = n, aev_at = t, aev_user_id = Some u, aev_email = email, aev_kind = kind, aev_ip = ip\<rparr>
           | _ \<Rightarrow> None)
      | _ \<Rightarrow> None)"

text \<open>Reading back what was inserted gives the record with its new key, column for column.\<close>

lemma rows_round_trip:
  "row_to_user (SInt n # user_params email h role t) =
     Some \<lparr>user_id = n, user_email = email, user_password_hash = h, user_role = role, user_active = True, user_created_at = t\<rparr>"
  "row_to_session (SInt n # session_params s) = Some (s\<lparr>sess_id := n\<rparr>)"
  "row_to_endpoint (SInt n # endpoint_params e) = Some (e\<lparr>end_id := n\<rparr>)"
  "row_to_event (SInt n # event_params v) = Some (v\<lparr>evt_id := n\<rparr>)"
  "row_to_auth_event (SInt n # auth_event_params a) = Some (a\<lparr>aev_id := n\<rparr>)"
  by (simp_all add: row_to_user_def user_params_def row_to_session_def session_params_def or_empty_def row_to_endpoint_def
      endpoint_params_def sql_bool_def row_to_event_def event_params_def row_to_auth_event_def auth_event_params_def
      split: option.split)

section \<open>Inserts on tuples\<close>

text \<open>A table as SQLite holds it: a list of tuples. An insert binds the parameters after a new key; the record table is its decoding.\<close>

definition sql_insert :: "sql_value list \<Rightarrow> sql_value list list \<Rightarrow> sql_value list list" where
  "sql_insert params t =
     t @ [SInt (foldr (\<lambda>row m. case row of SInt k # _ \<Rightarrow> max k m | _ \<Rightarrow> m) t 0 + 1) # params]"

definition decodes :: "(sql_value list \<Rightarrow> 'r option) \<Rightarrow> sql_value list list \<Rightarrow> 'r list \<Rightarrow> bool" where
  "decodes f t rs \<longleftrightarrow> map f t = map Some rs"

text \<open>What a table's decoder has to do for its inserts to implement \<open>append_row\<close>.\<close>

locale row_codec =
  fixes decode_row :: "sql_value list \<Rightarrow> 'r option" and params :: "'r \<Rightarrow> sql_value list"
    and key :: "'r \<Rightarrow> int" and with_key :: "int \<Rightarrow> 'r \<Rightarrow> 'r"
  assumes round_trip: "decode_row (SInt n # params r) = Some (with_key n r)"
    and keyed_first: "decode_row row = Some r \<Longrightarrow> \<exists>rest. row = SInt (key r) # rest"
begin

lemma insert_refines: "decodes decode_row t rs \<Longrightarrow> decodes decode_row (sql_insert (params r) t) (append_row key with_key r rs)"
proof -
  assume d: "decodes decode_row t rs"
  have "foldr (\<lambda>row m. case row of SInt k # _ \<Rightarrow> max k m | _ \<Rightarrow> m) t 0 = foldr (\<lambda>r m. max (key r) m) rs 0"
    using d
  proof (induction t arbitrary: rs)
    case Nil
    then show ?case by (simp add: decodes_def)
  next
    case (Cons row t)
    then obtain r' rs' where r: "rs = r' # rs'" "decode_row row = Some r'" "decodes decode_row t rs'"
      by (cases rs) (auto simp: decodes_def)
    from keyed_first [OF r(2)] Cons.IH [OF r(3)] show ?case by (auto simp: r(1))
  qed
  then show ?thesis using d by (simp add: decodes_def sql_insert_def append_row_def next_id_def round_trip)
qed

end

lemma decoders_keyed:
  "row_to_session row = Some r \<Longrightarrow> \<exists>rest. row = SInt (sess_id r) # rest"
  "row_to_endpoint row = Some e \<Longrightarrow> \<exists>rest. row = SInt (end_id e) # rest"
  "row_to_event row = Some v \<Longrightarrow> \<exists>rest. row = SInt (evt_id v) # rest"
  "row_to_auth_event row = Some a \<Longrightarrow> \<exists>rest. row = SInt (aev_id a) # rest"
  by (auto simp: row_to_session_def row_to_endpoint_def row_to_event_def row_to_auth_event_def
      split: list.split_asm sql_value.split_asm option.split_asm)

interpretation session_rows: row_codec row_to_session session_params sess_id "\<lambda>n (r :: Session). r\<lparr>sess_id := n\<rparr>"
  by unfold_locales (rule rows_round_trip(2), rule decoders_keyed(1))

interpretation endpoint_rows: row_codec row_to_endpoint endpoint_params end_id "\<lambda>n (r :: Endpoint). r\<lparr>end_id := n\<rparr>"
  by unfold_locales (rule rows_round_trip(3), rule decoders_keyed(2))

interpretation event_rows: row_codec row_to_event event_params evt_id "\<lambda>n (r :: Event). r\<lparr>evt_id := n\<rparr>"
  by unfold_locales (rule rows_round_trip(4), rule decoders_keyed(3))

interpretation auth_event_rows: row_codec row_to_auth_event auth_event_params aev_id "\<lambda>n (r :: AuthEvent). r\<lparr>aev_id := n\<rparr>"
  by unfold_locales (rule rows_round_trip(5), rule decoders_keyed(4))

section \<open>The file\<close>

text \<open>The names \<open>sqlite_master\<close> lists, in the order the script creates them, tables and indexes; the rows are those of the
  tables there are. \<open>connect\<close> creates the file without any table.\<close>

record db_file =
  db_names :: "pystr list"
  db_rows :: store

definition connect :: "db_file option \<Rightarrow> db_file" where
  "connect file = (case file of None \<Rightarrow> \<lparr>db_names = [], db_rows = empty_store\<rparr> | Some f \<Rightarrow> f)"

definition SCHEMA_SCRIPT :: "pystr list" where
  "SCHEMA_SCRIPT =
     [''users'', ''sessions'', ''sessions_user'', ''endpoints'', ''events'', ''events_time'', ''events_verdict'', ''events_provider'',
      ''event_rollups'', ''auth_events'', ''settings'']"

text \<open>\<open>executescript\<close>: statement by statement, each committed on its own.\<close>

fun executescript :: "pystr list \<Rightarrow> pystr list \<Rightarrow> unit py \<times> pystr list" where
  "executescript [] t = (Inr (), t)"
| "executescript (s # ss) t =
     (if s \<in> set t then (Inl (OtherErr (s @ '' already exists'')), t) else executescript ss (t @ [s]))"

definition apply_schema_if_needed :: "db_file \<Rightarrow> bool py \<times> db_file" where
  "apply_schema_if_needed f =
     (if ''users'' \<in> set (db_names f) then (Inr False, f)
      else case executescript SCHEMA_SCRIPT (db_names f) of (r, names) \<Rightarrow> (py_bind r (\<lambda>_. Inr True), f\<lparr>db_names := names\<rparr>))"

definition open_store :: "db_file option \<Rightarrow> store py \<times> db_file" where
  "open_store file =
     (case apply_schema_if_needed (connect file) of (r, f) \<Rightarrow> (py_bind r (\<lambda>_. Inr (db_rows f)), f))"

lemma executescript_fresh:
  "distinct (t @ ss) \<Longrightarrow> executescript ss t = (Inr (), t @ ss)"
  by (induction ss arbitrary: t) auto

text \<open>The first run creates every table, empty; every later one finds the database as it was left.\<close>

lemma open_store_first: "open_store None = (Inr empty_store, \<lparr>db_names = SCHEMA_SCRIPT, db_rows = empty_store\<rparr>)"
  using executescript_fresh [of "[]" SCHEMA_SCRIPT]
  by (simp add: open_store_def connect_def apply_schema_if_needed_def SCHEMA_SCRIPT_def)

lemma open_store_again: "set SCHEMA_SCRIPT \<subseteq> set (db_names f) \<Longrightarrow> open_store (Some f) = (Inr (db_rows f), f)"
  by (simp add: open_store_def connect_def apply_schema_if_needed_def SCHEMA_SCRIPT_def)

text \<open>A first run that is interrupted after some statements of the script leaves a database that no later run completes: the
  table that marks the schema as applied is the first one created.\<close>

lemma interrupted_schema_never_completed:
  assumes "0 < n" "n < length SCHEMA_SCRIPT"
  defines "f \<equiv> \<lparr>db_names = take n SCHEMA_SCRIPT, db_rows = empty_store\<rparr>"
  shows "open_store (Some f) = (Inr empty_store, f)" "''settings'' \<notin> set (db_names f)"
proof -
  have "take n SCHEMA_SCRIPT = ''users'' # take (n - 1) (tl SCHEMA_SCRIPT)"
    using assms(1) by (cases n) (simp_all add: SCHEMA_SCRIPT_def)
  then show "open_store (Some f) = (Inr empty_store, f)"
    by (simp add: open_store_def connect_def apply_schema_if_needed_def f_def)
  have d: "distinct SCHEMA_SCRIPT" by (simp add: SCHEMA_SCRIPT_def)
  have "last SCHEMA_SCRIPT \<notin> set (take n SCHEMA_SCRIPT)"
  proof
    assume "last SCHEMA_SCRIPT \<in> set (take n SCHEMA_SCRIPT)"
    then obtain i where "i < n" "SCHEMA_SCRIPT ! i = last SCHEMA_SCRIPT" using assms(2) by (auto simp: in_set_conv_nth)
    moreover have "last SCHEMA_SCRIPT = SCHEMA_SCRIPT ! (length SCHEMA_SCRIPT - 1)" by (rule last_conv_nth) (simp add: SCHEMA_SCRIPT_def)
    ultimately have "i = length SCHEMA_SCRIPT - 1" using d assms(2) by (simp add: nth_eq_iff_index_eq)
    with \<open>i < n\<close> assms(2) show False by simp
  qed
  then show "''settings'' \<notin> set (db_names f)" by (simp add: f_def SCHEMA_SCRIPT_def)
qed

end
