(* ===== verification/Commands.thy ===== *)
theory Commands
  imports ConsoleApp StoreFile
begin

text \<open>
  The two command lines, \<open>hookguard_gateway/__main__.py\<close> and \<open>hookguard_console/__main__.py\<close>, from the parsed
  arguments on: what the server is started with, and the two operator commands on the database file. The disk is a map from paths to
  database files; reading the route file gives its text, or the text of the \<open>OSError\<close>.
\<close>

section \<open>Serving\<close>

record serving =
  srv_target :: pystr
  srv_host :: pystr
  srv_port :: int
  srv_graceful_shutdown :: int
  srv_keep_alive :: "int option"

definition SHUTDOWN_TIMEOUT :: int where
  "SHUTDOWN_TIMEOUT = 15"

definition KEEP_ALIVE_TIMEOUT :: int where
  "KEEP_ALIVE_TIMEOUT = 5"

definition LISTEN_HOST :: pystr where
  "LISTEN_HOST = ''0.0.0.0''"

definition LISTEN_PORT :: int where
  "LISTEN_PORT = 9000"

definition UPSTREAM_PORT :: int where
  "UPSTREAM_PORT = 8080"

text \<open>The names \<open>logging\<close> knows a level by. Upper-casing is that of the ASCII letters: no level has another.\<close>

definition LOG_LEVELS :: "pystr list" where
  "LOG_LEVELS = [''CRITICAL'', ''FATAL'', ''ERROR'', ''WARN'', ''WARNING'', ''INFO'', ''DEBUG'', ''NOTSET'']"

definition upper_ascii :: "pystr \<Rightarrow> pystr" where
  "upper_ascii = map (\<lambda>c. if in_range 97 122 c then char_of (of_char c - (32 :: nat)) else c)"

record gateway_args =
  ga_upstream :: bool
  ga_host :: "pystr option"
  ga_port :: "int option"

definition gateway_main :: "environ \<Rightarrow> gateway_args \<Rightarrow> serving py" where
  "gateway_main env args =
     (let host = (case ga_host args of Some h \<Rightarrow> h | None \<Rightarrow> getenv_or env ''HOST'' LISTEN_HOST);
          level = upper_ascii (getenv_or env ''LOG_LEVEL'' ''INFO'');
          target = (if ga_upstream args then ''hookguard_gateway.upstream:create_app'' else ''hookguard_gateway.app:create_app'');
          fallback = (if ga_upstream args then UPSTREAM_PORT else LISTEN_PORT) in
      if level \<notin> set LOG_LEVELS then Inl (ValueErr (''Unknown level: '' @ py_repr level))
      else py_bind (case ga_port args of
                      Some p \<Rightarrow> if p \<noteq> 0 then Inr p else py_int (getenv_or env ''PORT'' (show_int fallback))
                    | None \<Rightarrow> py_int (getenv_or env ''PORT'' (show_int fallback)))
             (\<lambda>port. Inr \<lparr>srv_target = target, srv_host = host, srv_port = port, srv_graceful_shutdown = SHUTDOWN_TIMEOUT,
                          srv_keep_alive = Some KEEP_ALIVE_TIMEOUT\<rparr>))"

definition console_serve :: "ConsoleConfig \<Rightarrow> serving" where
  "console_serve config =
     \<lparr>srv_target = ''hookguard_console.app:create_app'', srv_host = cfg_host config, srv_port = cfg_port config,
      srv_graceful_shutdown = SHUTDOWN_TIMEOUT, srv_keep_alive = None\<rparr>"

section \<open>The operator commands\<close>

type_synonym disk = "pystr \<rightharpoonup> db_file"

text \<open>\<open>data_dir / "console.db"\<close>.\<close>

definition database_path :: "ConsoleConfig \<Rightarrow> pystr" where
  "database_path config =
     (if cfg_data_dir config = ''.'' then ''console.db''
      else if endswith (cfg_data_dir config) ''/'' then cfg_data_dir config @ ''console.db''
      else cfg_data_dir config @ ''/console.db'')"

text \<open>A command that works on the open store.\<close>

definition with_store :: "pystr \<Rightarrow> (store \<Rightarrow> 'r py \<times> store) \<Rightarrow> disk \<Rightarrow> 'r py \<times> disk" where
  "with_store path f disk =
     (case open_store (disk path) of
        (Inl e, file) \<Rightarrow> (Inl e, disk(path \<mapsto> file))
      | (Inr st, file) \<Rightarrow> (case f st of (r, st') \<Rightarrow> (r, disk(path \<mapsto> file\<lparr>db_rows := st'\<rparr>))))"

datatype command = Serve | ResetPassword pystr | SeedConfig pystr

datatype command_result = Serving serving | ResetLink pystr int | RoutesAdded "pystr list"

definition console_main ::
  "environ \<Rightarrow> (pystr \<Rightarrow> pystr + pystr) \<Rightarrow> (pystr \<Rightarrow> Config py) \<Rightarrow> fresh \<Rightarrow> usec \<Rightarrow> command \<Rightarrow> disk \<Rightarrow> command_result py \<times> disk" where
  "console_main env read_text load fr now cmd disk =
     (case from_env env of
        Inl e \<Rightarrow> (Inl e, disk)
      | Inr config \<Rightarrow>
          (case cmd of
             Serve \<Rightarrow> (Inr (Serving (console_serve config)), disk)
           | ResetPassword email \<Rightarrow>
               with_store (database_path config) (\<lambda>st.
                 case cli_reset_password fr now email st of
                   (r, st') \<Rightarrow> (py_bind r (\<lambda>(token, uid). Inr (ResetLink token uid)), st')) disk
           | SeedConfig path \<Rightarrow>
               (case read_text (path_str path) of
                  Inl x \<Rightarrow> (Inl (SystemExitErr (''read '' @ path_str path @ '': '' @ x)), disk)
                | Inr text_read \<Rightarrow>
                    (case import_config load text_read of
                       Inl (ConfigValidationErr m) \<Rightarrow> (Inl (SystemExitErr (''parse '' @ path_str path @ '': '' @ m)), disk)
                     | Inl x \<Rightarrow> (Inl x, disk)
                     | Inr es \<Rightarrow>
                         with_store (database_path config) (\<lambda>st.
                           case seed_routes (millis now) es st of
                             (r, st') \<Rightarrow> (py_bind r (\<lambda>paths. Inr (RoutesAdded paths)), st')) disk))))"

section \<open>Facts\<close>

text \<open>The ports served by default, and a port 0 on the command line, which is taken as no port.\<close>

lemma gateway_defaults:
  "gateway_main Map.empty \<lparr>ga_upstream = False, ga_host = None, ga_port = None\<rparr> =
     Inr \<lparr>srv_target = ''hookguard_gateway.app:create_app'', srv_host = ''0.0.0.0'', srv_port = 9000, srv_graceful_shutdown = 15,
          srv_keep_alive = Some 5\<rparr>"
  "gateway_main env \<lparr>ga_upstream = u, ga_host = h, ga_port = Some 0\<rparr> = gateway_main env \<lparr>ga_upstream = u, ga_host = h, ga_port = None\<rparr>"
proof -
  have "py_int (show_int 9000) = Inr 9000" by (intro py_int_show_int) (simp add: max_str_digits_def show_int_def show_nat.simps)
  moreover have "upper_ascii ''INFO'' = ''INFO''" by code_simp
  ultimately show "gateway_main Map.empty \<lparr>ga_upstream = False, ga_host = None, ga_port = None\<rparr> =
     Inr \<lparr>srv_target = ''hookguard_gateway.app:create_app'', srv_host = ''0.0.0.0'', srv_port = 9000, srv_graceful_shutdown = 15,
          srv_keep_alive = Some 5\<rparr>"
    by (simp add: gateway_main_def getenv_or_def LISTEN_HOST_def LISTEN_PORT_def LOG_LEVELS_def SHUTDOWN_TIMEOUT_def KEEP_ALIVE_TIMEOUT_def)
qed (simp add: gateway_main_def Let_def)

text \<open>The part of \<open>console_main\<close> after the file was read is \<open>seed_config\<close>.\<close>

lemma seed_config_routes:
  "import_config load text_read = Inr es \<Longrightarrow> seed_config load now path (Inr text_read) st = seed_routes (millis now) es st"
  by (simp add: seed_config_def)

lemma with_store_complete:
  assumes "disk path = Some f" "set SCHEMA_SCRIPT \<subseteq> set (db_names f)" "g (db_rows f) = (r, st')"
  shows "with_store path g disk = (r, disk(path \<mapsto> f\<lparr>db_rows := st'\<rparr>))"
  using assms(3) open_store_again [OF assms(2)] by (simp add: with_store_def assms(1))

text \<open>C33: seeding adds what is missing and nothing else. On a complete database whose routes are valid, the command run on a file
  with a valid table succeeds; the next start finds the paths that were there and those of the file, every route that was there
  unchanged, and every route valid; what it reports as added are exactly the file's paths that were missing, each once; no other
  file changes.\<close>

theorem seed_command_exact:
  assumes "from_env env = Inr config" "disk (database_path config) = Some f" "set SCHEMA_SCRIPT \<subseteq> set (db_names f)"
    "endpoints_valid (db_rows f)" "read_text (path_str path) = Inr text_read" "load text_read = Inr table"
    "list_all (\<lambda>r. validate r = Inr ()) (routes table)"
  shows "case console_main env read_text load fr now (SeedConfig path) disk of
      (r, disk') \<Rightarrow>
        (\<exists>paths st'. r = Inr (RoutesAdded paths) \<and> distinct paths
           \<and> set paths = route_path ` set (routes table) - end_path ` set (endpoints (db_rows f))
           \<and> fst (open_store (disk' (database_path config))) = Inr st'
           \<and> endpoints_valid st' \<and> set (endpoints (db_rows f)) \<subseteq> set (endpoints st')
           \<and> end_path ` set (endpoints st') = end_path ` set (endpoints (db_rows f)) \<union> route_path ` set (routes table))
        \<and> (\<forall>p. if p = database_path config then True else disk' p = disk p)"
proof -
  let ?es = "map to_endpoint (routes table)" and ?path = "database_path config"
  have i: "import_config load text_read = Inr ?es" using assms(6,7) import_routes_iff by (simp add: import_config_def)
  have p: "end_path ` set ?es = route_path ` set (routes table)" by (auto simp: to_endpoint_def image_image)
  have v: "list_all (\<lambda>e. validate (from_endpoint e) = Inr ()) ?es" using assms(7) by (simp add: list_all_iff)
  obtain r st' where s: "seed_routes (millis now) ?es (db_rows f) = (r, st')" by fastforce
  note spec = seed_routes_spec [OF assms(4) v s, unfolded p]
  then obtain paths where r: "r = Inr paths" "distinct paths" "set paths = route_path ` set (routes table) - end_path ` set (endpoints (db_rows f))"
    by blast
  have "with_store ?path (\<lambda>st. case seed_routes (millis now) ?es st of (r, st') \<Rightarrow> (py_bind r (\<lambda>paths. Inr (RoutesAdded paths)), st')) disk
      = (Inr (RoutesAdded paths), disk(?path \<mapsto> f\<lparr>db_rows := st'\<rparr>))"
    by (rule with_store_complete [where f = f]) (simp_all add: assms(2,3) s r(1))
  then have "console_main env read_text load fr now (SeedConfig path) disk
      = (Inr (RoutesAdded paths), disk(?path \<mapsto> f\<lparr>db_rows := st'\<rparr>))"
    using assms(1,5) i by (simp add: console_main_def)
  moreover have "open_store (Some (f\<lparr>db_rows := st'\<rparr>)) = (Inr st', f\<lparr>db_rows := st'\<rparr>)"
    using open_store_again [of "f\<lparr>db_rows := st'\<rparr>"] assms(3) by simp
  ultimately show ?thesis using spec r by simp
qed

text \<open>A fresh disk on which the console was started once.\<close>

definition demo_disk :: disk where
  "demo_disk = [''console.db'' \<mapsto> \<lparr>db_names = SCHEMA_SCRIPT, db_rows = empty_store\<rparr>]"

theorem seed_command_exact_witness:
  "\<exists>paths. fst (console_main Map.empty (\<lambda>_. Inr (marshal (export_config [demo_row]))) demo_load
      \<lparr>fresh_token_bytes = [], fresh_csrf_bytes = [], fresh_salt = []\<rparr> 0 (SeedConfig ''f'') demo_disk)
   = Inr (RoutesAdded paths) \<and> set paths = {''/hook''}"
proof -
  let ?f = "\<lparr>db_names = SCHEMA_SCRIPT, db_rows = empty_store\<rparr>" and ?t = "marshal (export_config [demo_row])"
  have c: "from_env Map.empty = Inr default_config"
    by (simp add: from_env_def env_or_def default_config_def path_str_def)
  have d: "demo_disk (database_path default_config) = Some ?f"
    by (simp add: demo_disk_def database_path_def default_config_def)
  have v: "endpoints_valid (db_rows ?f)" by (simp add: endpoints_valid_def endpoints_ok_empty) (simp add: empty_store_def)
  have l: "demo_load ?t = Inr (export_config [demo_row])" by (simp add: demo_load_def)
  have r: "list_all (\<lambda>r. validate r = Inr ()) (routes (export_config [demo_row]))"
    by (simp add: export_config_def validate_iff demo_row_def from_endpoint_def to_endpoint_def demo_route_def)
  have p: "route_path ` set (routes (export_config [demo_row])) = {''/hook''}"
    by (simp add: export_config_def demo_row_def from_endpoint_def to_endpoint_def demo_route_def)
  have e: "endpoints (db_rows ?f) = []" by (simp add: empty_store_def)
  have n: "set SCHEMA_SCRIPT \<subseteq> set (db_names ?f)" by simp
  obtain r' disk' where m: "console_main Map.empty (\<lambda>_. Inr ?t) demo_load \<lparr>fresh_token_bytes = [], fresh_csrf_bytes = [], fresh_salt = []\<rparr> 0
      (SeedConfig ''f'') demo_disk = (r', disk')" by fastforce
  from seed_command_exact [where read_text = "\<lambda>_. Inr ?t" and path = "''f''" and disk = demo_disk and load = demo_load
      and text_read = ?t and table = "export_config [demo_row]" and f = ?f and now = 0
      and fr = "\<lparr>fresh_token_bytes = [], fresh_csrf_bytes = [], fresh_salt = []\<rparr>", OF c d n v refl l r]
  obtain paths where "r' = Inr (RoutesAdded paths)" "set paths = {''/hook''}" unfolding m prod.case p e by auto
  then show ?thesis by (simp add: m)
qed

end
