(* ===== verification/GoGrammar.thy ===== *)
theory GoGrammar
  imports GoDuration Complex_Main
begin

text \<open>
  The contract of \<open>hookguard_core/goduration.py\<close>: the grammar and the values of Go's \<open>time.ParseDuration\<close>, stated without the
  tables and helpers of the parser, and the parser's agreement with it. The texts compared are those with no character from U+0660 on
  (the first decimal digit outside ASCII) and no more characters than CPython converts to an integer.
\<close>

section \<open>The grammar\<close>












section \<open>The parser and the grammar\<close>
















end
