(* ===== verification/Spec2Isabelle.thy ===== *)
theory Spec2Isabelle
  imports Deployment RouteTable BackgroundTasks Commands GoGrammar
begin

text \<open>
  HookGuard receives webhooks, checks that they come from the provider they claim to come from, and
  passes the genuine ones on. Three Python packages under \<open>src/src/\<close> make it up:

  \<^item> \<open>hookguard_core\<close>: what both services share. Strict hex, the gateway's own signature, the wire form
    of a verdict, Go's duration syntax.
  \<^item> \<open>hookguard_gateway\<close>: an HTTP handler per configured route. It reads a bounded body, runs the verifier of
    the route's provider, signs a verified body with its own key and forwards it upstream, and hands a verdict
    event to an emitter that posts it to the Console in the background.
  \<^item> \<open>hookguard_console\<close>: the web application. It ingests the events into SQLite through a batcher, shows them,
    keeps the table of routes that the gateway's configuration is exported from, and manages accounts.

  The two services meet in two places, and this theory states one property for each, besides one on the
  setup guides: the configuration the Console exports is what the gateway starts from
  (\<open>export_starts_gateway\<close>), and the event the gateway posts is what the Console queues (\<open>event_reaches_console\<close>).

  \<^bold>\<open>Shared theories.\<close> \<open>Prelude\<close>: bytes (\<open>8 word list\<close>), Python's exceptions as the datatype \<open>pyexn\<close>, the result
  type \<open>'a py = pyexn + 'a\<close> with its sequencing, JSON values, and the locales \<open>codec\<close> and \<open>tag_scheme\<close> (what a
  decoder and a MAC built on it owe their callers). \<open>PyText\<close>: the string methods, percent quoting, UTF-8 and the
  decimal readers. \<open>FloatTime\<close>: binary64 rounding and timestamps. \<open>StdCrypto\<close>: SHA-256, HMAC and Base64, executable,
  with FIPS and RFC test vectors. \<open>JsonRead\<close> and \<open>IsoTime\<close>: \<open>json.loads\<close> and \<open>datetime.fromisoformat\<close>, on the documents and
  formats listed there. \<open>DropOldest\<close>: the bounded queue that both the emitter and the batcher put in
  front of their tasks, as a locale. \<open>RowTable\<close>: tables with an integer primary key and key/value tables, as
  locales over an abstract row type.

  \<^bold>\<open>Core.\<close> \<open>StrictHex\<close> (\<open>stricthex.py\<close>), \<open>GatewaySig\<close> (\<open>gatewaysig.py\<close>), \<open>CoreEvents\<close> (\<open>events.py\<close>), \<open>GoDuration\<close>
  (\<open>goduration.py\<close>: the scanner as the regular expression drives it) and \<open>GoGrammar\<close> (Go's grammar of durations, written
  down without the code's digit class and unit table, with which the scanner is shown to agree, nanosecond for nanosecond, overflow
  included, on texts below U+0660 of at most 4300 characters; the code's two departures from it are stated there). \<open>WireFormat\<close> reads back what
  the program writes as JSON (events, the exported table with \<open>config.load_config\<close>, the frames of the log stream).

  \<^bold>\<open>Gateway.\<close> \<open>GatewayRoute\<close> (\<open>config.py\<close>, and headers as a map that ignores case), \<open>ProviderHmac\<close> (\<open>github.py\<close>,
  \<open>shopify.py\<close>), \<open>ProviderStripe\<close>, \<open>ProviderPaypal\<close> (host pin, certificate cache with its expiry, signed message),
  \<open>VerifierRegistry\<close> (\<open>verifier.py\<close>: the registry as an association list filled by the provider modules),
  \<open>Emitter\<close> (\<open>emitter.py\<close>: the queue and the delivery task as a step relation \<open>emitter_step\<close>, with stop, sentinel and
  deadline), \<open>GatewayApp\<close> (\<open>app.py\<close>, \<open>upstream.py\<close>: the capped body, the handler of one request, and the start).

  \<^bold>\<open>Console, data.\<close> \<open>StoreModel\<close> (\<open>store/models.py\<close>, the schema), \<open>StoreUsers\<close>, \<open>StoreEndpoints\<close>, \<open>StoreEvents\<close>: the
  record \<open>store\<close> holds one list of rows per table, in rowid order; every method of the store is a function on it
  and every constraint of the schema is a branch that returns \<open>IntegrityErr\<close>. \<open>StoreFile\<close> has the database file below it: opening, the
  schema script, and the tuples that the statements bind and the decoders read. \<open>Batcher\<close>, \<open>Ingest\<close>, \<open>Retention\<close>,
  \<open>GwConfig\<close> (\<open>gwconfig.py\<close>: import, export and validation). \<open>BackgroundTasks\<close>: the batcher's and the retention job's
  coroutines, one step per await, which refine the coarser machines of \<open>Batcher\<close> and \<open>Retention\<close>; the locale
  \<open>closing_task\<close> is what \<open>aclose\<close> needs of a task to return.

  \<^bold>\<open>Console, requests.\<close> \<open>AuthPrim\<close> (\<open>auth/\<close>), \<open>RateLimit\<close>, \<open>SessionMiddleware\<close> (\<open>middleware.py\<close>), \<open>Views\<close>, \<open>OverviewChart\<close>;
  \<open>Console\<close> holds the request, the responses and the record \<open>console\<close> (the database, the batcher, the
  limiters and the configuration, as in \<open>deps.py\<close>). \<open>AuthRoutes\<close>, \<open>SettingsRoutes\<close>, \<open>EndpointRoutes\<close>, \<open>LogRoutes\<close>,
  \<open>DashboardRoutes\<close> and \<open>Ingest\<close> hold one function per handler, from the request and the console to the response
  (or the exception) and the console after it. \<open>ConsoleApp\<close> (\<open>app.py\<close>, \<open>config.py\<close>) has the table of routes, the
  dispatcher \<open>call\<close>, the middleware stack \<open>serve\<close> and the startup. \<open>Commands\<close> (both \<open>__main__.py\<close>): what the servers are started with and
  the operator's two commands, from the parsed arguments on, over a disk of database files.

  \<^bold>\<open>The Console as a system.\<close> \<open>ConsoleSystem\<close>: \<open>console_step\<close> interleaves the arrival of a request (its session is
  loaded), its answer (its handler runs) and the jobs: the batcher's tick, the sweep, a restart, the two commands of
  the operator. Any number of requests may be between arrival and answer. \<open>serial_step\<close> is the special case of one
  request at a time. Each invariant is an interpretation of \<open>console_invariant\<close> or \<open>serial_invariant\<close>: its proof is
  the obligation that every handler and every job keeps it. \<open>ConsoleProps\<close> draws the consequences;
  \<open>RouteTable\<close> gives the table of routes an abstract specification, a map from ids with the operations add, edit, toggle and
  remove, and shows that every request changes it by exactly the operation it stands for.

  \<^bold>\<open>Both services together.\<close> \<open>Deployment\<close>: \<open>deploy_step\<close> interleaves a gateway (its handler, its delivery task, restarts), a wire
  between the services that loses and delays, and a Console with everything it does; \<open>rows_are_verdicts\<close> follows a verdict from the
  gateway's verifier to a row of the Console's table.

  \<^bold>\<open>What the lemmas show.\<close> (1) Nothing is forwarded unless its verifier accepted the exact bytes, and an upstream
  with the key accepts what is forwarded. Each verifier is characterised: it accepts if and only if the
  documented condition holds, with the error of every other branch. (2) No page or write is reachable without the session of an active
  user, no write without the CSRF token, apart from the handlers listed in the statement. (3) Each handler is characterised on
  every branch. (4) Accounts, sessions, routes, events and queues stay well formed in every reachable state,
  and an active administrator remains when requests are served one at a time. (5) The queues lose only the oldest
  entries, in order, and count them; shutdown ends. (6) Encoders and decoders are inverse to each other.
  (7) Where the code does something else than it says, a lemma shows it on a concrete input.

  \<^bold>\<open>Bounds and fuel.\<close> No definition runs out of fuel: loops are structural recursion on the input, \<open>fun\<close> with a
  measure, or steps of a relation. Integers of Python are \<open>int\<close>; the words of SHA-256 are \<open>32 word\<close>; the
  range of Go's \<open>int64\<close> is a check of the code. Binary64 values are the rationals they denote, rounded as the code's operations
  round them; infinities and NaN are the branches where the code would meet them. The limit of 4300 digits of
  \<open>int()\<close> is modelled.

  \<^bold>\<open>Scope of strings.\<close> A Python string is a list of characters below 256 (what a header, a URL and a
  form of latin-1 text consist of), except in \<open>GoDuration\<close>, which ranges over all of Unicode because the regular
  expression's digit class does.

  \<^bold>\<open>Parameters.\<close> Code that is not in the repository is an argument: argon2 (the record \<open>argon\<close>), X.509 and RSA (\<open>lib\<close>), the HTTP client,
  pydantic's \<open>model_validate\<close>, the clock, the Jinja2 engine and the random bytes of tokens and salts. The JSON and date readers are arguments of the handlers
  (\<open>env_loads\<close>, \<open>env_parse_ts\<close>) because \<open>JsonRead\<close> and \<open>IsoTime\<close> leave open what they do on some input (\<open>Beyond\<close>): a property about
  what they read takes any reader that agrees with these definitions. A property that needs anything of a parameter has it as
  a hypothesis.

  \<^bold>\<open>Not modelled.\<close> The templates, style sheets and scripts (a page is the record of what the handler passes to its
  template); the parsing of command lines (\<open>argparse\<close>) and what uvicorn, Starlette and FastAPI do with sockets and raw requests; the pragmas of
  SQLite; logging and printing; \<open>__init__.py\<close> files, which only re-export.
\<close>

section \<open>From the Console to the gateway\<close>

lemma valid_route_usable:
  assumes "validate (from_endpoint e) = Inr ()"
  shows "route_usable (from_endpoint e) s \<longleftrightarrow> end_provider e = ''paypal'' \<or> s \<noteq> []"
proof -
  have "route_provider (from_endpoint e) = end_provider e" by (simp add: from_endpoint_def)
  with assms show ?thesis
    using validate_usable [of "from_endpoint e"] usable_any_secret [of s "from_endpoint e"] by (auto simp: route_usable_def)
qed

text \<open>C15: what the Console exports, the gateway can run. In any state a console reaches, a gateway started on the
  exported text of the active routes starts exactly when its own secret and every environment variable named by
  an HMAC route are set; it then has one verifier per active route, in the order of the export, and otherwise
  it exits.\<close>

theorem export_starts_gateway:
  assumes "console_reachable (c, pending)" "json_text_reader loads" "config_schema model_validate"
    "file_text (config_path env) = marshal (export_config (list_active_endpoints (con_store c)))"
  shows "case create_app (\<lambda>path. load_config loads model_validate (file_text path)) env of
        Inl x \<Rightarrow> (\<exists>m. x = SystemExitErr m)
          \<and> (getenv_or env ''INTERNAL_SECRET'' [] = []
             \<or> list_ex (\<lambda>e. end_provider e \<noteq> ''paypal'' \<and> getenv_or env (end_secret_env e) [] = []) (list_active_endpoints (con_store c)))
      | Inr app \<Rightarrow> map fst (app_table app) = map from_endpoint (list_active_endpoints (con_store c))
          \<and> getenv_or env ''INTERNAL_SECRET'' [] \<noteq> []
          \<and> list_all (\<lambda>e. end_provider e = ''paypal'' \<or> getenv_or env (end_secret_env e) [] \<noteq> []) (list_active_endpoints (con_store c))"
proof -
  let ?es = "list_active_endpoints (con_store c)" and ?secret = "getenv_or env ''INTERNAL_SECRET'' []"
    and ?lookup = "\<lambda>name. getenv_or env name []" and ?url = "getenv_or env ''EVENTS_URL'' []"
  have "endpoints_valid (con_store c)" using routes_inv.holds [OF assms(1)] by simp
  then have v: "\<forall>e \<in> set ?es. validate (from_endpoint e) = Inr ()"
    by (auto simp: endpoints_valid_def list_active_endpoints_def list_all_iff)
  have s: "route_secret_env (from_endpoint e) = end_secret_env e" for e by (simp add: from_endpoint_def)
  have r: "routes (export_config ?es) = map from_endpoint ?es" by (simp add: export_config_def)
  have u: "list_all (\<lambda>route. route_usable route (?lookup (route_secret_env route))) (routes (export_config ?es))
      \<longleftrightarrow> list_all (\<lambda>e. end_provider e = ''paypal'' \<or> ?lookup (end_secret_env e) \<noteq> []) ?es"
    using v valid_route_usable by (auto simp: r list_all_iff s)
  have l: "load_config loads model_validate (file_text (config_path env)) = Inr (export_config ?es)"
    unfolding assms(4) by (rule load_marshal [OF assms(2,3)])
  have k: "encode_utf8 ?secret = [] \<longleftrightarrow> ?secret = []" by (simp add: encode_utf8_def)
  have "create_app (\<lambda>path. load_config loads model_validate (file_text path)) env =
      (if ?secret = [] then Inl (SystemExitErr ''INTERNAL_SECRET not set'')
       else build_app (export_config ?es) (encode_utf8 ?secret) ?lookup ?url)"
    unfolding create_app_def l py_bind_simps Let_def k ..
  with u build_app_spec [of "export_config ?es" "encode_utf8 ?secret" ?lookup ?url] show ?thesis
    by (cases "build_app (export_config ?es) (encode_utf8 ?secret) ?lookup ?url") (auto simp: r list_all_iff list_ex_iff)
qed

text \<open>A console with one GitHub route, seeded from a file, and an environment that holds its secret.\<close>

definition seeded_console :: console where
  "seeded_console =
     set_store (snd (seed_config demo_load 0 ''f'' (Inr (marshal (export_config [demo_row]))) empty_store)) fresh_console"

lemma seeded_reachable: "console_reachable (seeded_console, [])"
proof -
  have "con_store fresh_console = empty_store" by (simp add: fresh_console_def)
  moreover have "console_reachable (fresh_console, [])" unfolding fresh_console_def by (rule console_reachable.Boot)
  ultimately show ?thesis
    using console_reachable.Step [OF _ console_step.Job [OF job_step.SeedCommand], of fresh_console "[]" demo_load 0 "''f''"
        "Inr (marshal (export_config [demo_row]))"] by (simp add: seeded_console_def)
qed

lemma seeded_routes: "map from_endpoint (list_active_endpoints (con_store seeded_console)) = [demo_route]"
proof -
  have v: "validate demo_route = Inr ()" by (simp add: validate_iff demo_route_def)
  have "import_config demo_load (marshal (export_config [demo_row])) = Inr [to_endpoint demo_route]"
    by (simp add: import_config_def demo_load_def) (simp add: export_config_def import_routes_iff demo_row_def from_endpoint_cong v)
  moreover have "endpoint_check (to_endpoint demo_route)" by (simp add: endpoint_check_def to_endpoint_def demo_route_def)
  then have ck: "endpoint_check ((to_endpoint demo_route)\<lparr>end_created_at := t, end_updated_at := t\<rparr>)" for t
    by (simp add: endpoint_check_def)
  have e: "endpoints empty_store = []" by (simp add: empty_store_def)
  have act: "end_active (to_endpoint demo_route)" by (simp add: to_endpoint_def)
  have "seed_routes t [to_endpoint demo_route] empty_store =
      (Inr [end_path (to_endpoint demo_route)], empty_store\<lparr>endpoints :=
        [(to_endpoint demo_route)\<lparr>end_created_at := t, end_updated_at := t, end_id := next_id end_id ([] :: Endpoint list)\<rparr>]\<rparr>)" for t
    using ck by (simp add: get_endpoint_by_path_def create_endpoint_def append_row_def e)
  ultimately show ?thesis
    by (simp add: seeded_console_def seed_config_def list_active_endpoints_def act from_endpoint_cong)
qed

theorem export_starts_gateway_witness:
  "\<exists>app. create_app (\<lambda>path. load_config (loads_by json_read_text) demo_schema
        (marshal (export_config (list_active_endpoints (con_store seeded_console))))) (\<lambda>_. Some ''s'') = Inr app
     \<and> map fst (app_table app) = [demo_route]"
proof -
  have "getenv_or (\<lambda>_. Some ''s'') k [] = ''s''" for k by (simp add: getenv_or_def)
  then show ?thesis
    using export_starts_gateway [where env = "\<lambda>_. Some ''s''"
        and file_text = "\<lambda>_. marshal (export_config (list_active_endpoints (con_store seeded_console)))",
        OF seeded_reachable agrees_loads_by demo_schema_ok refl]
    by (cases "create_app (\<lambda>path. load_config (loads_by json_read_text) demo_schema
          (marshal (export_config (list_active_endpoints (con_store seeded_console))))) (\<lambda>_. Some ''s'')")
       (auto simp: seeded_routes list_ex_iff)
qed

section \<open>From the gateway to the Console\<close>

text \<open>C16: a verdict the gateway reports arrives. The request the emitter posts for an event, received by a console with
  the same secret and a running batcher, is answered with 202, and what is queued is the row of that very
  event, its timestamp to the microsecond and every string whatever characters it holds.\<close>

theorem event_reaches_console:
  assumes "post_request em ev = (url, body, hs)" "con_internal_secret c = em_secret em" "con_batcher c = Some b"
    "json_reader (env_loads e)" "timestamp_reader (env_parse_ts e)" "event_readable ev"
    "env_body e = body" "req_headers req = header_lookup hs"
  shows "call e IngestEvent req c = (Inr (PlainText 202 [] []), c\<lparr>con_batcher := Some (enqueue b (to_row ev))\<rparr>)"
proof -
  have p: "body = to_json_bytes ev" "hs = [(''Content-Type'', ''application/json''), (PROVIDER_HEADER, INGEST_PROVIDER_LABEL),
      (HEADER, sign (em_secret em) INGEST_PROVIDER_LABEL body)]"
    using assms(1) by (auto simp: post_request_def Let_def)
  have "ingest_authentic (con_internal_secret c) (req_headers req) body"
    using assms(2,8) p(2) by (simp add: ingest_authentic_def header_lookup_def PROVIDER_HEADER_def HEADER_def sign_def)
  moreover have "decode (env_loads e) (env_parse_ts e) body = Inr ev" unfolding p(1) by (rule decode_to_json_bytes [OF assms(4-6)])
  ultimately have "handle_ingest (env_loads e) (env_parse_ts e) (con_internal_secret c) (req_headers req) body (Some b)
      = (Inr Accepted202, Some (enqueue b (to_row ev)))"
    unfolding handle_ingest_def ingest_checks by simp
  then show ?thesis using assms(3,7) by (simp add: ingest_route_def)
qed

theorem event_reaches_console_witness:
  "fst (call (demo_env\<lparr>env_loads := loads_by json_read, env_parse_ts := demo_parse_ts,
      env_body := to_json_bytes Emitter.sample_event\<rparr>) IngestEvent
      (demo_signup\<lparr>req_headers := header_lookup (snd (snd (post_request (new_emitter ''u'' []) Emitter.sample_event)))\<rparr>) fresh_console)
   = Inr (PlainText 202 [] [])"
proof -
  have p: "post_request (new_emitter ''u'' []) Emitter.sample_event = (''u'', to_json_bytes Emitter.sample_event,
      snd (snd (post_request (new_emitter ''u'' []) Emitter.sample_event)))"
    by (simp add: post_request_def new_emitter_def Let_def)
  have c: "con_internal_secret fresh_console = em_secret (new_emitter ''u'' [])" "con_batcher fresh_console = Some new_batcher"
    by (simp_all add: fresh_console_def lifespan_start_def console_of_config_def default_config_def new_emitter_def)
  have "in_datetime_range (ev_timestamp Emitter.sample_event)"
    by (simp add: Emitter.sample_event_def make_event_def in_datetime_range_def days_to_ymd_def Let_def DAY_US_def EPOCH_DAYS_def)
  moreover have "fits_sql (millis 0)" by code_simp
  ultimately have r: "event_readable Emitter.sample_event"
    using fits_sql_readable [of "millis 0"] fits_sql_readable [of 200] fits_sql_readable [of 0]
    unfolding event_readable_def by (simp add: fits_sql_def Emitter.sample_event_def make_event_def)
  show ?thesis by (subst event_reaches_console [OF p c _ _ r]) (simp_all add: demo_parse_ts_ok)
qed

text \<open>The headers a verifier reads.\<close>

lemma verifiers_read:
  "hs GITHUB_HEADER = hs' GITHUB_HEADER \<Longrightarrow> github_verify k body hs = github_verify k body hs'"
  "hs SHOPIFY_HEADER = hs' SHOPIFY_HEADER \<Longrightarrow> shopify_verify k body hs = shopify_verify k body hs'"
  "hs STRIPE_HEADER = hs' STRIPE_HEADER \<Longrightarrow> stripe_verify k w body hs now = stripe_verify k w body hs' now"
  "list_all (\<lambda>h. hs h = hs' h) (pg_headers guide_paypal) \<Longrightarrow>
     paypal_verify lib client t0 t1 wid body hs st = paypal_verify lib client t0 t1 wid body hs' st"
  by (simp_all add: github_verify_def shopify_verify_def stripe_verify_def paypal_verify_def guide_paypal_def)

lemma registered_verifier:
  assumes "build_verifier REGISTRY route secret = Inr v"
  shows "case v of GitHubVerifier _ \<Rightarrow> route_provider route = ''github'' | ShopifyVerifier _ \<Rightarrow> route_provider route = ''shopify''
    | StripeVerifier _ _ \<Rightarrow> route_provider route = ''stripe'' | PayPalVerifier _ \<Rightarrow> route_provider route = ''paypal''"
  using assms
  by (auto simp: build_verifier_def REGISTRY_def import_providers_ok build_github_def build_shopify_def
      build_paypal_def build_stripe_iff split: option.splits if_splits)

lemma guide_ids: "pg_id guide_stripe = ''stripe''" "pg_id guide_github = ''github''" "pg_id guide_shopify = ''shopify''"
  "pg_id guide_paypal = ''paypal''"
  by (simp_all add: guide_stripe_def guide_github_def guide_shopify_def guide_paypal_def)

lemma guide_headers: "pg_headers guide_stripe = [STRIPE_HEADER]" "pg_headers guide_github = [GITHUB_HEADER]"
  "pg_headers guide_shopify = [SHOPIFY_HEADER]"
  by (simp_all add: guide_stripe_def guide_github_def guide_shopify_def STRIPE_HEADER_def GITHUB_HEADER_def SHOPIFY_HEADER_def)

lemma guide_reasons:
  "set (pg_reject_reasons guide_stripe) = {''missing header'', ''bad encoding'', ''stale timestamp'', ''signature mismatch''}"
  "set (pg_reject_reasons guide_github) = {''missing header'', ''bad encoding'', ''signature mismatch''}"
  "set (pg_reject_reasons guide_shopify) = {''missing header'', ''bad encoding'', ''signature mismatch''}"
  by (auto simp: guide_stripe_def guide_github_def guide_shopify_def)

text \<open>Every reason an HMAC verifier gives is on its provider's list.\<close>

definition listed :: "ProviderGuide \<Rightarrow> unit py \<Rightarrow> bool" where
  "listed g r \<longleftrightarrow>
     (case r of Inl (VerificationErr m) \<Rightarrow> classify_reason (Some (VerificationErr m)) \<in> set (pg_reject_reasons g) | _ \<Rightarrow> True)"

lemma listed_iff: "listed g r \<longleftrightarrow> (\<forall>m. r = Inl (VerificationErr m) \<longrightarrow> classify_reason (Some (VerificationErr m)) \<in> set (pg_reject_reasons g))"
  by (auto simp: listed_def split: sum.splits pyexn.splits)

lemma listed_github: "listed guide_github (github_verify k body hs)"
  unfolding listed_iff guide_reasons by (auto dest!: github_reason split: if_splits)

lemma listed_shopify: "listed guide_shopify (shopify_verify k body hs)"
  unfolding listed_iff guide_reasons by (blast dest: shopify_reason)

lemma listed_stripe: "listed guide_stripe (stripe_verify k w body hs now)"
  unfolding listed_iff guide_reasons by (blast dest: stripe_reason)

text \<open>C40: the setup guides tell the truth about the HMAC providers. The registered verifier of a catalog entry looks at
  no header but those the guide lists, and the reason recorded for any rejection by an HMAC verifier is one of those the guide lists.\<close>

theorem catalog_describes_verifiers:
  assumes "build_verifier REGISTRY route secret = Inr v" "g \<in> set PROVIDER_CATALOG" "pg_id g = route_provider route"
    "\<forall>h. py_lower h \<in> py_lower ` set (pg_headers g) \<longrightarrow> hs h = hs' h"
  shows "run_verify lib ve v body hs st = run_verify lib ve v body hs' st
    \<and> (if route_provider route = ''paypal'' then True else listed g (fst (run_verify lib ve v body hs st)))"
proof -
  have same: "list_all (\<lambda>h. hs h = hs' h) (pg_headers g)" using assms(4) by (simp add: list_all_iff)
  have reg: "case v of GitHubVerifier _ \<Rightarrow> route_provider route = ''github'' | ShopifyVerifier _ \<Rightarrow> route_provider route = ''shopify''
    | StripeVerifier _ _ \<Rightarrow> route_provider route = ''stripe'' | PayPalVerifier _ \<Rightarrow> route_provider route = ''paypal''"
    by (rule registered_verifier [OF assms(1)])
  have g: "g \<in> {guide_stripe, guide_github, guide_shopify, guide_paypal}" using assms(2) by (simp add: PROVIDER_CATALOG_def)
  show ?thesis
  proof (cases v)
    case (GitHubVerifier k)
    then have p: "g = guide_github" using g reg assms(3) guide_ids by auto
    with same have "hs GITHUB_HEADER = hs' GITHUB_HEADER" by (simp add: guide_headers)
    then show ?thesis
      using verifiers_read(1) [of hs hs' k body] listed_github [of k body hs] p by (simp add: run_verify_def GitHubVerifier)
  next
    case (ShopifyVerifier k)
    then have p: "g = guide_shopify" using g reg assms(3) guide_ids by auto
    with same have "hs SHOPIFY_HEADER = hs' SHOPIFY_HEADER" by (simp add: guide_headers)
    then show ?thesis
      using verifiers_read(2) [of hs hs' k body] listed_shopify [of k body hs] p by (simp add: run_verify_def ShopifyVerifier)
  next
    case (StripeVerifier k w)
    then have p: "g = guide_stripe" using g reg assms(3) guide_ids by auto
    with same have "hs STRIPE_HEADER = hs' STRIPE_HEADER" by (simp add: guide_headers)
    then show ?thesis
      using verifiers_read(3) [of hs hs' k w body "verify_env.env_now ve"] listed_stripe [of k w body hs "verify_env.env_now ve"] p
      by (simp add: run_verify_def StripeVerifier)
  next
    case (PayPalVerifier wid)
    then have p: "g = guide_paypal" using g reg assms(3) guide_ids by auto
    show ?thesis
      using verifiers_read(4) [of hs hs' lib "env_client ve" "env_t0 ve" "env_t1 ve" wid body st] same p reg PayPalVerifier
      by (simp add: run_verify_def split: sum.split pyexn.split)
  qed
qed

theorem catalog_describes_verifiers_witness:
  "\<forall>lib ve st. listed guide_github (fst (run_verify lib ve (GitHubVerifier [0x73]) [] Map.empty st))"
proof -
  have b: "build_verifier REGISTRY demo_route ''s'' = Inr (GitHubVerifier [0x73])"
    by (simp add: build_verifier_def demo_route_def build_github_def encode_utf8_def utf8_char_def)
  have "guide_github \<in> set PROVIDER_CATALOG" "pg_id guide_github = route_provider demo_route"
    by (simp_all add: PROVIDER_CATALOG_def guide_ids demo_route_def)
  then have "listed guide_github (fst (run_verify lib ve (GitHubVerifier [0x73]) [] Map.empty st))" for lib ve st
    using catalog_describes_verifiers [OF b, of guide_github Map.empty Map.empty lib ve "[]" st] by (simp add: demo_route_def)
  then show ?thesis by blast
qed

end
